theory Spec2Isabelle
  imports Complex_Main "HOL-Library.Sublist"
begin

text \<open>
  A shallow embedding of the LoRA merge of \<^verbatim>\<open>av_generator_lora.py\<close>
  (\<^verbatim>\<open>apply_lora_weights\<close> and its helper \<^verbatim>\<open>sanitize_key\<close>) over arrays of
  IEEE 754 floating-point numbers, of \<^verbatim>\<open>generate_video_with_audio_lora\<close> from its
  assertions and its frame-count adjustment to the transformer configuration,
  and of the request loop of \<^verbatim>\<open>ltx_server.py\<close>.
\<close>

section \<open>Frame-count adjustment (\<open>generate_video_with_audio_lora\<close>)\<close>

text \<open>
  Python exceptions that the modelled code can raise; \<open>OtherError c\<close> is an
  exception of class \<open>c\<close> raised inside a library.
\<close>

datatype py_error =
    ValueError | OverflowError | ZeroDivisionError | AssertionError | NameError
  | OtherError string

text \<open>
  The source computes \<^verbatim>\<open>round((num_frames - 1) / 8) * 8 + 1\<close>.  In Python 3 the
  operator \<^verbatim>\<open>/\<close> on two ints is true division: its result is the binary64 float
  nearest to the exact quotient (ties to the even significand), and it raises
  OverflowError when that float would be infinite.  \<^verbatim>\<open>round\<close> of a float returns
  the nearest int, ties to the even int.  A finite float is represented by the
  rational number it denotes.

  \<open>bit_length\<close> is Python's \<^verbatim>\<open>int.bit_length\<close>; \<open>float53 m\<close> is the integer with
  at most 53 significant bits nearest to \<open>m\<close>.  Dividing by 8 only changes the
  exponent, so the float nearest to \<open>m / 8\<close> is \<open>float53 m / 8\<close>; it overflows
  exactly when \<open>float53 m\<close> reaches \<open>8 * 2 ^ 1024\<close>.
\<close>

function bit_length :: "int \<Rightarrow> nat" where
  "bit_length m = (if m = 0 then 0 else Suc (bit_length (\<bar>m\<bar> div 2)))"
  by auto
termination
  by (relation "measure (\<lambda>m. nat \<bar>m\<bar>)") auto

declare bit_length.simps [simp del]

definition round_half_even_div :: "int \<Rightarrow> int \<Rightarrow> int" where
  "round_half_even_div m d =
     (let q = m div d; r = m mod d
      in if 2 * r < d then q
         else if d < 2 * r then q + 1
         else if even q then q else q + 1)"

definition float53 :: "int \<Rightarrow> int" where
  "float53 m =
     (let e = bit_length m - 53
      in round_half_even_div m (2 ^ e) * 2 ^ e)"

definition truediv8 :: "int \<Rightarrow> py_error + rat" where
  "truediv8 m =
     (if 2 ^ 1027 \<le> \<bar>float53 m\<bar> then Inl OverflowError
      else Inr (of_int (float53 m) / 8))"

definition py_round :: "rat \<Rightarrow> int" where
  "py_round x =
     (let f = \<lfloor>x\<rfloor>; d = x - of_int f
      in if d < 1 / 2 then f
         else if 1 / 2 < d then f + 1
         else if even f then f else f + 1)"

text \<open>
  Lines 247--252: a conforming count is kept, any other is replaced.
\<close>

definition adjust_num_frames :: "int \<Rightarrow> py_error + int" where
  "adjust_num_frames num_frames =
     (if num_frames mod 8 \<noteq> 1
      then (case truediv8 (num_frames - 1) of
              Inl e \<Rightarrow> Inl e
            | Inr q \<Rightarrow> Inr (py_round q * 8 + 1))
      else Inr num_frames)"

section \<open>Python strings\<close>

text \<open>
  A Python \<^verbatim>\<open>str\<close> is a sequence of code points.  Keys are modelled as
  \<^typ>\<open>string\<close>, each \<^typ>\<open>char\<close> standing for the code point of the same number
  (U+0000 to U+00FF).  The functions below are the \<^verbatim>\<open>str\<close> operations the
  source calls.
\<close>

text \<open>\<^verbatim>\<open>sub in s\<close>.\<close>

fun str_contains :: "string \<Rightarrow> string \<Rightarrow> bool" where
  "str_contains sub [] = (sub = [])"
| "str_contains sub (c # cs) = (prefix sub (c # cs) \<or> str_contains sub cs)"

text \<open>\<^verbatim>\<open>s.startswith(p)\<close>.\<close>

definition startswith :: "string \<Rightarrow> string \<Rightarrow> bool" where
  "startswith s p = prefix p s"

text \<open>
  \<^verbatim>\<open>s.replace(old, new)\<close>: every occurrence of \<open>old\<close>, found from left to right
  without overlap, is replaced.  \<open>replace_scan\<close> carries the number of characters
  of the current match that are still to be dropped.
\<close>

fun replace_scan :: "string \<Rightarrow> string \<Rightarrow> nat \<Rightarrow> string \<Rightarrow> string" where
  "replace_scan old new k [] = []"
| "replace_scan old new (Suc k) (c # cs) = replace_scan old new k cs"
| "replace_scan old new 0 (c # cs) =
     (if prefix old (c # cs) then new @ replace_scan old new (length old - 1) cs
      else c # replace_scan old new 0 cs)"

definition str_replace :: "string \<Rightarrow> string \<Rightarrow> string \<Rightarrow> string" where
  "str_replace old new s =
     (if old = [] then new @ concat (map (\<lambda>c. c # new) s)
      else replace_scan old new 0 s)"

text \<open>\<^verbatim>\<open>s.split(sep)[0]\<close> for a non-empty separator: the text before its first occurrence.\<close>

fun split_head :: "string \<Rightarrow> string \<Rightarrow> string" where
  "split_head sep [] = []"
| "split_head sep (c # cs) = (if prefix sep (c # cs) then [] else c # split_head sep cs)"

text \<open>\<^verbatim>\<open>s.split('.')\<close>.\<close>

fun split_dots :: "string \<Rightarrow> string list" where
  "split_dots [] = [[]]"
| "split_dots (c # cs) =
     (if c = CHR ''.'' then [] # split_dots cs
      else (case split_dots cs of
              [] \<Rightarrow> [[c]]
            | w # ws \<Rightarrow> (c # w) # ws))"

text \<open>
  \<^verbatim>\<open>s.isdigit()\<close> holds when \<open>s\<close> is non-empty and every character has the
  Unicode property Numeric_Type=Digit or Decimal.  Below U+0100 these are the
  ten ASCII digits and the superscripts U+00B2, U+00B3 and U+00B9.
  On such a string, the only kind the source passes to it, \<^verbatim>\<open>int(s)\<close> accepts
  only the decimal digits and raises ValueError on the superscripts; it also
  raises ValueError on more than 4300 digits, the interpreter's default limit
  for the conversion of a string to an int.
\<close>

definition is_decimal_char :: "char \<Rightarrow> bool" where
  "is_decimal_char c = (48 \<le> (of_char c :: nat) \<and> (of_char c :: nat) \<le> 57)"

definition is_digit_char :: "char \<Rightarrow> bool" where
  "is_digit_char c =
     (is_decimal_char c \<or> (of_char c :: nat) \<in> {178, 179, 185})"

definition isdigit :: "string \<Rightarrow> bool" where
  "isdigit s = (s \<noteq> [] \<and> list_all is_digit_char s)"

definition py_int :: "string \<Rightarrow> py_error + int" where
  "py_int s =
     (if s \<noteq> [] \<and> list_all is_decimal_char s \<and> length s \<le> 4300
      then Inr (foldl (\<lambda>a c. 10 * a + (int (of_char c) - 48)) 0 s)
      else Inl ValueError)"

section \<open>Key normaliser and adapter grouping (\<open>apply_lora_weights\<close>, lines 93--157)\<close>

text \<open>Lines 94--109, statement by statement.\<close>

definition sanitize_key :: "string \<Rightarrow> string" where
  "sanitize_key key0 =
     (let key = str_replace ''model.diffusion_model.'' '''' key0;
          key = (if startswith key ''transformer.''
                 then str_replace ''transformer.'' '''' key else key);
          key = str_replace ''.to_out.0.'' ''.to_out.'' key;
          key = str_replace ''.ff.net.0.proj.'' ''.ff.proj_in.'' key;
          key = str_replace ''.ff.net.2.'' ''.ff.proj_out.'' key;
          key = str_replace ''.audio_ff.net.0.proj.'' ''.audio_ff.proj_in.'' key;
          key = str_replace ''.audio_ff.net.2.'' ''.audio_ff.proj_out.'' key;
          key = str_replace ''.linear_1.'' ''.linear1.'' key;
          key = str_replace ''.linear_2.'' ''.linear2.'' key
      in key)"

text \<open>
  What the comment \<^verbatim>\<open># Remove prefixes\<close> and the specification describe: a prefix
  is removed at the front of the key only.
\<close>

definition remove_prefix :: "string \<Rightarrow> string \<Rightarrow> string" where
  "remove_prefix p s = (if prefix p s then drop (length p) s else s)"

definition sanitize_key_spec :: "string \<Rightarrow> string" where
  "sanitize_key_spec key0 =
     (let key = remove_prefix ''model.diffusion_model.'' key0;
          key = remove_prefix ''transformer.'' key;
          key = str_replace ''.to_out.0.'' ''.to_out.'' key;
          key = str_replace ''.ff.net.0.proj.'' ''.ff.proj_in.'' key;
          key = str_replace ''.ff.net.2.'' ''.ff.proj_out.'' key;
          key = str_replace ''.audio_ff.net.0.proj.'' ''.audio_ff.proj_in.'' key;
          key = str_replace ''.audio_ff.net.2.'' ''.audio_ff.proj_out.'' key;
          key = str_replace ''.linear_1.'' ''.linear1.'' key;
          key = str_replace ''.linear_2.'' ''.linear2.'' key
      in key)"

text \<open>
  The loaded archive \<^verbatim>\<open>lora_weights\<close> and the dictionary \<^verbatim>\<open>lora_groups\<close> are
  Python dicts: association lists in insertion order.  \<open>dict_set\<close> is
  \<^verbatim>\<open>d[k] = v\<close>: an existing key keeps its position, a new key goes last.
  A group is the inner dict with the keys \<^verbatim>\<open>"down"\<close>, \<^verbatim>\<open>"up"\<close> and \<^verbatim>\<open>"alpha"\<close>.
\<close>

fun dict_set :: "('k \<times> 'v) list \<Rightarrow> 'k \<Rightarrow> 'v \<Rightarrow> ('k \<times> 'v) list" where
  "dict_set [] k v = [(k, v)]"
| "dict_set ((k', v') # d) k v =
     (if k' = k then (k, v) # d else (k', v') # dict_set d k v)"

record 'v lora_group =
  down :: "'v option"
  up :: "'v option"
  alpha :: "'v option"

definition empty_group :: "'v lora_group" where
  "empty_group = \<lparr>down = None, up = None, alpha = None\<rparr>"

datatype role = Down | Up

text \<open>
  Lines 115--140: the filters and the \<^verbatim>\<open>if/elif\<close> chain that yield \<^verbatim>\<open>base_name\<close>
  and \<^verbatim>\<open>type_\<close>; \<open>None\<close> is \<^verbatim>\<open>continue\<close>.
\<close>

definition classify_key :: "string \<Rightarrow> (string \<times> role) option" where
  "classify_key key =
     (if \<not> str_contains ''lora'' key then None
      else if str_contains ''alpha'' key then None
      else
        let is_down = (str_contains ''lora_down'' key \<or> str_contains ''lora_A'' key);
            is_up = (str_contains ''lora_up'' key \<or> str_contains ''lora_B'' key)
        in if \<not> (is_down \<or> is_up) then None
           else if str_contains ''lora_down'' key
             then Some (split_head ''.lora_down'' key, Down)
           else if str_contains ''lora_up'' key
             then Some (split_head ''.lora_up'' key, Up)
           else if str_contains ''lora_A'' key
             then Some (split_head ''.lora_A'' key, Down)
           else if str_contains ''lora_B'' key
             then Some (split_head ''.lora_B'' key, Up)
           else None)"

text \<open>Lines 149--157: the first alpha spelling present in the archive.\<close>

definition find_alpha :: "(string \<times> 'v) list \<Rightarrow> string \<Rightarrow> 'v option" where
  "find_alpha lora_weights base_name =
     (case map_of lora_weights (base_name @ ''.lora.alpha'') of
        Some a \<Rightarrow> Some a
      | None \<Rightarrow>
          (case map_of lora_weights (base_name @ ''.alpha'') of
             Some a \<Rightarrow> Some a
           | None \<Rightarrow> map_of lora_weights (base_name @ ''.lora_alpha'')))"

text \<open>Lines 114--157: the body of the grouping loop for one item of the archive.\<close>

fun group_entry ::
  "(string \<times> 'v) list \<Rightarrow> (string \<times> 'v lora_group) list \<Rightarrow> string \<times> 'v
     \<Rightarrow> (string \<times> 'v lora_group) list" where
  "group_entry lora_weights lora_groups (key, value) =
     (case classify_key key of
        None \<Rightarrow> lora_groups
      | Some (base_name, type_) \<Rightarrow>
          let sanitized_base = sanitize_key base_name;
              g = (case map_of lora_groups sanitized_base of
                     None \<Rightarrow> empty_group
                   | Some g \<Rightarrow> g);
              g = (case type_ of
                     Down \<Rightarrow> g\<lparr>down := Some value\<rparr>
                   | Up \<Rightarrow> g\<lparr>up := Some value\<rparr>);
              g = (case find_alpha lora_weights base_name of
                     None \<Rightarrow> g
                   | Some a \<Rightarrow> g\<lparr>alpha := Some a\<rparr>)
          in dict_set lora_groups sanitized_base g)"

definition group_weights ::
  "(string \<times> 'v) list \<Rightarrow> (string \<times> 'v lora_group) list" where
  "group_weights lora_weights = foldl (group_entry lora_weights) [] lora_weights"

text \<open>
  The four substrings the classification chain tests for; a text that contains
  none of them cannot influence which branch of the chain is taken.
\<close>

definition marker_free :: "string \<Rightarrow> bool" where
  "marker_free s =
     (\<not> str_contains ''lora_down'' s \<and> \<not> str_contains ''lora_up'' s \<and>
      \<not> str_contains ''lora_A'' s \<and> \<not> str_contains ''lora_B'' s)"

section \<open>Floating-point numbers\<close>

text \<open>
  The entries of an array and the floats of Python are binary floating-point
  numbers (IEEE 754).  A value is a finite number, \<open>Fin q\<close> with \<open>q\<close> the real
  number it denotes and \<open>Fin 0\<close> the positive zero, or the negative zero, an
  infinity, or a NaN (the model has one NaN: payloads are not told apart).
  The literals \<open>0\<close> and \<open>1\<close> stand for \<open>Fin 0\<close> and \<open>Fin 1\<close>.

  A format is a precision (the number of significant bits, the hidden one
  included) and a largest exponent: binary16, bfloat16 and binary32 are the
  formats of the dtypes \<^verbatim>\<open>float16\<close>, \<^verbatim>\<open>bfloat16\<close> and \<^verbatim>\<open>float32\<close>, binary64 is
  Python's \<^verbatim>\<open>float\<close>.
\<close>

datatype fval = Fin real | NegZero | PosInf | NegInf | NaN

instantiation fval :: "{zero, one}"
begin

definition zero_fval :: fval where "zero_fval = Fin 0"

definition one_fval :: fval where "one_fval = Fin 1"

instance ..

end

type_synonym format = "nat \<times> int"

definition binary16 :: format where "binary16 = (11, 15)"

definition bfloat16 :: format where "bfloat16 = (8, 127)"

definition binary32 :: format where "binary32 = (24, 127)"

definition binary64 :: format where "binary64 = (53, 1023)"

text \<open>
  Rounding to the nearest value of a format, ties to the even significand.
  \<open>ilog2 q\<close> is the exponent \<open>e\<close> of a positive \<open>q\<close>, the one with
  \<open>2 powi e \<le> q < 2 powi (e + 1)\<close> (lemma \<open>ilog2_bounds\<close>).  Below the smallest
  normal number the exponent is that of the subnormal numbers, \<open>1 - emax\<close>.
  With precision \<open>p\<close> the values around \<open>q\<close> are the multiples of
  \<open>2 powi (e - p + 1)\<close>.  A result that reaches \<open>2 powi (emax + 1)\<close> is an
  infinity, a result that vanishes is a zero, each with the sign of \<open>q\<close>.
\<close>

definition ilog2 :: "real \<Rightarrow> int" where
  "ilog2 q =
     (if 1 \<le> q then int (bit_length \<lfloor>q\<rfloor>) - 1
      else (let k = int (bit_length \<lfloor>1 / q\<rfloor>) - 1
            in if q * 2 powi k = 1 then - k else - k - 1))"

definition round_half_even :: "real \<Rightarrow> int" where
  "round_half_even x =
     (let f = \<lfloor>x\<rfloor>; d = x - of_int f
      in if d < 1 / 2 then f
         else if 1 / 2 < d then f + 1
         else if even f then f else f + 1)"

definition round_at :: "format \<Rightarrow> int \<Rightarrow> real \<Rightarrow> fval" where
  "round_at fmt e0 q =
     (let p = int (fst fmt); emax = snd fmt;
          e = max e0 (1 - emax);
          u = 2 powi (e - p + 1);
          r = of_int (round_half_even (\<bar>q\<bar> / u)) * u
      in if 2 powi (emax + 1) \<le> r then (if q < 0 then NegInf else PosInf)
         else if r = 0 then (if q < 0 then NegZero else Fin 0)
         else Fin (if q < 0 then - r else r))"

definition fround :: "format \<Rightarrow> real \<Rightarrow> fval" where
  "fround fmt q = (if q = 0 then Fin 0 else round_at fmt (ilog2 \<bar>q\<bar>) q)"

text \<open>A value of the format: rounding leaves it as it is.\<close>

fun is_float :: "format \<Rightarrow> fval \<Rightarrow> bool" where
  "is_float fmt (Fin q) = (fround fmt q = Fin q)"
| "is_float fmt x = True"

fun is_zero :: "fval \<Rightarrow> bool" where
  "is_zero (Fin q) = (q = 0)"
| "is_zero NegZero = True"
| "is_zero x = False"

fun is_finite :: "fval \<Rightarrow> bool" where
  "is_finite (Fin q) = True"
| "is_finite NegZero = True"
| "is_finite x = False"

fun is_inf :: "fval \<Rightarrow> bool" where
  "is_inf PosInf = True"
| "is_inf NegInf = True"
| "is_inf x = False"

fun negative :: "fval \<Rightarrow> bool" where
  "negative (Fin q) = (q < 0)"
| "negative NegZero = True"
| "negative NegInf = True"
| "negative x = False"

fun val :: "fval \<Rightarrow> real" where
  "val (Fin q) = q"
| "val x = 0"

text \<open>
  Addition and multiplication in a format: the exact result, rounded.  The sum
  of two zeros is negative only when both are; an exact sum zero of non-zero
  numbers is positive; the sign of a product is the product of the signs;
  \<open>inf - inf\<close> and \<open>inf * 0\<close> are NaN.
\<close>

fun fadd :: "format \<Rightarrow> fval \<Rightarrow> fval \<Rightarrow> fval" where
  "fadd fmt NaN y = NaN"
| "fadd fmt x NaN = NaN"
| "fadd fmt PosInf NegInf = NaN"
| "fadd fmt NegInf PosInf = NaN"
| "fadd fmt PosInf y = PosInf"
| "fadd fmt x PosInf = PosInf"
| "fadd fmt NegInf y = NegInf"
| "fadd fmt x NegInf = NegInf"
| "fadd fmt NegZero NegZero = NegZero"
| "fadd fmt NegZero (Fin b) = fround fmt b"
| "fadd fmt (Fin a) NegZero = fround fmt a"
| "fadd fmt (Fin a) (Fin b) = fround fmt (a + b)"

definition fmul :: "format \<Rightarrow> fval \<Rightarrow> fval \<Rightarrow> fval" where
  "fmul fmt x y =
     (if x = NaN \<or> y = NaN then NaN
      else if is_inf x \<or> is_inf y
        then (if is_zero x \<or> is_zero y then NaN
              else if negative x = negative y then PosInf else NegInf)
      else if is_zero x \<or> is_zero y
        then (if negative x = negative y then Fin 0 else NegZero)
      else fround fmt (val x * val y))"

text \<open>Conversion to a format (\<^verbatim>\<open>astype\<close>, and what \<^verbatim>\<open>float(x)\<close> does to an entry).\<close>

fun cast :: "format \<Rightarrow> fval \<Rightarrow> fval" where
  "cast fmt (Fin q) = fround fmt q"
| "cast fmt x = x"

text \<open>
  Python's \<^verbatim>\<open>x / n\<close> for a float \<open>x\<close> and a positive int \<open>n\<close> below \<open>2\<^sup>5\<^sup>3\<close>, which
  \<^verbatim>\<open>float(n)\<close> represents exactly.
\<close>

fun fdiv_int :: "fval \<Rightarrow> nat \<Rightarrow> fval" where
  "fdiv_int (Fin q) n = fround binary64 (q / real n)"
| "fdiv_int x n = x"

section \<open>Tensors\<close>

text \<open>
  The arrays the merge works on are two-dimensional (the adapter matrices and
  the weight of a linear layer); a one-element array such as \<^verbatim>\<open>alpha\<close> is a
  \<open>1 \<times> 1\<close> tensor.  A tensor carries its dtype, one of the floating dtypes, its
  shape and its entries, which are values of the format of the dtype.
  The operations are those of the array library as the source calls them:
  \<^verbatim>\<open>a @ b\<close>, \<^verbatim>\<open>a * c\<close> for a Python float \<open>c\<close>, \<^verbatim>\<open>a.astype(d)\<close>, \<^verbatim>\<open>a + b\<close> with
  broadcasting, and \<^verbatim>\<open>a.item()\<close>.  A shape mismatch raises ValueError.
\<close>

datatype dtype = Float16 | BFloat16 | Float32

fun format_of :: "dtype \<Rightarrow> format" where
  "format_of Float16 = binary16"
| "format_of BFloat16 = bfloat16"
| "format_of Float32 = binary32"

record tensor =
  dtype :: dtype
  nrows :: nat
  ncols :: nat
  cells :: "fval list list"

definition well_shaped :: "tensor \<Rightarrow> bool" where
  "well_shaped t =
     (length (cells t) = nrows t \<and> list_all (\<lambda>row. length row = ncols t) (cells t))"

text \<open>An array as the library holds it: of its shape, with entries of its dtype.\<close>

definition well_formed :: "tensor \<Rightarrow> bool" where
  "well_formed t =
     (well_shaped t \<and> list_all (list_all (is_float (format_of (dtype t)))) (cells t))"

definition cell_at :: "tensor \<Rightarrow> nat \<Rightarrow> nat \<Rightarrow> fval" where
  "cell_at t i j = cells t ! i ! j"

definition tabulate2 :: "nat \<Rightarrow> nat \<Rightarrow> (nat \<Rightarrow> nat \<Rightarrow> 'a) \<Rightarrow> 'a list list" where
  "tabulate2 r c f = map (\<lambda>i. map (\<lambda>j. f i j) [0..<c]) [0..<r]"

text \<open>Type promotion among the floating dtypes.\<close>

definition result_type :: "dtype \<Rightarrow> dtype \<Rightarrow> dtype" where
  "result_type a b = (if a = b then a else Float32)"

text \<open>
  \<^verbatim>\<open>a @ b\<close>.  The library fixes neither the order in which the products of an
  entry are summed nor the rounding of the partial sums; \<open>dot\<close> takes them in
  the order of the index, each product and each partial sum rounded to
  binary32, and the entry is the sum converted to the dtype of the result.
  For an inner dimension of 1, as in the examples below, every such choice
  gives the same entry.
\<close>

definition dot :: "fval list \<Rightarrow> fval list \<Rightarrow> fval" where
  "dot xs ys = foldl (\<lambda>acc xy. fadd binary32 acc (fmul binary32 (fst xy) (snd xy))) 0 (zip xs ys)"

definition matmul :: "tensor \<Rightarrow> tensor \<Rightarrow> py_error + tensor" where
  "matmul a b =
     (if ncols a = nrows b
      then Inr \<lparr>dtype = result_type (dtype a) (dtype b),
                nrows = nrows a, ncols = ncols b,
                cells = tabulate2 (nrows a) (ncols b)
                  (\<lambda>i j. cast (format_of (result_type (dtype a) (dtype b)))
                     (dot (map (\<lambda>k. cell_at a i k) [0..<ncols a])
                          (map (\<lambda>k. cell_at b k j) [0..<ncols a])))\<rparr>
      else Inl ValueError)"

text \<open>
  \<^verbatim>\<open>a * c\<close> for a Python float \<open>c\<close>: the scalar becomes an array of the dtype of
  \<open>a\<close>, which it reaches through binary32, and the product is taken entry by
  entry in that dtype.
\<close>

definition scalar_of :: "dtype \<Rightarrow> fval \<Rightarrow> fval" where
  "scalar_of d c = cast (format_of d) (cast binary32 c)"

definition scalar_mul :: "tensor \<Rightarrow> fval \<Rightarrow> tensor" where
  "scalar_mul t c =
     t\<lparr>cells := map (map (\<lambda>x. fmul (format_of (dtype t)) x (scalar_of (dtype t) c)))
                   (cells t)\<rparr>"

definition astype :: "tensor \<Rightarrow> dtype \<Rightarrow> tensor" where
  "astype t d = t\<lparr>dtype := d, cells := map (map (cast (format_of d))) (cells t)\<rparr>"

definition broadcast_dim :: "nat \<Rightarrow> nat \<Rightarrow> nat option" where
  "broadcast_dim m n =
     (if m = n then Some m
      else if m = 1 then Some n
      else if n = 1 then Some m
      else None)"

text \<open>Reading a tensor under broadcasting: an axis of length 1 is repeated.\<close>

definition bcast_at :: "tensor \<Rightarrow> nat \<Rightarrow> nat \<Rightarrow> fval" where
  "bcast_at t i j = cell_at t (if nrows t = 1 then 0 else i) (if ncols t = 1 then 0 else j)"

definition tensor_add :: "tensor \<Rightarrow> tensor \<Rightarrow> py_error + tensor" where
  "tensor_add a b =
     (case broadcast_dim (nrows a) (nrows b) of
        None \<Rightarrow> Inl ValueError
      | Some r \<Rightarrow>
          (case broadcast_dim (ncols a) (ncols b) of
             None \<Rightarrow> Inl ValueError
           | Some c \<Rightarrow>
               Inr \<lparr>dtype = result_type (dtype a) (dtype b), nrows = r, ncols = c,
                    cells = tabulate2 r c
                      (\<lambda>i j. fadd (format_of (result_type (dtype a) (dtype b)))
                                (bcast_at a i j) (bcast_at b i j))\<rparr>))"

text \<open>\<^verbatim>\<open>a.item()\<close>: the entry of a one-element array, as a Python float.\<close>

definition tensor_item :: "tensor \<Rightarrow> py_error + fval" where
  "tensor_item t =
     (if nrows t * ncols t = 1 then Inr (cast binary64 (cell_at t 0 0)) else Inl ValueError)"

section \<open>The module graph\<close>

text \<open>
  The model is a graph of Python objects that the merge mutates in place, so
  objects live in a heap and refer to each other by address.  Of an object the
  resolver observes
  \<^item> \<open>attrs\<close>: the names for which \<^verbatim>\<open>hasattr\<close> holds, with what \<^verbatim>\<open>getattr\<close> returns;
  \<^item> \<open>dict_items\<close>: present when \<^verbatim>\<open>isinstance(obj, dict)\<close>, the items by key
    (a key is a string or an integer);
  \<^item> \<open>list_items\<close>: present when \<^verbatim>\<open>isinstance(obj, list)\<close>, the elements;
  \<^item> \<open>linear_weight\<close>: present when \<^verbatim>\<open>isinstance(obj, nn.Linear)\<close>, the tensor
    bound to its attribute \<^verbatim>\<open>weight\<close>.
\<close>

type_synonym addr = nat

datatype pykey = StrKey string | IntKey int

record pyobj =
  attrs :: "(string \<times> addr) list"
  dict_items :: "(pykey \<times> addr) list option"
  list_items :: "addr list option"
  linear_weight :: "tensor option"

type_synonym heap = "addr \<Rightarrow> pyobj"

section \<open>Module path resolver (\<open>apply_lora_weights\<close>, lines 169--193)\<close>

text \<open>
  One iteration of the loop over \<^verbatim>\<open>parts\<close>.  \<open>Inr (Some a)\<close>: \<^verbatim>\<open>curr\<close> becomes the
  object at \<open>a\<close>; \<open>Inr None\<close>: \<^verbatim>\<open>valid_path = False; break\<close>; \<open>Inl e\<close>: the
  iteration raises \<open>e\<close>.  The branches are the five of the \<^verbatim>\<open>if/elif\<close> chain, in
  its order; \<^verbatim>\<open>int(part)\<close> is evaluated where the chain evaluates it.
\<close>

definition resolve_part :: "heap \<Rightarrow> addr \<Rightarrow> string \<Rightarrow> py_error + addr option" where
  "resolve_part h cur part =
     (let obj = h cur;
          fallback =
            (if map_of (attrs obj) ''transformer_blocks'' \<noteq> None
                \<and> part = ''transformer_blocks''
             then Inr (map_of (attrs obj) ''transformer_blocks'')
             else Inr None);
          as_list =
            (case list_items obj of
               None \<Rightarrow> fallback
             | Some elems \<Rightarrow>
                 if isdigit part
                 then (case py_int part of
                         Inl e \<Rightarrow> Inl e
                       | Inr idx \<Rightarrow>
                           if idx < int (length elems)
                           then Inr (Some (elems ! nat idx))
                           else Inr None)
                 else fallback)
      in case map_of (attrs obj) part of
           Some a \<Rightarrow> Inr (Some a)
         | None \<Rightarrow>
             (case dict_items obj of
                None \<Rightarrow> as_list
              | Some items \<Rightarrow>
                  (case map_of items (StrKey part) of
                     Some a \<Rightarrow> Inr (Some a)
                   | None \<Rightarrow>
                       if isdigit part
                       then (case py_int part of
                               Inl e \<Rightarrow> Inl e
                             | Inr n \<Rightarrow>
                                 (case map_of items (IntKey n) of
                                    Some a \<Rightarrow> Inr (Some a)
                                  | None \<Rightarrow> as_list))
                       else as_list)))"

text \<open>The loop over \<^verbatim>\<open>parts\<close>, starting from \<^verbatim>\<open>curr = model\<close>.\<close>

fun resolve_path :: "heap \<Rightarrow> addr \<Rightarrow> string list \<Rightarrow> py_error + addr option" where
  "resolve_path h cur [] = Inr (Some cur)"
| "resolve_path h cur (part # parts) =
     (case resolve_part h cur part of
        Inl e \<Rightarrow> Inl e
      | Inr None \<Rightarrow> Inr None
      | Inr (Some nxt) \<Rightarrow> resolve_path h nxt parts)"

section \<open>Delta merge (\<open>apply_lora_weights\<close>, lines 159--213)\<close>

text \<open>
  Lines 195--203: \<^verbatim>\<open>scale\<close>, a Python float.  \<^verbatim>\<open>alpha.item()\<close> raises unless the
  array has one element; the division raises when \<^verbatim>\<open>rank\<close> is zero.
\<close>

definition lora_scale :: "tensor option \<Rightarrow> nat \<Rightarrow> py_error + fval" where
  "lora_scale alpha_opt rank =
     (case alpha_opt of
        None \<Rightarrow> Inr 1
      | Some a \<Rightarrow>
          (case tensor_item a of
             Inl e \<Rightarrow> Inl e
           | Inr x \<Rightarrow> if rank = 0 then Inl ZeroDivisionError else Inr (fdiv_int x rank)))"

text \<open>
  Lines 205--210: the new value of \<^verbatim>\<open>curr.weight\<close>.  \<^verbatim>\<open>strength\<close> is a Python
  float, and so is the product \<^verbatim>\<open>scale * strength\<close>.
\<close>

definition merged_weight ::
  "tensor \<Rightarrow> tensor \<Rightarrow> tensor \<Rightarrow> tensor option \<Rightarrow> fval \<Rightarrow> py_error + tensor" where
  "merged_weight w dn u alpha_opt strength =
     (let rank = nrows dn
      in case lora_scale alpha_opt rank of
           Inl e \<Rightarrow> Inl e
         | Inr scale \<Rightarrow>
             (case matmul u dn of
                Inl e \<Rightarrow> Inl e
              | Inr product \<Rightarrow>
                  let delta = scalar_mul product (fmul binary64 scale strength);
                      delta = (if dtype delta \<noteq> dtype w then astype delta (dtype w)
                               else delta)
                  in tensor_add w delta))"

text \<open>
  One iteration of the loop over \<^verbatim>\<open>lora_groups.items()\<close>: \<open>Skipped\<close> is
  \<^verbatim>\<open>continue\<close>, \<open>Applied\<close> an iteration that reaches \<^verbatim>\<open>applied_count += 1\<close>,
  \<open>Raised e\<close> an exception, which nothing in the function catches.
\<close>

datatype outcome = Skipped | Applied | Raised py_error

fun merge_group :: "heap \<Rightarrow> addr \<Rightarrow> fval \<Rightarrow> string \<times> tensor lora_group \<Rightarrow> heap \<times> outcome" where
  "merge_group h model strength (module_name, weights) =
     (case down weights of
        None \<Rightarrow> (h, Skipped)
      | Some dn \<Rightarrow>
          (case up weights of
             None \<Rightarrow> (h, Skipped)
           | Some u \<Rightarrow>
               (case resolve_path h model (split_dots module_name) of
                  Inl e \<Rightarrow> (h, Raised e)
                | Inr None \<Rightarrow> (h, Skipped)
                | Inr (Some cur) \<Rightarrow>
                    (case linear_weight (h cur) of
                       None \<Rightarrow> (h, Skipped)
                     | Some w \<Rightarrow>
                         (case merged_weight w dn u (alpha weights) strength of
                            Inl e \<Rightarrow> (h, Raised e)
                          | Inr w' \<Rightarrow>
                              (h(cur := (h cur)\<lparr>linear_weight := Some w'\<rparr>),
                               Applied))))))"

fun merge_loop ::
  "heap \<Rightarrow> addr \<Rightarrow> fval \<Rightarrow> (string \<times> tensor lora_group) list \<Rightarrow> nat
     \<Rightarrow> heap \<times> (py_error + nat)" where
  "merge_loop h model strength [] applied_count = (h, Inr applied_count)"
| "merge_loop h model strength (entry # entries) applied_count =
     (case merge_group h model strength entry of
        (h', Raised e) \<Rightarrow> (h', Inl e)
      | (h', Skipped) \<Rightarrow> merge_loop h' model strength entries applied_count
      | (h', Applied) \<Rightarrow> merge_loop h' model strength entries (applied_count + 1))"

text \<open>
  Lines 79--91: the file system answers \<^verbatim>\<open>os.path.exists\<close> and \<^verbatim>\<open>mx.load\<close>: a path
  names nothing, a file on which \<^verbatim>\<open>mx.load\<close> raises an \<^verbatim>\<open>Exception\<close>,
  or an archive.
\<close>

datatype lora_file = Unreadable | Archive "(string \<times> tensor) list"

text \<open>
  The whole function.  It returns the heap as it leaves it, and \<open>Inl e\<close> when it
  raises \<open>e\<close>, \<open>Inr None\<close> when it returns before grouping, \<open>Inr (Some n)\<close> when
  it reports \<open>n\<close> patched layers.
\<close>

definition apply_lora_weights ::
  "(string \<Rightarrow> lora_file option) \<Rightarrow> heap \<Rightarrow> addr \<Rightarrow> string \<Rightarrow> fval
     \<Rightarrow> heap \<times> (py_error + nat option)" where
  "apply_lora_weights fs h model lora_path strength =
     (case fs lora_path of
        None \<Rightarrow> (h, Inr None)
      | Some Unreadable \<Rightarrow> (h, Inr None)
      | Some (Archive lora_weights) \<Rightarrow>
          (case merge_loop h model strength (group_weights lora_weights) 0 of
             (h', Inl e) \<Rightarrow> (h', Inl e)
           | (h', Inr n) \<Rightarrow> (h', Inr (Some n))))"

text \<open>
  The delta as the specification describes it, entry by entry:
  \<^verbatim>\<open>(up @ down) * ((alpha / rank if alpha present else 1.0) * strength)\<close>, in the
  dtype of the product and converted to the dtype of the weight when the two
  differ, read under broadcasting.  It is compared below with what the merge
  adds.
\<close>

definition lora_delta_spec ::
  "dtype \<Rightarrow> tensor \<Rightarrow> tensor \<Rightarrow> tensor option \<Rightarrow> fval \<Rightarrow> nat \<Rightarrow> nat \<Rightarrow> fval" where
  "lora_delta_spec weight_dtype dn u alpha_opt strength i j =
     (let product_dtype = result_type (dtype u) (dtype dn);
          rank = nrows dn;
          scale = (case alpha_opt of
                     None \<Rightarrow> 1
                   | Some a \<Rightarrow> fdiv_int (cast binary64 (cell_at a 0 0)) rank);
          factor = scalar_of product_dtype (fmul binary64 scale strength);
          row = (if nrows u = 1 then 0 else i);
          col = (if ncols dn = 1 then 0 else j);
          product = cast (format_of product_dtype)
                      (dot (map (\<lambda>k. cell_at u row k) [0..<rank])
                           (map (\<lambda>k. cell_at dn k col) [0..<rank]));
          d = fmul (format_of product_dtype) product factor
      in if product_dtype \<noteq> weight_dtype then cast (format_of weight_dtype) d else d)"

text \<open>
  A sum that is not rounded: both terms and the result are finite and the
  result denotes the sum of what the terms denote.  \<open>twice x\<close> is \<open>2 * x\<close>,
  without rounding.
\<close>

definition exact_add :: "format \<Rightarrow> fval \<Rightarrow> fval \<Rightarrow> bool" where
  "exact_add fmt x y =
     (is_finite x \<and> is_finite y \<and> is_finite (fadd fmt x y) \<and>
      val (fadd fmt x y) = val x + val y)"

fun twice :: "fval \<Rightarrow> fval" where
  "twice (Fin q) = Fin (2 * q)"
| "twice x = x"

text \<open>
  Rounding commutes with doubling when the number to round is not below the
  smallest normal number of the format and its double does not overflow:
  \<open>doubles fmt x\<close> says so of the number \<open>x\<close> denotes.  \<open>delta_doubles\<close> says it
  of every number that is rounded while an entry of the delta is computed from
  \<^verbatim>\<open>up @ down\<close>: the product \<^verbatim>\<open>scale * strength\<close> of Python floats, its
  conversions to float32 and to the dtype of \<^verbatim>\<open>up @ down\<close>, the product with the
  entry of \<^verbatim>\<open>up @ down\<close>, and the conversion to the dtype of the weight.
\<close>

fun doubles :: "format \<Rightarrow> fval \<Rightarrow> bool" where
  "doubles fmt (Fin q) =
     (q = 0 \<or> (2 powi (1 - snd fmt) \<le> \<bar>q\<bar> \<and> is_finite (fround fmt (2 * q))))"
| "doubles fmt x = True"

definition delta_doubles ::
  "dtype \<Rightarrow> tensor \<Rightarrow> tensor \<Rightarrow> tensor option \<Rightarrow> fval \<Rightarrow> nat \<Rightarrow> nat \<Rightarrow> bool" where
  "delta_doubles weight_dtype dn u alpha_opt strength i j =
     (let product_dtype = result_type (dtype u) (dtype dn);
          rank = nrows dn;
          scale = (case alpha_opt of
                     None \<Rightarrow> 1
                   | Some a \<Rightarrow> fdiv_int (cast binary64 (cell_at a 0 0)) rank);
          factor64 = fmul binary64 scale strength;
          factor32 = cast binary32 factor64;
          factor = cast (format_of product_dtype) factor32;
          row = (if nrows u = 1 then 0 else i);
          col = (if ncols dn = 1 then 0 else j);
          product = cast (format_of product_dtype)
                      (dot (map (\<lambda>k. cell_at u row k) [0..<rank])
                           (map (\<lambda>k. cell_at dn k col) [0..<rank]));
          d = fmul (format_of product_dtype) product factor
      in doubles binary64 (Fin (val scale * val strength)) \<and>
         doubles binary32 factor64 \<and>
         doubles (format_of product_dtype) factor32 \<and>
         doubles (format_of product_dtype) (Fin (val product * val factor)) \<and>
         (product_dtype = weight_dtype \<or> doubles (format_of weight_dtype) d))"

text \<open>
  An adapter entry is safe at strength 0 when, in case it reaches a linear
  layer: the weight is an array of its shape and dtype with no entry \<open>-0.0\<close>;
  the sum \<^verbatim>\<open>curr.weight + delta\<close> has the shape of the weight (\<^verbatim>\<open>up\<close> has as many
  rows as the weight or one row, \<^verbatim>\<open>down\<close> as many columns as the weight or one
  column); and \<^verbatim>\<open>scale\<close> and the entries of \<^verbatim>\<open>up @ down\<close>, where they are
  computed, are finite.
\<close>

definition zero_safe :: "heap \<Rightarrow> addr \<Rightarrow> string \<times> tensor lora_group \<Rightarrow> bool" where
  "zero_safe h model entry =
     (case down (snd entry) of
        None \<Rightarrow> True
      | Some dn \<Rightarrow>
          (case up (snd entry) of
             None \<Rightarrow> True
           | Some u \<Rightarrow>
               (case resolve_path h model (split_dots (fst entry)) of
                  Inl e \<Rightarrow> True
                | Inr None \<Rightarrow> True
                | Inr (Some cur) \<Rightarrow>
                    (case linear_weight (h cur) of
                       None \<Rightarrow> True
                     | Some w \<Rightarrow>
                         well_formed w \<and>
                         list_all (list_all (\<lambda>x. x \<noteq> NegZero)) (cells w) \<and>
                         (nrows u = nrows w \<or> nrows u = 1) \<and>
                         (ncols dn = ncols w \<or> ncols dn = 1) \<and>
                         (case lora_scale (alpha (snd entry)) (nrows dn) of
                            Inl e \<Rightarrow> True
                          | Inr scale \<Rightarrow> is_finite scale) \<and>
                         (case matmul u dn of
                            Inl e \<Rightarrow> True
                          | Inr product \<Rightarrow>
                              list_all (list_all is_finite) (cells product))))))"

text \<open>
  Two heaps with the same graph: the merge assigns weights and nothing else, so
  the heap it leaves has the graph of the heap it found.
\<close>

definition same_structure :: "heap \<Rightarrow> heap \<Rightarrow> bool" where
  "same_structure h h' =
     (\<forall>a. attrs (h' a) = attrs (h a) \<and> dict_items (h' a) = dict_items (h a) \<and>
          list_items (h' a) = list_items (h a) \<and>
          (linear_weight (h' a) = None) = (linear_weight (h a) = None))"

section \<open>Example inputs\<close>

text \<open>
  A float32 tensor from its rows, given by the numbers the entries denote, and
  an object that has nothing the resolver asks for.
\<close>

definition f32 :: "real list list \<Rightarrow> tensor" where
  "f32 rs = \<lparr>dtype = Float32, nrows = length rs,
             ncols = (case rs of [] \<Rightarrow> 0 | r # _ \<Rightarrow> length r), cells = map (map Fin) rs\<rparr>"

definition plain_object :: pyobj where
  "plain_object = \<lparr>attrs = [], dict_items = None, list_items = None, linear_weight = None\<rparr>"

text \<open>
  A model whose attribute \<^verbatim>\<open>transformer_blocks\<close> is a list with one block; the
  block is a module (a dict, as the modules of the array library are) with one
  linear layer \<^verbatim>\<open>to_q\<close> holding a \<open>2 \<times> 2\<close> weight.  Of the attributes and
  items of each object only those that the paths used below ask for are listed.
\<close>

definition example_model :: heap where
  "example_model =
     (\<lambda>a. plain_object)
       (0 := \<lparr>attrs = [(''transformer_blocks'', 1)],
               dict_items = Some [(StrKey ''transformer_blocks'', 1)],
               list_items = None, linear_weight = None\<rparr>,
        1 := \<lparr>attrs = [], dict_items = None, list_items = Some [2], linear_weight = None\<rparr>,
        2 := \<lparr>attrs = [(''to_q'', 3)], dict_items = Some [(StrKey ''to_q'', 3)],
               list_items = None, linear_weight = None\<rparr>,
        3 := \<lparr>attrs = [], dict_items = Some [], list_items = None,
               linear_weight = Some (f32 [[1, 0], [0, 1]])\<rparr>)"

text \<open>A rank-1 adapter for \<^verbatim>\<open>transformer_blocks.0.to_q\<close>.\<close>

definition example_group :: "tensor lora_group" where
  "example_group = \<lparr>down = Some (f32 [[1, 2]]), up = Some (f32 [[1], [3]]), alpha = None\<rparr>"

definition example_archive :: "(string \<times> tensor) list" where
  "example_archive =
     [(''transformer_blocks.0.to_q.lora_A.weight'', f32 [[1, 2]]),
      (''transformer_blocks.0.to_q.lora_B.weight'', f32 [[1], [3]])]"

text \<open>
  The same archive preceded by an adapter pair whose block index is the
  superscript digit U+00B2.
\<close>

definition superscript_archive :: "(string \<times> tensor) list" where
  "superscript_archive =
     [(''transformer_blocks.'' @ [CHR 0xB2] @ ''.to_q.lora_A.weight'', f32 [[1, 2]]),
      (''transformer_blocks.'' @ [CHR 0xB2] @ ''.to_q.lora_B.weight'', f32 [[1], [3]])]
     @ example_archive"

text \<open>
  A model with one linear layer, the attribute \<^verbatim>\<open>name\<close> of the root, that holds
  the weight \<open>w\<close>; an archive with an adapter pair for the module a key spells;
  the file system that holds an archive under \<^verbatim>\<open>lora.safetensors\<close>.
\<close>

definition layer_model :: "string \<Rightarrow> tensor \<Rightarrow> heap" where
  "layer_model name w =
     (\<lambda>a. plain_object)
       (0 := \<lparr>attrs = [(name, 1)], dict_items = Some [(StrKey name, 1)],
               list_items = None, linear_weight = None\<rparr>,
        1 := \<lparr>attrs = [], dict_items = Some [], list_items = None,
               linear_weight = Some w\<rparr>)"

definition pair_archive :: "string \<Rightarrow> tensor \<Rightarrow> tensor \<Rightarrow> (string \<times> tensor) list" where
  "pair_archive key dn u = [(key @ ''.lora_A.weight'', dn), (key @ ''.lora_B.weight'', u)]"

definition file_of :: "(string \<times> tensor) list \<Rightarrow> string \<Rightarrow> lora_file option" where
  "file_of lw p = (if p = ''lora.safetensors'' then Some (Archive lw) else None)"

text \<open>File systems that hold one of the first two archives, or a file that cannot be loaded.\<close>

definition example_files :: "string \<Rightarrow> lora_file option" where
  "example_files p = (if p = ''lora.safetensors'' then Some (Archive example_archive) else None)"

definition superscript_files :: "string \<Rightarrow> lora_file option" where
  "superscript_files p =
     (if p = ''lora.safetensors'' then Some (Archive superscript_archive) else None)"


section \<open>The request loop of the server (\<open>ltx_server.py\<close>, \<open>main\<close>)\<close>

text \<open>
  A request is whatever \<^verbatim>\<open>json.loads\<close> returns.  An exception is an instance of a
  subclass of \<^verbatim>\<open>Exception\<close>, known by its \<^verbatim>\<open>str\<close>, or one of the two exceptions
  outside \<^verbatim>\<open>Exception\<close> (\<^verbatim>\<open>KeyboardInterrupt\<close>, \<^verbatim>\<open>SystemExit\<close>).
\<close>

datatype json =
    JNull | JBool bool | JInt int | JFloat rat | JStr string
  | JArr "json list" | JObj "(string \<times> json) list"

datatype exc = Exception string | KeyboardInterrupt | SystemExit

text \<open>Truth value of a parsed value, as \<^verbatim>\<open>if params.get(...)\<close> tests it.\<close>

fun truthy :: "json \<Rightarrow> bool" where
  "truthy JNull = False"
| "truthy (JBool b) = b"
| "truthy (JInt n) = (n \<noteq> 0)"
| "truthy (JFloat x) = (x \<noteq> 0)"
| "truthy (JStr s) = (s \<noteq> [])"
| "truthy (JArr xs) = (xs \<noteq> [])"
| "truthy (JObj kv) = (kv \<noteq> [])"

fun type_name :: "json \<Rightarrow> string" where
  "type_name JNull = ''NoneType''"
| "type_name (JBool b) = ''bool''"
| "type_name (JInt n) = ''int''"
| "type_name (JFloat x) = ''float''"
| "type_name (JStr s) = ''str''"
| "type_name (JArr xs) = ''list''"
| "type_name (JObj kv) = ''dict''"

text \<open>\<^verbatim>\<open>d.get(k, default)\<close> on the items of a dict.\<close>

definition get_or :: "(string \<times> json) list \<Rightarrow> string \<Rightarrow> json \<Rightarrow> json" where
  "get_or kv k dflt = (case map_of kv k of None \<Rightarrow> dflt | Some v \<Rightarrow> v)"

text \<open>
  Lines 85--122: the keyword arguments.  The first \<^verbatim>\<open>params.get\<close> raises
  AttributeError when \<^verbatim>\<open>params\<close> is not a dict; on a dict no line raises.
\<close>

definition build_kwargs :: "json \<Rightarrow> exc + (string \<times> json) list" where
  "build_kwargs params =
     (case params of
        JObj kv \<Rightarrow>
          Inr ([(''prompt'', get_or kv ''prompt'' JNull),
                (''height'', get_or kv ''height'' (JInt 512)),
                (''width'', get_or kv ''width'' (JInt 512)),
                (''num_frames'', get_or kv ''num_frames'' (JInt 65)),
                (''seed'', get_or kv ''seed'' (JInt 42)),
                (''fps'', get_or kv ''fps'' (JInt 24)),
                (''output_path'', get_or kv ''output_path'' (JStr ''output.mp4'')),
                (''model_repo'', get_or kv ''model_repo'' (JStr ''notapalindrome/ltx2-mlx-av''))]
               @ (if truthy (get_or kv ''image'' JNull)
                  then [(''image'', get_or kv ''image'' JNull),
                        (''image_strength'', get_or kv ''image_strength'' (JFloat 1)),
                        (''image_frame_idx'', get_or kv ''image_frame_idx'' (JInt 0))]
                  else [])
               @ (if truthy (get_or kv ''tiling'' JNull)
                     \<and> get_or kv ''tiling'' JNull \<noteq> JStr ''auto''
                  then [(''tiling'', get_or kv ''tiling'' JNull)] else [])
               @ (if truthy (get_or kv ''no_audio'' JNull)
                  then [(''no_audio'', JBool True)] else [])
               @ (if truthy (get_or kv ''save_audio_separately'' JNull)
                  then [(''save_audio_separately'', JBool True)] else [])
               @ (if truthy (get_or kv ''repetition_penalty'' JNull)
                  then [(''repetition_penalty'', get_or kv ''repetition_penalty'' JNull)]
                  else [])
               @ (if truthy (get_or kv ''top_p'' JNull)
                  then [(''top_p'', get_or kv ''top_p'' JNull)] else [])
               @ (if truthy (get_or kv ''enhance_prompt'' JNull)
                  then [(''enhance_prompt'', JBool True)] else [])
               @ (if truthy (get_or kv ''use_uncensored_enhancer'' JNull)
                  then [(''use_uncensored_enhancer'', JBool True)] else [])
               @ (if truthy (get_or kv ''temperature'' JNull)
                  then [(''temperature'', get_or kv ''temperature'' JNull)] else []))
      | other \<Rightarrow>
          Inl (Exception ([CHR 0x27] @ type_name other @ [CHR 0x27]
                 @ '' object has no attribute '' @ [CHR 0x27] @ ''get'' @ [CHR 0x27])))"

text \<open>Lines 128--134 and 137--140: the two results.\<close>

definition success_result :: "(string \<times> json) list \<Rightarrow> json" where
  "success_result kwargs =
     JObj [(''success'', JBool True),
           (''video_path'', get_or kwargs ''output_path'' JNull),
           (''seed'', get_or kwargs ''seed'' JNull),
           (''mode'', JStr (if truthy (get_or kwargs ''image'' JNull) then ''i2v'' else ''t2v'')),
           (''has_audio'', JBool (\<not> truthy (get_or kwargs ''no_audio'' (JBool False))))]"

definition failure_result :: "string \<Rightarrow> json" where
  "failure_result msg = JObj [(''success'', JBool False), (''error'', JStr msg)]"

text \<open>
  What reaches the two streams.  File descriptor 1 is the original standard
  output unless \<^verbatim>\<open>os.dup2(2, 1)\<close> has pointed it at standard error; \<^verbatim>\<open>print\<close>
  writes to wherever it points.
\<close>

datatype out_line = JsonLine json | TextLine string | Traceback exc

record server_state =
  stdout_lines :: "out_line list"
  stderr_lines :: "out_line list"
  fd1_to_stderr :: bool

definition print_stdout :: "out_line \<Rightarrow> server_state \<Rightarrow> server_state" where
  "print_stdout l st =
     (if fd1_to_stderr st then st\<lparr>stderr_lines := stderr_lines st @ [l]\<rparr>
      else st\<lparr>stdout_lines := stdout_lines st @ [l]\<rparr>)"

definition log_err :: "string \<Rightarrow> server_state \<Rightarrow> server_state" where
  "log_err msg st = st\<lparr>stderr_lines := stderr_lines st @ [TextLine msg]\<rparr>"

text \<open>
  \<^verbatim>\<open>generate_av\<close> belongs to the video library: it is a parameter of the model,
  giving for the keyword arguments the lines the library prints to standard
  output and whether the call returns or raises.
\<close>

datatype generation = Completes | Raises exc

type_synonym generator = "(string \<times> json) list \<Rightarrow> string list \<times> generation"

text \<open>
  A line read from standard input, by what \<^verbatim>\<open>strip\<close> and \<^verbatim>\<open>json.loads\<close> make of
  it; the end of the input is the end of the list of lines.
\<close>

datatype input_line = Blank | Malformed | Parsed json

datatype control = Continue | Break | Exit

text \<open>
  Lines 73--148, the branch \<^verbatim>\<open>cmd == "generate"\<close>.  \<open>attempt_of\<close> is the \<^verbatim>\<open>try\<close>
  block: what the library printed, and the result or the exception that left
  the block.  The descriptor saved by
  \<^verbatim>\<open>os.dup(1)\<close> is restored in the \<^verbatim>\<open>finally\<close> clause; an exception outside
  \<^verbatim>\<open>Exception\<close> passes the \<^verbatim>\<open>except\<close> clause and leaves the loop body after it.
\<close>

definition attempt_of :: "generator \<Rightarrow> json \<Rightarrow> string list \<times> (exc + json)" where
  "attempt_of gen params =
     (case build_kwargs params of
        Inl e \<Rightarrow> ([], Inl e)
      | Inr kwargs \<Rightarrow>
          (case gen kwargs of
             (printed, Completes) \<Rightarrow> (printed, Inr (success_result kwargs))
           | (printed, Raises e) \<Rightarrow> (printed, Inl e)))"

definition handle_generate ::
  "generator \<Rightarrow> server_state \<Rightarrow> json \<Rightarrow> server_state \<times> control" where
  "handle_generate gen st0 params =
     (let saved = fd1_to_stderr st0;
          st = st0\<lparr>fd1_to_stderr := True\<rparr>;
          attempt = attempt_of gen params;
          st = foldl (\<lambda>s l. print_stdout (TextLine l) s) st (fst attempt)
      in case snd attempt of
           Inr result \<Rightarrow>
             (print_stdout (JsonLine result) (st\<lparr>fd1_to_stderr := saved\<rparr>), Continue)
         | Inl (Exception msg) \<Rightarrow>
             (let st = st\<lparr>stderr_lines := stderr_lines st @ [Traceback (Exception msg)]\<rparr>
              in (print_stdout (JsonLine (failure_result msg))
                    (st\<lparr>fd1_to_stderr := saved\<rparr>), Continue))
         | Inl KeyboardInterrupt \<Rightarrow> (st\<lparr>fd1_to_stderr := saved\<rparr>, Break)
         | Inl SystemExit \<Rightarrow> (st\<lparr>fd1_to_stderr := saved\<rparr>, Exit))"

text \<open>Lines 53--154: one iteration of \<^verbatim>\<open>while True\<close> for a line that was read.\<close>

definition handle_line ::
  "generator \<Rightarrow> server_state \<Rightarrow> input_line \<Rightarrow> server_state \<times> control" where
  "handle_line gen st line =
     (case line of
        Blank \<Rightarrow> (st, Continue)
      | Malformed \<Rightarrow> (log_err ''ERROR:Invalid JSON received'' st, Continue)
      | Parsed request \<Rightarrow>
          (case request of
             JObj kv \<Rightarrow>
               let cmd = get_or kv ''command'' JNull
               in if cmd = JStr ''ping''
                  then (print_stdout (JsonLine (JObj [(''status'', JStr ''pong'')])) st,
                        Continue)
                  else if cmd = JStr ''generate''
                  then handle_generate gen st (get_or kv ''params'' (JObj []))
                  else (st, Continue)
           | other \<Rightarrow>
               (log_err (''ERROR:Server loop error: '' @ [CHR 0x27] @ type_name other
                          @ [CHR 0x27] @ '' object has no attribute '' @ [CHR 0x27]
                          @ ''get'' @ [CHR 0x27]) st,
                Break)))"

text \<open>The loop: it ends at the end of the input, at a \<^verbatim>\<open>break\<close>, or when the process exits.\<close>

fun server_loop ::
  "generator \<Rightarrow> server_state \<Rightarrow> input_line list \<Rightarrow> server_state \<times> control" where
  "server_loop gen st [] = (st, Break)"
| "server_loop gen st (line # rest) =
     (case handle_line gen st line of
        (st', Continue) \<Rightarrow> server_loop gen st' rest
      | (st', Break) \<Rightarrow> (st', Break)
      | (st', Exit) \<Rightarrow> (st', Exit))"

text \<open>Example generators and the state in which the loop starts.\<close>

definition initial_state :: server_state where
  "initial_state = \<lparr>stdout_lines = [], stderr_lines = [], fd1_to_stderr = False\<rparr>"

definition chatty_generator :: generator where
  "chatty_generator kwargs =
     (if get_or kwargs ''prompt'' JNull = JStr ''fail''
      then ([''loading''], Raises (Exception ''shape mismatch''))
      else ([''loading'', ''done''], Completes))"

definition interrupted_generator :: generator where
  "interrupted_generator kwargs = ([''loading''], Raises KeyboardInterrupt)"

definition exiting_generator :: generator where
  "exiting_generator kwargs = ([], Raises SystemExit)"

definition generate_request :: "string \<Rightarrow> input_line" where
  "generate_request prompt =
     Parsed (JObj [(''command'', JStr ''generate''),
                   (''params'', JObj [(''prompt'', JStr prompt), (''seed'', JInt 7)])])"

section \<open>The generation up to the transformer configuration
  (\<open>generate_video_with_audio_lora\<close>, lines 216--386)\<close>

text \<open>
  A name that a function reads without ever assigning it is looked up among
  the globals of its module and then among the builtins; a name found in
  neither raises NameError.  \<open>module_globals\<close> lists the names that the module
  binds: its imports (lines 7--63), its five functions, and the names every
  module has.  \<open>builtin_names\<close> lists the names of the module \<^verbatim>\<open>builtins\<close>
  (CPython 3.11).
\<close>

definition module_globals :: "string list" where
  "module_globals =
     [''sys'', ''os'', ''argparse'', ''json'', ''time'', ''Path'', ''Optional'',
      ''Dict'', ''mx'', ''nn'', ''np'', ''LTXModelConfig'', ''LTXModelType'',
      ''LTXRopeType'', ''LTXModel'', ''Modality'', ''sanitize_transformer_weights'',
      ''sanitize_audio_vae_weights'', ''sanitize_vocoder_weights'', ''to_denoised'',
      ''get_model_path'', ''load_image'', ''prepare_image_for_encoding'',
      ''load_vae_decoder'', ''load_vae_encoder'', ''TilingConfig'', ''load_upsampler'',
      ''upsample_latents'', ''VideoConditionByLatentIndex'', ''apply_conditioning'',
      ''LatentState'', ''apply_denoise_mask'', ''STAGE_1_SIGMAS'', ''STAGE_2_SIGMAS'',
      ''DEFAULT_HF_MODEL'', ''DEFAULT_UNIFIED_TEXT_ENCODER'', ''is_unified_mlx_model'',
      ''load_unified_weights'', ''AUDIO_SAMPLE_RATE'', ''AUDIO_LATENT_SAMPLE_RATE'',
      ''AUDIO_MEL_BINS'', ''AUDIO_LATENTS_PER_SECOND'', ''create_video_position_grid'',
      ''create_audio_position_grid'', ''compute_audio_frames'', ''denoise_av'',
      ''load_audio_decoder'', ''load_vocoder'', ''save_audio'', ''mux_video_audio'',
      ''Colors'', ''status_output'', ''progress_output'', ''apply_lora_weights'',
      ''generate_video_with_audio_lora'', ''main'', ''__name__'', ''__doc__'',
      ''__package__'', ''__loader__'', ''__spec__'', ''__file__'', ''__cached__'',
      ''__builtins__'']"

definition builtin_names :: "string list" where
  "builtin_names =
     [''ArithmeticError'', ''AssertionError'', ''AttributeError'', ''BaseException'',
      ''BaseExceptionGroup'', ''BlockingIOError'', ''BrokenPipeError'',
      ''BufferError'', ''BytesWarning'', ''ChildProcessError'',
      ''ConnectionAbortedError'', ''ConnectionError'', ''ConnectionRefusedError'',
      ''ConnectionResetError'', ''DeprecationWarning'', ''EOFError'', ''Ellipsis'',
      ''EncodingWarning'', ''EnvironmentError'', ''Exception'', ''ExceptionGroup'',
      ''False'', ''FileExistsError'', ''FileNotFoundError'', ''FloatingPointError'',
      ''FutureWarning'', ''GeneratorExit'', ''IOError'', ''ImportError'',
      ''ImportWarning'', ''IndentationError'', ''IndexError'', ''InterruptedError'',
      ''IsADirectoryError'', ''KeyError'', ''KeyboardInterrupt'', ''LookupError'',
      ''MemoryError'', ''ModuleNotFoundError'', ''NameError'', ''None'',
      ''NotADirectoryError'', ''NotImplemented'', ''NotImplementedError'', ''OSError'',
      ''OverflowError'', ''PendingDeprecationWarning'', ''PermissionError'',
      ''ProcessLookupError'', ''RecursionError'', ''ReferenceError'',
      ''ResourceWarning'', ''RuntimeError'', ''RuntimeWarning'',
      ''StopAsyncIteration'', ''StopIteration'', ''SyntaxError'', ''SyntaxWarning'',
      ''SystemError'', ''SystemExit'', ''TabError'', ''TimeoutError'', ''True'',
      ''TypeError'', ''UnboundLocalError'', ''UnicodeDecodeError'',
      ''UnicodeEncodeError'', ''UnicodeError'', ''UnicodeTranslateError'',
      ''UnicodeWarning'', ''UserWarning'', ''ValueError'', ''Warning'',
      ''ZeroDivisionError'', ''__build_class__'', ''__debug__'', ''__doc__'',
      ''__import__'', ''__loader__'', ''__name__'', ''__package__'', ''__spec__'',
      ''abs'', ''aiter'', ''all'', ''anext'', ''any'', ''ascii'', ''bin'', ''bool'',
      ''breakpoint'', ''bytearray'', ''bytes'', ''callable'', ''chr'', ''classmethod'',
      ''compile'', ''complex'', ''copyright'', ''credits'', ''delattr'', ''dict'',
      ''dir'', ''divmod'', ''enumerate'', ''eval'', ''exec'', ''exit'', ''filter'',
      ''float'', ''format'', ''frozenset'', ''getattr'', ''globals'', ''hasattr'',
      ''hash'', ''help'', ''hex'', ''id'', ''input'', ''int'', ''isinstance'',
      ''issubclass'', ''iter'', ''len'', ''license'', ''list'', ''locals'', ''map'',
      ''max'', ''memoryview'', ''min'', ''next'', ''object'', ''oct'', ''open'',
      ''ord'', ''pow'', ''print'', ''property'', ''quit'', ''range'', ''repr'',
      ''reversed'', ''round'', ''set'', ''setattr'', ''slice'', ''sorted'',
      ''staticmethod'', ''str'', ''sum'', ''super'', ''tuple'', ''type'', ''vars'',
      ''zip'']"

definition load_global :: "string \<Rightarrow> py_error + unit" where
  "load_global name =
     (if name \<in> set module_globals \<or> name \<in> set builtin_names then Inr ()
      else Inl NameError)"

text \<open>
  The body of \<^verbatim>\<open>generate_video_with_audio_lora\<close>, in the order of its lines:
  \<^item> lines 243--244: the two assertions on \<^verbatim>\<open>height\<close> and \<^verbatim>\<open>width\<close> (the
    interpreter runs without \<^verbatim>\<open>-O\<close>, so they are executed);
  \<^item> lines 246--251: the adjustment of \<^verbatim>\<open>num_frames\<close>;
  \<^item> lines 253--366: calls into the libraries (model paths, the text encoder,
    the prompt enhancer, the weights of the transformer); they are the
    parameter \<open>before_config\<close>, which for the adjusted frame count raises or
    returns what the rest of the body uses;
  \<^item> lines 368--386: the call \<^verbatim>\<open>LTXModelConfig(...)\<close>, whose argument in line 380
    is \<^verbatim>\<open>AUDIO_LATENT_CHANNELS * AUDIO_MEL_BINS\<close>; the left operand is read
    first;
  \<^item> lines 388--712: the rest (loading the transformer, the LoRA merge, stage 1,
    the stage transition of lines 530--584, stage 2, decoding); it is the
    parameter \<open>after_config\<close>.
  The function does not assign \<^verbatim>\<open>AUDIO_LATENT_CHANNELS\<close> anywhere, so the name is a
  global of the module.  The result is \<open>Inl e\<close> when the call raises \<open>e\<close>.
\<close>

definition generate_video_with_audio_lora ::
  "(int \<Rightarrow> py_error + 'env) \<Rightarrow> ('env \<Rightarrow> py_error + 'out) \<Rightarrow> int \<Rightarrow> int \<Rightarrow> int
     \<Rightarrow> py_error + 'out" where
  "generate_video_with_audio_lora before_config after_config height width num_frames =
     (if height mod 64 \<noteq> 0 then Inl AssertionError
      else if width mod 64 \<noteq> 0 then Inl AssertionError
      else
        (case adjust_num_frames num_frames of
           Inl e \<Rightarrow> Inl e
         | Inr num_frames \<Rightarrow>
             (case before_config num_frames of
                Inl e \<Rightarrow> Inl e
              | Inr env \<Rightarrow>
                  (case load_global ''AUDIO_LATENT_CHANNELS'' of
                     Inl e \<Rightarrow> Inl e
                   | Inr u \<Rightarrow> after_config env))))"

section \<open>Properties of the frame-count adjustment\<close>

lemma bit_length_le: "\<bar>m\<bar> < 2 ^ k \<Longrightarrow> bit_length m \<le> k"
proof (induction k arbitrary: m)
  case 0
  then show ?case by (simp add: bit_length.simps)
next
  case (Suc k)
  show ?case
  proof (cases "m = 0")
    case True
    then show ?thesis by (simp add: bit_length.simps)
  next
    case False
    from Suc.prems have "\<bar>\<bar>m\<bar> div 2\<bar> < 2 ^ k" by simp
    then have "bit_length (\<bar>m\<bar> div 2) \<le> k" by (rule Suc.IH)
    with False show ?thesis by (subst bit_length.simps) simp
  qed
qed

lemma bit_length_ge: "2 ^ k \<le> \<bar>m\<bar> \<Longrightarrow> Suc k \<le> bit_length m"
proof (induction k arbitrary: m)
  case 0
  then have "m \<noteq> 0" by auto
  then show ?case by (subst bit_length.simps) simp
next
  case (Suc k)
  then have nz: "m \<noteq> 0" by auto
  from Suc.prems have "2 ^ k \<le> \<bar>\<bar>m\<bar> div 2\<bar>" by simp
  then have "Suc k \<le> bit_length (\<bar>m\<bar> div 2)" by (rule Suc.IH)
  with nz show ?case by (subst bit_length.simps) simp
qed

lemma bit_length_eq:
  "2 ^ k \<le> \<bar>m\<bar> \<Longrightarrow> \<bar>m\<bar> < 2 ^ Suc k \<Longrightarrow> bit_length m = Suc k"
  using bit_length_le [of m "Suc k"] bit_length_ge [of k m] by simp

lemma float53_exact: "\<bar>m\<bar> < 2 ^ 53 \<Longrightarrow> float53 m = m"
proof -
  assume "\<bar>m\<bar> < 2 ^ 53"
  then have "bit_length m \<le> 53" by (rule bit_length_le)
  then have "bit_length m - 53 = 0" by simp
  then show ?thesis by (simp add: float53_def round_half_even_div_def)
qed

lemma py_round_eighths: "py_round (of_int m / 8) = round_half_even_div m 8"
proof -
  have f: "\<lfloor>(of_int m / 8 :: rat)\<rfloor> = m div 8"
    using floor_divide_of_int_eq [of m 8, where ?'a = rat] by simp
  have d: "(of_int m / 8 :: rat) - of_int (m div 8) = of_int (m mod 8) / 8"
  proof -
    have "m = 8 * (m div 8) + m mod 8" by simp
    then have "(of_int m :: rat) = 8 * of_int (m div 8) + of_int (m mod 8)"
      by (metis of_int_add of_int_mult of_int_numeral)
    then show ?thesis by (simp add: field_simps)
  qed
  have lt: "(of_int (m mod 8) / 8 < (1 / 2 :: rat)) = (2 * (m mod 8) < 8)"
  proof -
    have "(of_int (m mod 8) / 8 < (1 / 2 :: rat)) = ((of_int (m mod 8) :: rat) < of_int 4)"
      by (simp add: field_simps)
    also have "\<dots> = (m mod 8 < 4)" by (simp only: of_int_less_iff)
    finally show ?thesis by simp
  qed
  have gt: "((1 / 2 :: rat) < of_int (m mod 8) / 8) = (8 < 2 * (m mod 8))"
  proof -
    have "((1 / 2 :: rat) < of_int (m mod 8) / 8) = ((of_int 4 :: rat) < of_int (m mod 8))"
      by (simp add: field_simps)
    also have "\<dots> = (4 < m mod 8)" by (simp only: of_int_less_iff)
    finally show ?thesis by simp
  qed
  show ?thesis
    unfolding py_round_def round_half_even_div_def Let_def f d lt gt by simp
qed

lemma nearest8: "\<bar>8 * round_half_even_div m 8 - m\<bar> \<le> \<bar>8 * j - m\<bar>"
proof -
  define q where "q = m div 8"
  define r where "r = m mod 8"
  have m: "m = 8 * q + r" and r: "0 \<le> r" "r < 8"
    by (simp_all add: q_def r_def)
  have rd: "round_half_even_div m 8 =
          (if 2 * r < 8 then q else if 8 < 2 * r then q + 1 else if even q then q else q + 1)"
    by (simp add: round_half_even_div_def Let_def q_def r_def)
  consider "j \<le> q - 1" | "j = q" | "j = q + 1" | "q + 2 \<le> j" by linarith
  then show ?thesis
  proof cases
    case 1 then show ?thesis unfolding rd using m r by (simp split: if_splits)
  next
    case 2 then show ?thesis unfolding rd using m r by (simp split: if_splits)
  next
    case 3 then show ?thesis unfolding rd using m r by (simp split: if_splits)
  next
    case 4 then show ?thesis unfolding rd using m r by (simp split: if_splits)
  qed
qed

lemma adjust_num_frames_exact:
  assumes b: "\<bar>n - 1\<bar> < 2 ^ 53"
  shows "adjust_num_frames n =
           Inr (if n mod 8 \<noteq> 1 then round_half_even_div (n - 1) 8 * 8 + 1 else n)"
proof (cases "n mod 8 = 1")
  case True
  then show ?thesis by (simp add: adjust_num_frames_def)
next
  case False
  have f: "float53 (n - 1) = n - 1" using b by (rule float53_exact)
  have small: "\<not> 2 ^ 1027 \<le> \<bar>n - 1\<bar>"
  proof -
    have "(2::int) ^ 53 \<le> 2 ^ 1027" by (rule power_increasing) simp_all
    with b show ?thesis by linarith
  qed
  have t: "truediv8 (n - 1) = Inr (of_int (n - 1) / 8)"
    unfolding truediv8_def f using small by simp
  show ?thesis
    unfolding adjust_num_frames_def t using False
    by (simp only: if_True sum.case py_round_eighths simp_thms)
qed

section \<open>Properties of the string operations\<close>

lemma str_contains_iff: "str_contains sub s \<longleftrightarrow> (\<exists>pre post. s = pre @ sub @ post)"
proof (induction s)
  case Nil
  then show ?case by auto
next
  case (Cons c cs)
  show ?case
  proof
    assume "str_contains sub (c # cs)"
    then consider "prefix sub (c # cs)" | "str_contains sub cs" by auto
    then show "\<exists>pre post. c # cs = pre @ sub @ post"
    proof cases
      case 1
      then obtain post where "c # cs = sub @ post" by (auto simp: prefix_def)
      then have "c # cs = [] @ sub @ post" by simp
      then show ?thesis by blast
    next
      case 2
      with Cons.IH obtain pre post where "cs = pre @ sub @ post" by blast
      then have "c # cs = (c # pre) @ sub @ post" by simp
      then show ?thesis by blast
    qed
  next
    assume "\<exists>pre post. c # cs = pre @ sub @ post"
    then obtain pre post where e: "c # cs = pre @ sub @ post" by blast
    show "str_contains sub (c # cs)"
    proof (cases pre)
      case Nil
      with e have "prefix sub (c # cs)" by (simp add: prefix_def)
      then show ?thesis by simp
    next
      case (Cons a pre')
      with e have "cs = pre' @ sub @ post" by simp
      with Cons.IH have "str_contains sub cs" by blast
      then show ?thesis by simp
    qed
  qed
qed

lemma str_contains_embedded:
  "str_contains sub s \<Longrightarrow> str_contains sub (pre @ s @ post)"
proof -
  assume "str_contains sub s"
  then obtain a b where "s = a @ sub @ b" unfolding str_contains_iff by blast
  then have "pre @ s @ post = (pre @ a) @ sub @ (b @ post)" by simp
  then show ?thesis unfolding str_contains_iff by blast
qed

lemma str_contains_longer:
  "str_contains (a @ sub @ b) s \<Longrightarrow> str_contains sub s"
proof -
  assume "str_contains (a @ sub @ b) s"
  then obtain pre post where "s = pre @ (a @ sub @ b) @ post"
    unfolding str_contains_iff by blast
  then have "s = (pre @ a) @ sub @ (b @ post)" by simp
  then show ?thesis unfolding str_contains_iff by blast
qed

text \<open>
  A pattern whose tail does not contain the character \<open>c\<close> cannot begin before a
  \<open>c\<close> and run across it.
\<close>

lemma prefix_across:
  assumes "prefix (x # xs) (u @ c # b)" and "c \<notin> set xs" and "u \<noteq> []"
  shows "prefix (x # xs) u"
proof -
  from assms(1) have "prefix (x # xs) u \<or> (\<exists>us. x # xs = u @ us \<and> prefix us (c # b))"
    by (simp add: prefix_append)
  then show ?thesis
  proof
    assume "prefix (x # xs) u"
    then show ?thesis .
  next
    assume "\<exists>us. x # xs = u @ us \<and> prefix us (c # b)"
    then obtain us where us: "x # xs = u @ us" "prefix us (c # b)" by blast
    show ?thesis
    proof (cases us)
      case Nil
      with us(1) show ?thesis by simp
    next
      case (Cons d ds)
      with us(2) have "d = c" by simp
      from assms(3) obtain a u' where "u = a # u'" by (cases u) auto
      with us(1) Cons have "xs = u' @ d # ds" by simp
      with \<open>d = c\<close> assms(2) show ?thesis by simp
    qed
  qed
qed

lemma str_contains_across:
  assumes "c \<notin> set xs"
  shows "str_contains (x # xs) (m @ c # b) \<longleftrightarrow>
           str_contains (x # xs) m \<or> str_contains (x # xs) (c # b)"
proof (induction m)
  case Nil
  then show ?case by simp
next
  case (Cons a m)
  have "prefix (x # xs) ((a # m) @ c # b) \<longleftrightarrow> prefix (x # xs) (a # m)"
  proof
    assume "prefix (x # xs) ((a # m) @ c # b)"
    then show "prefix (x # xs) (a # m)" using assms by (rule prefix_across) simp
  next
    assume "prefix (x # xs) (a # m)"
    then show "prefix (x # xs) ((a # m) @ c # b)" by (rule prefix_prefix)
  qed
  then have "prefix (x # xs) (a # m @ c # b) \<longleftrightarrow> prefix (x # xs) (a # m)" by simp
  with Cons.IH show ?case
    by (simp only: str_contains.simps append_Cons) blast
qed

lemma split_head_at_first:
  assumes "\<not> str_contains (c # xs) m" and "c \<notin> set xs"
  shows "split_head (c # xs) (m @ c # xs @ rest) = m"
  using assms(1)
proof (induction m)
  case Nil
  then show ?case by simp
next
  case (Cons a m)
  from Cons.prems have np: "\<not> prefix (c # xs) (a # m)" and nc: "\<not> str_contains (c # xs) m"
    by auto
  have "\<not> prefix (c # xs) ((a # m) @ c # (xs @ rest))"
  proof
    assume "prefix (c # xs) ((a # m) @ c # (xs @ rest))"
    then have "prefix (c # xs) (a # m)" using assms(2) by (rule prefix_across) simp
    with np show False ..
  qed
  then have "\<not> prefix (c # xs) (a # m @ c # xs @ rest)" by simp
  with Cons.IH [OF nc] show ?case by (simp only: split_head.simps append_Cons if_False)
qed

text \<open>Replacing a pattern that does not occur, or that occurs only at the front.\<close>

lemma replace_scan_absent: "\<not> str_contains old s \<Longrightarrow> replace_scan old new 0 s = s"
  by (induction s) auto

lemma replace_scan_skip: "replace_scan old new (length xs) (xs @ s) = replace_scan old new 0 s"
  by (induction xs) auto

lemma str_replace_absent: "old \<noteq> [] \<Longrightarrow> \<not> str_contains old s \<Longrightarrow> str_replace old new s = s"
  by (simp add: str_replace_def replace_scan_absent)

lemma str_replace_front:
  assumes "\<not> str_contains (c # cs) s"
  shows "str_replace (c # cs) new ((c # cs) @ s) = new @ s"
proof -
  have "replace_scan (c # cs) new 0 ((c # cs) @ s)
          = new @ replace_scan (c # cs) new (length cs) (cs @ s)"
    by simp
  also have "\<dots> = new @ replace_scan (c # cs) new 0 s"
    by (simp only: replace_scan_skip)
  also have "\<dots> = new @ s" using assms by (simp add: replace_scan_absent)
  finally show ?thesis by (simp add: str_replace_def)
qed

section \<open>Properties of the grouping\<close>

lemma group_entry_skip:
  "classify_key key = None \<Longrightarrow> group_entry lw groups (key, v) = groups"
  by simp

lemma group_entry_cong:
  "classify_key k = classify_key k' \<Longrightarrow>
     group_entry lw groups (k, v) = group_entry lw groups (k', v)"
  by simp



text \<open>Which markers a key of either convention contains.\<close>

lemma down_key_markers:
  assumes "marker_free m" and "marker_free rest"
  shows "str_contains ''lora'' (m @ ''.lora_down'' @ rest)"
    and "str_contains ''lora_down'' (m @ ''.lora_down'' @ rest)"
    and "str_contains ''alpha'' (m @ ''.lora_down'' @ rest) \<longleftrightarrow>
           str_contains ''alpha'' m \<or> str_contains ''alpha'' rest"
proof -
  have "str_contains ''lora'' (''.lora_down'' @ rest)" by simp
  then show "str_contains ''lora'' (m @ ''.lora_down'' @ rest)"
    using str_contains_embedded [of "''lora''" "''.lora_down'' @ rest" m "[]"] by simp
  have "str_contains ''lora_down'' (''.lora_down'' @ rest)" by simp
  then show "str_contains ''lora_down'' (m @ ''.lora_down'' @ rest)"
    using str_contains_embedded [of "''lora_down''" "''.lora_down'' @ rest" m "[]"] by simp
  show "str_contains ''alpha'' (m @ ''.lora_down'' @ rest) \<longleftrightarrow>
           str_contains ''alpha'' m \<or> str_contains ''alpha'' rest"
    using str_contains_across [of "CHR ''.''" "''lpha''" "CHR ''a''" m "''lora_down'' @ rest"]
    by simp
qed

lemma up_key_markers:
  assumes "marker_free m" and "marker_free rest"
  shows "str_contains ''lora'' (m @ ''.lora_up'' @ rest)"
    and "\<not> str_contains ''lora_down'' (m @ ''.lora_up'' @ rest)"
    and "str_contains ''lora_up'' (m @ ''.lora_up'' @ rest)"
    and "str_contains ''alpha'' (m @ ''.lora_up'' @ rest) \<longleftrightarrow>
           str_contains ''alpha'' m \<or> str_contains ''alpha'' rest"
proof -
  have "str_contains ''lora'' (''.lora_up'' @ rest)" by simp
  then show "str_contains ''lora'' (m @ ''.lora_up'' @ rest)"
    using str_contains_embedded [of "''lora''" "''.lora_up'' @ rest" m "[]"] by simp
  show "\<not> str_contains ''lora_down'' (m @ ''.lora_up'' @ rest)"
    using assms
      str_contains_across [of "CHR ''.''" "''ora_down''" "CHR ''l''" m "''lora_up'' @ rest"]
    by (simp add: marker_free_def)
  have "str_contains ''lora_up'' (''.lora_up'' @ rest)" by simp
  then show "str_contains ''lora_up'' (m @ ''.lora_up'' @ rest)"
    using str_contains_embedded [of "''lora_up''" "''.lora_up'' @ rest" m "[]"] by simp
  show "str_contains ''alpha'' (m @ ''.lora_up'' @ rest) \<longleftrightarrow>
           str_contains ''alpha'' m \<or> str_contains ''alpha'' rest"
    using str_contains_across [of "CHR ''.''" "''lpha''" "CHR ''a''" m "''lora_up'' @ rest"]
    by simp
qed

lemma A_key_markers:
  assumes "marker_free m" and "marker_free rest"
  shows "str_contains ''lora'' (m @ ''.lora_A'' @ rest)"
    and "\<not> str_contains ''lora_down'' (m @ ''.lora_A'' @ rest)"
    and "\<not> str_contains ''lora_up'' (m @ ''.lora_A'' @ rest)"
    and "str_contains ''lora_A'' (m @ ''.lora_A'' @ rest)"
    and "str_contains ''alpha'' (m @ ''.lora_A'' @ rest) \<longleftrightarrow>
           str_contains ''alpha'' m \<or> str_contains ''alpha'' rest"
proof -
  have "str_contains ''lora'' (''.lora_A'' @ rest)" by simp
  then show "str_contains ''lora'' (m @ ''.lora_A'' @ rest)"
    using str_contains_embedded [of "''lora''" "''.lora_A'' @ rest" m "[]"] by simp
  show "\<not> str_contains ''lora_down'' (m @ ''.lora_A'' @ rest)"
    using assms
      str_contains_across [of "CHR ''.''" "''ora_down''" "CHR ''l''" m "''lora_A'' @ rest"]
    by (simp add: marker_free_def)
  show "\<not> str_contains ''lora_up'' (m @ ''.lora_A'' @ rest)"
    using assms
      str_contains_across [of "CHR ''.''" "''ora_up''" "CHR ''l''" m "''lora_A'' @ rest"]
    by (simp add: marker_free_def)
  have "str_contains ''lora_A'' (''.lora_A'' @ rest)" by simp
  then show "str_contains ''lora_A'' (m @ ''.lora_A'' @ rest)"
    using str_contains_embedded [of "''lora_A''" "''.lora_A'' @ rest" m "[]"] by simp
  show "str_contains ''alpha'' (m @ ''.lora_A'' @ rest) \<longleftrightarrow>
           str_contains ''alpha'' m \<or> str_contains ''alpha'' rest"
    using str_contains_across [of "CHR ''.''" "''lpha''" "CHR ''a''" m "''lora_A'' @ rest"]
    by simp
qed

lemma B_key_markers:
  assumes "marker_free m" and "marker_free rest"
  shows "str_contains ''lora'' (m @ ''.lora_B'' @ rest)"
    and "\<not> str_contains ''lora_down'' (m @ ''.lora_B'' @ rest)"
    and "\<not> str_contains ''lora_up'' (m @ ''.lora_B'' @ rest)"
    and "\<not> str_contains ''lora_A'' (m @ ''.lora_B'' @ rest)"
    and "str_contains ''lora_B'' (m @ ''.lora_B'' @ rest)"
    and "str_contains ''alpha'' (m @ ''.lora_B'' @ rest) \<longleftrightarrow>
           str_contains ''alpha'' m \<or> str_contains ''alpha'' rest"
proof -
  have "str_contains ''lora'' (''.lora_B'' @ rest)" by simp
  then show "str_contains ''lora'' (m @ ''.lora_B'' @ rest)"
    using str_contains_embedded [of "''lora''" "''.lora_B'' @ rest" m "[]"] by simp
  show "\<not> str_contains ''lora_down'' (m @ ''.lora_B'' @ rest)"
    using assms
      str_contains_across [of "CHR ''.''" "''ora_down''" "CHR ''l''" m "''lora_B'' @ rest"]
    by (simp add: marker_free_def)
  show "\<not> str_contains ''lora_up'' (m @ ''.lora_B'' @ rest)"
    using assms
      str_contains_across [of "CHR ''.''" "''ora_up''" "CHR ''l''" m "''lora_B'' @ rest"]
    by (simp add: marker_free_def)
  show "\<not> str_contains ''lora_A'' (m @ ''.lora_B'' @ rest)"
    using assms
      str_contains_across [of "CHR ''.''" "''ora_A''" "CHR ''l''" m "''lora_B'' @ rest"]
    by (simp add: marker_free_def)
  have "str_contains ''lora_B'' (''.lora_B'' @ rest)" by simp
  then show "str_contains ''lora_B'' (m @ ''.lora_B'' @ rest)"
    using str_contains_embedded [of "''lora_B''" "''.lora_B'' @ rest" m "[]"] by simp
  show "str_contains ''alpha'' (m @ ''.lora_B'' @ rest) \<longleftrightarrow>
           str_contains ''alpha'' m \<or> str_contains ''alpha'' rest"
    using str_contains_across [of "CHR ''.''" "''lpha''" "CHR ''a''" m "''lora_B'' @ rest"]
    by simp
qed

lemma marker_free_split_head:
  assumes "marker_free m"
  shows "split_head ''.lora_down'' (m @ ''.lora_down'' @ rest) = m"
    and "split_head ''.lora_up'' (m @ ''.lora_up'' @ rest) = m"
    and "split_head ''.lora_A'' (m @ ''.lora_A'' @ rest) = m"
    and "split_head ''.lora_B'' (m @ ''.lora_B'' @ rest) = m"
proof -
  have n: "\<not> str_contains ''.lora_down'' m" "\<not> str_contains ''.lora_up'' m"
    "\<not> str_contains ''.lora_A'' m" "\<not> str_contains ''.lora_B'' m"
    using assms
      str_contains_longer [of "''.''" "''lora_down''" "[]" m]
      str_contains_longer [of "''.''" "''lora_up''" "[]" m]
      str_contains_longer [of "''.''" "''lora_A''" "[]" m]
      str_contains_longer [of "''.''" "''lora_B''" "[]" m]
    by (auto simp: marker_free_def)
  show "split_head ''.lora_down'' (m @ ''.lora_down'' @ rest) = m"
    using split_head_at_first [OF n(1), of rest] by simp
  show "split_head ''.lora_up'' (m @ ''.lora_up'' @ rest) = m"
    using split_head_at_first [OF n(2), of rest] by simp
  show "split_head ''.lora_A'' (m @ ''.lora_A'' @ rest) = m"
    using split_head_at_first [OF n(3), of rest] by simp
  show "split_head ''.lora_B'' (m @ ''.lora_B'' @ rest) = m"
    using split_head_at_first [OF n(4), of rest] by simp
qed

lemma classify_down_key:
  assumes "marker_free m" and "marker_free rest"
  shows "classify_key (m @ ''.lora_down'' @ rest) =
           (if str_contains ''alpha'' m \<or> str_contains ''alpha'' rest then None
            else Some (m, Down))"
  unfolding classify_key_def Let_def
  by (simp only: down_key_markers [OF assms] marker_free_split_head [OF assms(1)]
        simp_thms if_True if_False)

lemma classify_up_key:
  assumes "marker_free m" and "marker_free rest"
  shows "classify_key (m @ ''.lora_up'' @ rest) =
           (if str_contains ''alpha'' m \<or> str_contains ''alpha'' rest then None
            else Some (m, Up))"
  unfolding classify_key_def Let_def
  by (simp only: up_key_markers [OF assms] marker_free_split_head [OF assms(1)]
        simp_thms if_True if_False)

lemma classify_A_key:
  assumes "marker_free m" and "marker_free rest"
  shows "classify_key (m @ ''.lora_A'' @ rest) =
           (if str_contains ''alpha'' m \<or> str_contains ''alpha'' rest then None
            else Some (m, Down))"
  unfolding classify_key_def Let_def
  by (simp only: A_key_markers [OF assms] marker_free_split_head [OF assms(1)]
        simp_thms if_True if_False)

lemma classify_B_key:
  assumes "marker_free m" and "marker_free rest"
  shows "classify_key (m @ ''.lora_B'' @ rest) =
           (if str_contains ''alpha'' m \<or> str_contains ''alpha'' rest then None
            else Some (m, Up))"
  unfolding classify_key_def Let_def
  by (simp only: B_key_markers [OF assms] marker_free_split_head [OF assms(1)]
        simp_thms if_True if_False)

text \<open>A classified key puts its tensor into the group of the normalised base name.\<close>

lemma map_of_dict_set: "map_of (dict_set d k v) k = Some v"
  by (induction d) auto

lemma group_entry_down:
  assumes "classify_key key = Some (b, Down)"
  shows "\<exists>g. map_of (group_entry lw groups (key, v)) (sanitize_key b) = Some g \<and>
             down g = Some v"
  using assms by (simp add: Let_def map_of_dict_set split: option.splits)

lemma group_entry_up:
  assumes "classify_key key = Some (b, Up)"
  shows "\<exists>g. map_of (group_entry lw groups (key, v)) (sanitize_key b) = Some g \<and>
             up g = Some v"
  using assms by (simp add: Let_def map_of_dict_set split: option.splits)

text \<open>
  Where the normaliser and the prefix-only reading agree: on keys in which
  neither prefix occurs again behind the place where it is removed.
\<close>

lemma replace_is_remove_prefix:
  assumes "\<not> str_contains (c # cs) (remove_prefix (c # cs) s)"
  shows "str_replace (c # cs) [] s = remove_prefix (c # cs) s"
proof (cases "prefix (c # cs) s")
  case True
  then obtain t where t: "s = (c # cs) @ t" by (auto simp: prefix_def)
  with assms have "\<not> str_contains (c # cs) t" by (simp add: remove_prefix_def)
  then have "str_replace (c # cs) [] ((c # cs) @ t) = [] @ t" by (rule str_replace_front)
  with t show ?thesis by (simp add: remove_prefix_def)
next
  case False
  with assms have "\<not> str_contains (c # cs) s" by (simp add: remove_prefix_def)
  then have "str_replace (c # cs) [] s = s" by (simp add: str_replace_absent)
  with False show ?thesis by (simp add: remove_prefix_def)
qed

lemma sanitize_key_prefix_only:
  assumes "\<not> str_contains ''model.diffusion_model.''
               (remove_prefix ''model.diffusion_model.'' key)"
    and "\<not> str_contains ''transformer.''
               (remove_prefix ''transformer.'' (remove_prefix ''model.diffusion_model.'' key))"
  shows "sanitize_key key = sanitize_key_spec key"
proof -
  let ?k1 = "remove_prefix ''model.diffusion_model.'' key"
  have a: "str_replace ''model.diffusion_model.'' [] key = ?k1"
    using assms(1) by (rule replace_is_remove_prefix)
  have b: "(if startswith ?k1 ''transformer.'' then str_replace ''transformer.'' [] ?k1
            else ?k1) = remove_prefix ''transformer.'' ?k1"
  proof (cases "prefix ''transformer.'' ?k1")
    case True
    with replace_is_remove_prefix [OF assms(2)] show ?thesis
      by (simp add: startswith_def)
  next
    case False
    then show ?thesis by (simp add: startswith_def remove_prefix_def)
  qed
  show ?thesis
    unfolding sanitize_key_def sanitize_key_spec_def Let_def a b ..
qed

section \<open>Properties of the floating-point operations\<close>

lemma bit_length_bounds:
  assumes "m \<noteq> 0"
  shows "2 ^ (bit_length m - 1) \<le> \<bar>m\<bar>" and "\<bar>m\<bar> < 2 ^ bit_length m"
proof -
  from assms have pos: "0 < bit_length m" by (subst bit_length.simps) simp
  show "\<bar>m\<bar> < 2 ^ bit_length m"
  proof (rule ccontr)
    assume "\<not> \<bar>m\<bar> < 2 ^ bit_length m"
    then have "2 ^ bit_length m \<le> \<bar>m\<bar>" by simp
    then have "Suc (bit_length m) \<le> bit_length m" by (rule bit_length_ge)
    then show False by simp
  qed
  show "2 ^ (bit_length m - 1) \<le> \<bar>m\<bar>"
  proof (rule ccontr)
    assume "\<not> 2 ^ (bit_length m - 1) \<le> \<bar>m\<bar>"
    then have "\<bar>m\<bar> < 2 ^ (bit_length m - 1)" by simp
    then have "bit_length m \<le> bit_length m - 1" by (rule bit_length_le)
    with pos show False by simp
  qed
qed

text \<open>\<open>ilog2\<close> is the binary exponent.\<close>

lemma ilog2_bounds:
  assumes "0 < q"
  shows "2 powi ilog2 q \<le> q" and "q < 2 powi (ilog2 q + 1)"
proof -
  have "2 powi ilog2 q \<le> q \<and> q < 2 powi (ilog2 q + 1)"
  proof (cases "1 \<le> q")
    case True
    let ?n = "\<lfloor>q\<rfloor>"
    from True have n: "1 \<le> ?n" by simp
    then have nz: "?n \<noteq> 0" by linarith
    from n have abs: "\<bar>?n\<bar> = ?n" by linarith
    from nz have bl: "0 < bit_length ?n" by (subst bit_length.simps) simp
    from bit_length_bounds [OF nz] abs
    have lo: "2 ^ (bit_length ?n - 1) \<le> ?n" and hi: "?n < 2 ^ bit_length ?n" by simp_all
    have e: "ilog2 q = int (bit_length ?n - 1)"
      using True bl by (simp add: ilog2_def of_nat_diff)
    have "(2::real) ^ (bit_length ?n - 1) = of_int (2 ^ (bit_length ?n - 1))" by simp
    also have "\<dots> \<le> of_int ?n" using lo by (simp only: of_int_le_iff)
    also have "\<dots> \<le> q" by simp
    finally have 1: "(2::real) ^ (bit_length ?n - 1) \<le> q" .
    from hi have "?n + 1 \<le> 2 ^ bit_length ?n" by simp
    then have "(of_int (?n + 1) :: real) \<le> of_int (2 ^ bit_length ?n)"
      by (simp only: of_int_le_iff)
    then have h1: "of_int ?n + 1 \<le> (2::real) ^ bit_length ?n" by simp
    have h2: "q < of_int ?n + 1" by (rule real_of_int_floor_add_one_gt)
    from h1 h2 have 2: "q < (2::real) ^ bit_length ?n" by linarith
    have s: "int (bit_length ?n - 1) + 1 = int (bit_length ?n)" using bl by simp
    show ?thesis
      unfolding e s using 1 2 by (simp add: power_int_def)
  next
    case False
    let ?t = "\<lfloor>1 / q\<rfloor>"
    from False assms have q1: "q < 1" by simp
    with assms have "1 < 1 / q" by (simp add: field_simps)
    then have t: "1 \<le> ?t" by simp
    then have tz: "?t \<noteq> 0" by linarith
    from t have abs: "\<bar>?t\<bar> = ?t" by linarith
    from tz have bl: "0 < bit_length ?t" by (subst bit_length.simps) simp
    define k where "k = bit_length ?t - 1"
    have kk: "bit_length ?t = Suc k" using bl by (simp add: k_def)
    from bit_length_bounds [OF tz] abs kk
    have lo: "2 ^ k \<le> ?t" and hi: "?t < 2 ^ Suc k" by simp_all
    have "(2::real) ^ k = of_int (2 ^ k)" by simp
    also have "\<dots> \<le> of_int ?t" using lo by (simp only: of_int_le_iff)
    also have "\<dots> \<le> 1 / q" by simp
    finally have a: "(2::real) ^ k \<le> 1 / q" .
    from hi have "?t + 1 \<le> 2 ^ Suc k" by simp
    then have "(of_int (?t + 1) :: real) \<le> of_int (2 ^ Suc k)" by (simp only: of_int_le_iff)
    then have h1: "of_int ?t + 1 \<le> (2::real) ^ Suc k" by simp
    have h2: "1 / q < of_int ?t + 1" by (rule real_of_int_floor_add_one_gt)
    from h1 h2 have b: "1 / q < (2::real) ^ Suc k" by linarith
    from a assms have a': "q * 2 ^ k \<le> 1" by (simp add: field_simps)
    from b assms have b': "1 < q * 2 ^ Suc k" by (simp add: field_simps)
    have pk: "(2::real) powi int k = 2 ^ k" by (simp add: power_int_def)
    have ik: "int (bit_length ?t) - 1 = int k" using kk by simp
    show ?thesis
    proof (cases "q * 2 ^ k = 1")
      case True
      then have e: "ilog2 q = - int k"
        using False by (simp add: ilog2_def Let_def ik pk)
      from True have qv: "q = 1 / 2 ^ k" by (simp add: field_simps)
      have m: "(2::real) powi (- int k) = 1 / 2 ^ k"
        by (simp add: power_int_minus field_simps pk)
      have "(2::real) powi (- int k) < 2 powi (- int k + 1)"
        by (rule power_int_strict_increasing) simp_all
      with m qv show ?thesis unfolding e by simp
    next
      case ne: False
      then have e: "ilog2 q = - int k - 1"
        using False by (simp add: ilog2_def Let_def ik pk)
      from ne a' have lt: "q * 2 ^ k < 1" by simp
      have m1: "(2::real) powi (- int k - 1) = 1 / 2 ^ Suc k"
      proof -
        have "- int k - 1 = - int (Suc k)" by simp
        then show ?thesis by (simp only: power_int_minus power_int_of_nat) (simp add: field_simps)
      qed
      have m2: "(2::real) powi (- int k - 1 + 1) = 1 / 2 ^ k"
        by (simp add: power_int_minus field_simps pk)
      from b' have "1 / 2 ^ Suc k < q" by (simp add: field_simps)
      moreover from lt have "q < 1 / 2 ^ k" by (simp add: field_simps)
      ultimately show ?thesis unfolding e m1 m2 by simp
    qed
  qed
  then show "2 powi ilog2 q \<le> q" and "q < 2 powi (ilog2 q + 1)" by simp_all
qed

lemma ilog2_eq:
  assumes lo: "2 powi e \<le> q" and hi: "q < 2 powi (e + 1)"
  shows "ilog2 q = e"
proof -
  have "(0::real) < 2 powi e" by simp
  with lo have pos: "0 < q" by linarith
  note b = ilog2_bounds [OF pos]
  have "\<not> ilog2 q < e"
  proof
    assume "ilog2 q < e"
    then have "ilog2 q + 1 \<le> e" by simp
    then have "(2::real) powi (ilog2 q + 1) \<le> 2 powi e"
      by (intro power_int_increasing) simp_all
    with b(2) lo show False by simp
  qed
  moreover have "\<not> e < ilog2 q"
  proof
    assume "e < ilog2 q"
    then have "e + 1 \<le> ilog2 q" by simp
    then have "(2::real) powi (e + 1) \<le> 2 powi ilog2 q"
      by (intro power_int_increasing) simp_all
    with b(1) hi show False by simp
  qed
  ultimately show ?thesis by simp
qed

lemma round_half_even_int [simp]: "round_half_even (of_int z) = z"
  by (simp add: round_half_even_def)

text \<open>Rounding with the exponent given: how \<open>fround\<close> is evaluated.\<close>

lemma fround_eval:
  assumes "2 powi e \<le> \<bar>q\<bar>" and "\<bar>q\<bar> < 2 powi (e + 1)"
  shows "fround fmt q = round_at fmt e q"
proof -
  have "(0::real) < 2 powi e" by simp
  with assms(1) have "0 < \<bar>q\<bar>" by linarith
  then have "q \<noteq> 0" by simp
  with ilog2_eq [OF assms] show ?thesis by (simp add: fround_def)
qed

text \<open>
  A number \<open>m * 2 powi k\<close> whose significand \<open>m\<close> fits the precision and whose
  exponent is in range is a value of the format.
\<close>

lemma fround_dyadic:
  assumes m: "m \<noteq> 0" and prec: "\<bar>m\<bar> < 2 ^ p"
    and low: "2 - emax - int p \<le> k"
    and high: "of_int \<bar>m\<bar> * 2 powi k < (2::real) powi (emax + 1)"
  shows "fround (p, emax) (of_int m * 2 powi k) = Fin (of_int m * 2 powi k)"
proof -
  let ?q = "of_int m * (2::real) powi k"
  let ?b = "bit_length m"
  have pk: "(0::real) < 2 powi k" by simp
  have aq: "\<bar>?q\<bar> = of_int \<bar>m\<bar> * 2 powi k" by (simp add: abs_mult)
  from m have bpos: "0 < ?b" by (subst bit_length.simps) simp
  from prec have bp: "?b \<le> p" by (rule bit_length_le)
  define E where "E = int ?b - 1 + k"
  note bb = bit_length_bounds [OF m]
  have nat1: "nat (int ?b - 1) = ?b - 1" by simp
  have p1: "(2::real) powi (int ?b - 1) = 2 ^ (?b - 1)"
    using bpos by (simp add: power_int_def nat1)
  have p2: "(2::real) powi (int ?b) = 2 ^ ?b" by (simp add: power_int_def)
  have "(2::real) powi E = 2 powi (int ?b - 1) * 2 powi k"
    unfolding E_def by (rule power_int_add) simp
  also have "\<dots> = of_int (2 ^ (?b - 1)) * 2 powi k" by (simp add: p1)
  also have "\<dots> \<le> of_int \<bar>m\<bar> * 2 powi k"
  proof (rule mult_right_mono)
    show "(of_int (2 ^ (?b - 1)) :: real) \<le> of_int \<bar>m\<bar>"
      using bb(1) by (simp only: of_int_le_iff)
    show "(0::real) \<le> 2 powi k" by simp
  qed
  finally have lo: "2 powi E \<le> \<bar>?q\<bar>" by (simp only: aq)
  have "E + 1 = int ?b + k" by (simp add: E_def)
  then have "(2::real) powi (E + 1) = 2 powi (int ?b) * 2 powi k"
    by (simp only:) (rule power_int_add, simp)
  also have "\<dots> = of_int (2 ^ ?b) * 2 powi k" by (simp add: p2)
  finally have e1: "(2::real) powi (E + 1) = of_int (2 ^ ?b) * 2 powi k" .
  have "(of_int \<bar>m\<bar> :: real) < of_int (2 ^ ?b)"
    using bb(2) by (simp only: of_int_less_iff)
  then have "of_int \<bar>m\<bar> * 2 powi k < of_int (2 ^ ?b) * (2::real) powi k"
    using pk by (simp only: mult_less_cancel_right_pos)
  then have hi: "\<bar>?q\<bar> < 2 powi (E + 1)" by (simp only: aq e1)
  have fr: "fround (p, emax) ?q = round_at (p, emax) E ?q"
    using lo hi by (rule fround_eval)
  define x where "x = max E (1 - emax) - int p + 1"
  have xk: "x \<le> k"
  proof (cases "1 - emax \<le> E")
    case True
    then have "x = E - int p + 1" by (simp add: x_def)
    with bp show ?thesis by (simp add: E_def)
  next
    case False
    then have "x = 1 - emax - int p + 1" by (simp add: x_def)
    with low show ?thesis by simp
  qed
  define d where "d = nat (k - x)"
  have kd: "k = int d + x" using xk by (simp add: d_def)
  have "(2::real) powi k = 2 powi (int d) * 2 powi x"
    unfolding kd by (rule power_int_add) simp
  then have pkx: "(2::real) powi k = 2 ^ d * 2 powi x" by (simp add: power_int_def)
  have px: "(0::real) < 2 powi x" by simp
  have split: "\<bar>?q\<bar> = of_int (\<bar>m\<bar> * 2 ^ d) * 2 powi x"
    unfolding aq by (subst pkx) simp
  have "of_int (\<bar>m\<bar> * 2 ^ d) * 2 powi x / 2 powi x = (of_int (\<bar>m\<bar> * 2 ^ d) :: real)"
    using px by simp
  then have quot: "\<bar>?q\<bar> / 2 powi x = of_int (\<bar>m\<bar> * 2 ^ d)"
    by (simp only: split [symmetric])
  have r: "of_int (round_half_even (\<bar>?q\<bar> / 2 powi x)) * 2 powi x = \<bar>?q\<bar>"
    unfolding quot round_half_even_int by (simp only: split [symmetric])
  have nz: "\<bar>?q\<bar> \<noteq> 0" using m by simp
  have no: "\<not> 2 powi (emax + 1) \<le> \<bar>?q\<bar>" using high by (simp add: aq)
  have "round_at (p, emax) E ?q = Fin (if ?q < 0 then - \<bar>?q\<bar> else \<bar>?q\<bar>)"
    unfolding round_at_def Let_def fst_conv snd_conv x_def [symmetric] r
    using nz no by simp
  also have "(if ?q < 0 then - \<bar>?q\<bar> else \<bar>?q\<bar>) = ?q" by simp
  finally show ?thesis using fr by simp
qed

text \<open>Integers that fit the precision are values of the format.\<close>

lemma fround_int:
  assumes "\<bar>m\<bar> < 2 ^ p" and "0 < emax" and "int p \<le> emax + 1"
  shows "fround (p, emax) (of_int m) = Fin (of_int m)"
proof (cases "m = 0")
  case True
  then show ?thesis by (simp add: fround_def)
next
  case False
  have "(of_int \<bar>m\<bar> :: real) < of_int (2 ^ p)"
    using assms(1) by (simp only: of_int_less_iff)
  also have "\<dots> = 2 powi (int p)" by (simp add: power_int_def)
  also have "\<dots> \<le> 2 powi (emax + 1)"
    using assms(3) by (intro power_int_increasing) simp_all
  finally have "of_int \<bar>m\<bar> * 2 powi 0 < (2::real) powi (emax + 1)" by simp
  moreover have "2 - emax - int p \<le> 0"
  proof -
    have "p \<noteq> 0" using False assms(1) by (cases p) auto
    with assms(2) show ?thesis by simp
  qed
  ultimately have "fround (p, emax) (of_int m * 2 powi 0) = Fin (of_int m * 2 powi 0)"
    using False assms(1) by (intro fround_dyadic)
  then show ?thesis by simp
qed

lemma is_float_int:
  "\<bar>m\<bar> < 2 ^ 24 \<Longrightarrow> is_float binary32 (Fin (of_int m))"
  "\<bar>m\<bar> < 2 ^ 53 \<Longrightarrow> is_float binary64 (Fin (of_int m))"
  by (simp_all add: binary32_def binary64_def fround_int)

text \<open>Zeros: a finite number times a zero is a zero, and adding a zero changes nothing
  but the sign of a negative zero.\<close>

lemma fmul_zero:
  assumes "is_finite x" and "is_zero z"
  shows "is_zero (fmul fmt x z)" and "is_zero (fmul fmt z x)"
  using assms by (cases x; cases z; simp add: fmul_def)+

lemma fmul_not_finite_zero:
  assumes "\<not> is_finite x" and "is_zero z"
  shows "fmul fmt x z = NaN"
  using assms by (cases x; cases z; simp add: fmul_def)

lemma cast_zero: "is_zero z \<Longrightarrow> is_zero (cast fmt z)"
  by (cases z) (simp_all add: fround_def)

lemma fadd_zero:
  assumes "is_float fmt x" and "is_zero z" and "x \<noteq> NegZero"
  shows "fadd fmt x z = x"
  using assms by (cases x; cases z; simp)

lemma fadd_negative_zero:
  assumes "is_float fmt x"
  shows "fadd fmt x NegZero = x"
  using assms by (cases x) simp_all

text \<open>Rounding and doubling: in the normal range, and short of overflow, they commute.\<close>

lemma round_at_double:
  assumes n: "1 - snd fmt \<le> e"
    and f: "is_finite (round_at fmt (e + 1) (2 * q))"
  shows "round_at fmt (e + 1) (2 * q) = twice (round_at fmt e q)"
proof -
  let ?p = "int (fst fmt)"
  let ?u = "(2::real) powi (e - ?p + 1)"
  let ?r = "of_int (round_half_even (\<bar>q\<bar> / ?u)) * ?u"
  have "(2::real) powi ((e - ?p + 1) + 1) = 2 powi (e - ?p + 1) * 2 powi 1"
    by (rule power_int_add) simp
  moreover have "e + 1 - ?p + 1 = (e - ?p + 1) + 1" by simp
  ultimately have u: "(2::real) powi (e + 1 - ?p + 1) = 2 * ?u" by simp
  have m1: "max e (1 - snd fmt) = e" and m2: "max (e + 1) (1 - snd fmt) = e + 1"
    using n by simp_all
  have q: "\<bar>2 * q\<bar> / (2 * ?u) = \<bar>q\<bar> / ?u" by (simp add: abs_mult)
  have a: "round_at fmt (e + 1) (2 * q) =
             (if 2 powi (snd fmt + 1) \<le> 2 * ?r then (if q < 0 then NegInf else PosInf)
              else if ?r = 0 then (if q < 0 then NegZero else Fin 0)
              else Fin (if q < 0 then - (2 * ?r) else 2 * ?r))"
    unfolding round_at_def Let_def m2 u q by (simp add: algebra_simps)
  have b: "round_at fmt e q =
             (if 2 powi (snd fmt + 1) \<le> ?r then (if q < 0 then NegInf else PosInf)
              else if ?r = 0 then (if q < 0 then NegZero else Fin 0)
              else Fin (if q < 0 then - ?r else ?r))"
    unfolding round_at_def Let_def m1 by simp
  have r0: "0 \<le> ?r"
  proof -
    have "0 \<le> \<bar>q\<bar> / ?u" by simp
    then have "0 \<le> round_half_even (\<bar>q\<bar> / ?u)"
      by (simp add: round_half_even_def Let_def)
    then show ?thesis by simp
  qed
  from f a have nov: "\<not> 2 powi (snd fmt + 1) \<le> 2 * ?r"
    by (auto split: if_splits)
  with r0 have nov': "\<not> 2 powi (snd fmt + 1) \<le> ?r" by linarith
  show ?thesis unfolding a b using nov nov' by simp
qed

lemma fround_double:
  assumes nz: "q \<noteq> 0" and n: "2 powi (1 - snd fmt) \<le> \<bar>q\<bar>"
    and f: "is_finite (fround fmt (2 * q))"
  shows "fround fmt (2 * q) = twice (fround fmt q)"
proof -
  let ?e = "ilog2 \<bar>q\<bar>"
  from nz have pos: "0 < \<bar>q\<bar>" by simp
  note b = ilog2_bounds [OF pos]
  have e1: "fround fmt q = round_at fmt ?e q" using b by (rule fround_eval)
  have "2 powi (?e + 1) \<le> \<bar>2 * q\<bar>" "\<bar>2 * q\<bar> < 2 powi (?e + 1 + 1)"
    using b by (simp_all add: power_int_add abs_mult)
  then have e2: "fround fmt (2 * q) = round_at fmt (?e + 1) (2 * q)" by (rule fround_eval)
  from n b(2) have "(2::real) powi (1 - snd fmt) < 2 powi (?e + 1)" by linarith
  have le: "1 - snd fmt \<le> ?e"
  proof (rule ccontr)
    assume "\<not> 1 - snd fmt \<le> ?e"
    then have "?e + 1 \<le> 1 - snd fmt" by simp
    then have "(2::real) powi (?e + 1) \<le> 2 powi (1 - snd fmt)"
      by (rule power_int_increasing) simp
    with \<open>(2::real) powi (1 - snd fmt) < 2 powi (?e + 1)\<close> show False by simp
  qed
  from f have "is_finite (round_at fmt (?e + 1) (2 * q))" unfolding e2 .
  with le have "round_at fmt (?e + 1) (2 * q) = twice (round_at fmt ?e q)"
    by (rule round_at_double)
  then show ?thesis unfolding e1 e2 .
qed

lemma cast_twice: "doubles fmt x \<Longrightarrow> cast fmt (twice x) = twice (cast fmt x)"
proof (cases x)
  case (Fin q)
  assume d: "doubles fmt x"
  show ?thesis
  proof (cases "q = 0")
    case True
    with Fin show ?thesis by (simp add: fround_def)
  next
    case False
    with d Fin have "2 powi (1 - snd fmt) \<le> \<bar>q\<bar>" "is_finite (fround fmt (2 * q))"
      by simp_all
    with False have "fround fmt (2 * q) = twice (fround fmt q)" by (rule fround_double)
    with Fin show ?thesis by simp
  qed
qed simp_all

lemma fmul_twice:
  assumes "doubles fmt (Fin (val x * val y))"
  shows "fmul fmt x (twice y) = twice (fmul fmt x y)"
proof (cases "is_finite x \<and> is_finite y \<and> \<not> is_zero x \<and> \<not> is_zero y")
  case True
  then obtain a b where x: "x = Fin a" and y: "y = Fin b" and a: "a \<noteq> 0" and b: "b \<noteq> 0"
    by (cases x; cases y; simp)
  from assms x y a b have "fround fmt (2 * (a * b)) = twice (fround fmt (a * b))"
    by (intro fround_double) simp_all
  then show ?thesis using x y a b by (simp add: fmul_def mult.left_commute)
next
  case False
  then show ?thesis
    by (cases x; cases y; auto simp add: fmul_def)
qed

lemma doubles_int:
  assumes m: "m \<noteq> 0" and prec: "\<bar>2 * m\<bar> < 2 ^ p" and e: "0 < emax" "int p \<le> emax + 1"
  shows "doubles (p, emax) (Fin (of_int m))"
proof -
  have "(2::real) powi (1 - emax) \<le> 2 powi 0"
    using e by (intro power_int_increasing) simp_all
  moreover have "(1::real) \<le> \<bar>of_int m\<bar>"
  proof -
    from m have "1 \<le> \<bar>m\<bar>" by arith
    then have "(1::real) \<le> of_int \<bar>m\<bar>" by (simp only: of_int_1_le_iff)
    then show ?thesis by simp
  qed
  ultimately have low: "(2::real) powi (1 - snd (p, emax)) \<le> \<bar>of_int m\<bar>" by simp
  have "fround (p, emax) (of_int (2 * m)) = Fin (of_int (2 * m))"
    using prec e by (rule fround_int)
  then have "is_finite (fround (p, emax) (2 * of_int m))" by simp
  with low show ?thesis by simp
qed
section \<open>Properties of the tensor operations\<close>

lemma tabulate2_nth: "i < r \<Longrightarrow> j < c \<Longrightarrow> tabulate2 r c f ! i ! j = f i j"
  by (simp add: tabulate2_def)

lemma tabulate2_cong:
  "(\<And>i j. i < r \<Longrightarrow> j < c \<Longrightarrow> f i j = g i j) \<Longrightarrow> tabulate2 r c f = tabulate2 r c g"
  by (simp add: tabulate2_def)

lemma tabulate2_cells:
  assumes "well_shaped w"
  shows "tabulate2 (nrows w) (ncols w) (cell_at w) = cells w"
proof (rule nth_equalityI)
  show "length (tabulate2 (nrows w) (ncols w) (cell_at w)) = length (cells w)"
    using assms by (simp add: tabulate2_def well_shaped_def)
next
  fix i
  assume "i < length (tabulate2 (nrows w) (ncols w) (cell_at w))"
  then have i: "i < nrows w" by (simp add: tabulate2_def)
  then have "cells w ! i \<in> set (cells w)" using assms by (simp add: well_shaped_def)
  then have len: "length (cells w ! i) = ncols w"
    using assms by (simp add: well_shaped_def list_all_iff)
  show "tabulate2 (nrows w) (ncols w) (cell_at w) ! i = cells w ! i"
  proof (rule nth_equalityI)
    show "length (tabulate2 (nrows w) (ncols w) (cell_at w) ! i) = length (cells w ! i)"
      using i len by (simp add: tabulate2_def)
  next
    fix j
    assume "j < length (tabulate2 (nrows w) (ncols w) (cell_at w) ! i)"
    then have "j < ncols w" using i by (simp add: tabulate2_def)
    with i show "tabulate2 (nrows w) (ncols w) (cell_at w) ! i ! j = cells w ! i ! j"
      by (simp add: tabulate2_nth cell_at_def)
  qed
qed

text \<open>An entry of a well-shaped tensor has whatever all its entries have.\<close>

lemma cell_at_list_all:
  assumes "well_shaped w" and "list_all (list_all P) (cells w)"
    and "i < nrows w" and "j < ncols w"
  shows "P (cell_at w i j)"
proof -
  from assms(1,3) have i: "i < length (cells w)" by (simp add: well_shaped_def)
  then have mem: "cells w ! i \<in> set (cells w)" by simp
  with assms(1) have "length (cells w ! i) = ncols w"
    by (simp add: well_shaped_def list_all_iff)
  with assms(4) have j: "j < length (cells w ! i)" by simp
  from mem assms(2) have "list_all P (cells w ! i)" by (simp add: list_all_iff)
  with j show ?thesis by (simp add: cell_at_def list_all_length)
qed

lemma bcast_at_in_range:
  "i < nrows t \<Longrightarrow> j < ncols t \<Longrightarrow> bcast_at t i j = cell_at t i j"
  by (auto simp: bcast_at_def)

lemma broadcast_dim_same: "broadcast_dim n n = Some n"
  by (simp add: broadcast_dim_def)

lemma broadcast_dim_cases:
  assumes "broadcast_dim m n = Some r"
  shows "(m = r \<or> m = 1) \<and> (n = r \<or> n = 1)"
  using assms by (auto simp: broadcast_dim_def split: if_splits)

lemma broadcast_dim_again: "broadcast_dim m n = Some r \<Longrightarrow> broadcast_dim r n = Some r"
  by (auto simp: broadcast_dim_def split: if_splits)

text \<open>The index that broadcasting reads is inside the tensor.\<close>

lemma broadcast_index:
  assumes "broadcast_dim m n = Some r" and "i < r"
  shows "(if n = 1 then 0 else i) < n"
  using broadcast_dim_cases [OF assms(1)] assms(2) by auto

text \<open>The product \<^verbatim>\<open>up @ down\<close> when the inner dimensions agree.\<close>

lemma matmul_conform:
  assumes "ncols u = nrows dn"
  shows "\<exists>p. matmul u dn = Inr p \<and> dtype p = result_type (dtype u) (dtype dn) \<and>
             nrows p = nrows u \<and> ncols p = ncols dn \<and> well_shaped p \<and>
             (\<forall>i<nrows u. \<forall>j<ncols dn.
                cell_at p i j =
                  cast (format_of (result_type (dtype u) (dtype dn)))
                    (dot (map (\<lambda>k. cell_at u i k) [0..<nrows dn])
                         (map (\<lambda>k. cell_at dn k j) [0..<nrows dn])))"
proof -
  let ?f = "\<lambda>i j. cast (format_of (result_type (dtype u) (dtype dn)))
                    (dot (map (\<lambda>k. cell_at u i k) [0..<nrows dn])
                         (map (\<lambda>k. cell_at dn k j) [0..<nrows dn]))"
  let ?p = "\<lparr>dtype = result_type (dtype u) (dtype dn), nrows = nrows u, ncols = ncols dn,
            cells = tabulate2 (nrows u) (ncols dn) ?f\<rparr>"
  have m: "matmul u dn = Inr ?p" using assms by (simp add: matmul_def)
  have ws: "well_shaped ?p" by (simp add: well_shaped_def tabulate2_def list_all_iff)
  have e: "\<forall>i<nrows u. \<forall>j<ncols dn. cell_at ?p i j = ?f i j"
    by (simp add: cell_at_def tabulate2_nth)
  from m ws e show ?thesis by simp
qed

lemma matmul_mismatch: "ncols u \<noteq> nrows dn \<Longrightarrow> matmul u dn = Inl ValueError"
  by (simp add: matmul_def)

lemma cell_at_scalar_mul:
  "i < length (cells t) \<Longrightarrow> j < length (cells t ! i) \<Longrightarrow>
     cell_at (scalar_mul t c) i j
       = fmul (format_of (dtype t)) (cell_at t i j) (scalar_of (dtype t) c)"
  by (simp add: cell_at_def scalar_mul_def)

lemma cell_at_astype:
  "i < length (cells t) \<Longrightarrow> j < length (cells t ! i) \<Longrightarrow>
     cell_at (astype t d) i j = cast (format_of d) (cell_at t i j)"
  by (simp add: astype_def cell_at_def)

lemma lora_scale_value:
  assumes "lora_scale a rank = Inr sc"
  shows "sc = (case a of None \<Rightarrow> 1 | Some t \<Rightarrow> fdiv_int (cast binary64 (cell_at t 0 0)) rank)"
  using assms
  by (auto simp: lora_scale_def tensor_item_def split: option.splits if_splits)

text \<open>
  The new weight whenever no step of the merge raises: what is added is the
  delta of the specification.
\<close>

lemma merged_weight_broadcast:
  assumes inner: "ncols u = nrows dn"
    and sc: "lora_scale a (nrows dn) = Inr sc"
    and br: "broadcast_dim (nrows w) (nrows u) = Some r"
    and bc: "broadcast_dim (ncols w) (ncols dn) = Some c"
  shows "merged_weight w dn u a s =
           Inr \<lparr>dtype = dtype w, nrows = r, ncols = c,
                cells = tabulate2 r c
                  (\<lambda>i j. fadd (format_of (dtype w)) (bcast_at w i j)
                            (lora_delta_spec (dtype w) dn u a s i j))\<rparr>"
proof -
  from matmul_conform [OF inner] obtain p where p: "matmul u dn = Inr p"
    and pd: "dtype p = result_type (dtype u) (dtype dn)"
    and shape: "nrows p = nrows u" "ncols p = ncols dn"
    and ws: "well_shaped p"
    and entry: "\<And>i j. i < nrows u \<Longrightarrow> j < ncols dn \<Longrightarrow>
                cell_at p i j =
                  cast (format_of (result_type (dtype u) (dtype dn)))
                    (dot (map (\<lambda>k. cell_at u i k) [0..<nrows dn])
                         (map (\<lambda>k. cell_at dn k j) [0..<nrows dn]))"
    by blast
  from ws shape have len: "length (cells p) = nrows u"
    and rowlen: "\<And>i. i < nrows u \<Longrightarrow> length (cells p ! i) = ncols dn"
    by (simp_all add: well_shaped_def list_all_length)
  let ?c = "fmul binary64 sc s"
  let ?raw = "scalar_mul p ?c"
  let ?d = "if dtype ?raw \<noteq> dtype w then astype ?raw (dtype w) else ?raw"
  have raw_shape: "nrows ?raw = nrows u" "ncols ?raw = ncols dn" "dtype ?raw = dtype p"
    "length (cells ?raw) = nrows u"
    using shape len by (simp_all add: scalar_mul_def)
  have raw_rowlen: "length (cells ?raw ! i) = ncols dn" if "i < nrows u" for i
    using that len rowlen by (simp add: scalar_mul_def)
  have d_shape: "nrows ?d = nrows u" "ncols ?d = ncols dn" "dtype ?d = dtype w"
    using raw_shape by (simp_all add: astype_def)
  have scv: "sc = (case a of None \<Rightarrow> 1
                   | Some t \<Rightarrow> fdiv_int (cast binary64 (cell_at t 0 0)) (nrows dn))"
    using sc by (rule lora_scale_value)
  have d_cells: "bcast_at ?d i j = lora_delta_spec (dtype w) dn u a s i j"
    if "i < r" "j < c" for i j
  proof -
    let ?i = "if nrows u = 1 then 0 else i" and ?j = "if ncols dn = 1 then 0 else j"
    have i: "?i < nrows u" using br that(1) by (rule broadcast_index)
    have j: "?j < ncols dn" using bc that(2) by (rule broadcast_index)
    have raw: "cell_at ?raw ?i ?j
                 = fmul (format_of (dtype p)) (cell_at p ?i ?j) (scalar_of (dtype p) ?c)"
      using i j len rowlen by (simp only: cell_at_scalar_mul)
    have li: "?i < length (cells ?raw)" using i raw_shape(4) by simp
    have lj: "?j < length (cells ?raw ! ?i)" using j raw_rowlen [OF i] by simp
    have spec: "lora_delta_spec (dtype w) dn u a s i j =
                  (if dtype p \<noteq> dtype w then cast (format_of (dtype w)) (cell_at ?raw ?i ?j)
                   else cell_at ?raw ?i ?j)"
      unfolding lora_delta_spec_def Let_def scv [symmetric] raw entry [OF i j] pd
      by (rule refl)
    have "bcast_at ?d i j = cell_at ?d ?i ?j"
      unfolding bcast_at_def by (simp only: d_shape)
    also have "\<dots> = (if dtype p \<noteq> dtype w
                      then cast (format_of (dtype w)) (cell_at ?raw ?i ?j)
                      else cell_at ?raw ?i ?j)"
    proof (cases "dtype p = dtype w")
      case True
      then show ?thesis by (simp add: raw_shape(3))
    next
      case False
      then have "?d = astype ?raw (dtype w)" by (simp add: raw_shape(3))
      with False cell_at_astype [OF li lj, of "dtype w"] show ?thesis by simp
    qed
    also have "\<dots> = lora_delta_spec (dtype w) dn u a s i j" by (rule spec [symmetric])
    finally show ?thesis .
  qed
  have "merged_weight w dn u a s = tensor_add w ?d"
    by (simp add: merged_weight_def Let_def sc p)
  also have "\<dots> = Inr \<lparr>dtype = dtype w, nrows = r, ncols = c,
                cells = tabulate2 r c
                  (\<lambda>i j. fadd (format_of (dtype w)) (bcast_at w i j) (bcast_at ?d i j))\<rparr>"
    unfolding tensor_add_def d_shape br bc by (simp add: result_type_def)
  also have "tabulate2 r c
               (\<lambda>i j. fadd (format_of (dtype w)) (bcast_at w i j) (bcast_at ?d i j)) =
             tabulate2 r c
               (\<lambda>i j. fadd (format_of (dtype w)) (bcast_at w i j)
                         (lora_delta_spec (dtype w) dn u a s i j))"
    by (rule tabulate2_cong) (simp only: d_cells)
  finally show ?thesis .
qed

text \<open>When a step raises, so does the merge.\<close>

lemma merged_weight_raises:
  "lora_scale a (nrows dn) = Inl e \<Longrightarrow> merged_weight w dn u a s = Inl e"
  "lora_scale a (nrows dn) = Inr sc \<Longrightarrow> matmul u dn = Inl e \<Longrightarrow>
     merged_weight w dn u a s = Inl e"
  by (simp_all add: merged_weight_def)

section \<open>Properties of the resolver and the merge\<close>

text \<open>Assigning a weight does not change what the resolver sees.\<close>

lemma resolve_part_weight_upd:
  "resolve_part (h(a := (h a)\<lparr>linear_weight := x\<rparr>)) cur part = resolve_part h cur part"
  by (cases "cur = a")
    (simp_all add: resolve_part_def Let_def cong: option.case_cong sum.case_cong if_cong)

lemma resolve_path_weight_upd:
  "resolve_path (h(a := (h a)\<lparr>linear_weight := x\<rparr>)) cur parts = resolve_path h cur parts"
proof (induction parts arbitrary: cur)
  case Nil
  then show ?case by simp
next
  case (Cons part parts)
  then show ?case
    by (simp only: resolve_path.simps resolve_part_weight_upd)
qed

text \<open>An entry whose path resolves to a linear layer is merged or raises.\<close>

lemma merge_group_resolved:
  assumes "down g = Some dn" and "up g = Some u"
    and "resolve_path h model (split_dots name) = Inr (Some cur)"
    and "linear_weight (h cur) = Some w"
  shows "merge_group h model s (name, g) =
           (case merged_weight w dn u (alpha g) s of
              Inl e \<Rightarrow> (h, Raised e)
            | Inr w' \<Rightarrow> (h(cur := (h cur)\<lparr>linear_weight := Some w'\<rparr>), Applied))"
  using assms by simp

text \<open>An entry that does not resolve to a linear layer is skipped and the loop goes on.\<close>

lemma merge_group_unresolved:
  assumes "resolve_path h model (split_dots name) = Inr None \<or>
           (\<exists>cur. resolve_path h model (split_dots name) = Inr (Some cur) \<and>
                  linear_weight (h cur) = None)"
  shows "merge_group h model s (name, g) = (h, Skipped)"
  using assms by (auto split: option.splits)

lemma merge_loop_unresolved:
  assumes "resolve_path h model (split_dots name) = Inr None \<or>
           (\<exists>cur. resolve_path h model (split_dots name) = Inr (Some cur) \<and>
                  linear_weight (h cur) = None)"
  shows "merge_loop h model s ((name, g) # entries) n = merge_loop h model s entries n"
  using merge_group_unresolved [OF assms, of s g]
  by (simp only: merge_loop.simps prod.case outcome.case)

text \<open>The strategies of the resolver, in the order of the chain.\<close>

lemma resolve_part_attr:
  "map_of (attrs (h cur)) part = Some a \<Longrightarrow> resolve_part h cur part = Inr (Some a)"
  by (simp add: resolve_part_def Let_def)

lemma resolve_part_key:
  "map_of (attrs (h cur)) part = None \<Longrightarrow> dict_items (h cur) = Some items \<Longrightarrow>
     map_of items (StrKey part) = Some a \<Longrightarrow> resolve_part h cur part = Inr (Some a)"
  by (simp add: resolve_part_def Let_def)

lemma resolve_part_int_key:
  "map_of (attrs (h cur)) part = None \<Longrightarrow> dict_items (h cur) = Some items \<Longrightarrow>
     map_of items (StrKey part) = None \<Longrightarrow> isdigit part \<Longrightarrow> py_int part = Inr n \<Longrightarrow>
     map_of items (IntKey n) = Some a \<Longrightarrow> resolve_part h cur part = Inr (Some a)"
  by (simp add: resolve_part_def Let_def)

lemma resolve_part_index:
  "map_of (attrs (h cur)) part = None \<Longrightarrow> dict_items (h cur) = None \<Longrightarrow>
     list_items (h cur) = Some elems \<Longrightarrow> isdigit part \<Longrightarrow> py_int part = Inr idx \<Longrightarrow>
     resolve_part h cur part =
       Inr (if idx < int (length elems) then Some (elems ! nat idx) else None)"
  by (simp add: resolve_part_def Let_def)

lemma resolve_part_none:
  "map_of (attrs (h cur)) part = None \<Longrightarrow> dict_items (h cur) = None \<Longrightarrow>
     list_items (h cur) = None \<Longrightarrow> resolve_part h cur part = Inr None"
  by (auto simp: resolve_part_def Let_def)

text \<open>
  The resolver can raise only through \<^verbatim>\<open>int(part)\<close>: on segments whose digits
  are all decimal and at most 4300 it returns.
\<close>

lemma py_int_decimal:
  "isdigit part \<Longrightarrow> list_all is_decimal_char part \<Longrightarrow> length part \<le> 4300 \<Longrightarrow>
     \<exists>n. py_int part = Inr n"
  by (simp add: py_int_def isdigit_def)

lemma resolve_part_returns:
  assumes "isdigit part \<longrightarrow> list_all is_decimal_char part \<and> length part \<le> 4300"
  shows "\<exists>r. resolve_part h cur part = Inr r"
proof (cases "isdigit part")
  case True
  with assms obtain n where "py_int part = Inr n" using py_int_decimal by blast
  then show ?thesis
    by (simp add: resolve_part_def Let_def split: option.splits)
next
  case False
  then show ?thesis
    by (simp add: resolve_part_def Let_def split: option.splits)
qed

lemma resolve_path_returns:
  assumes "\<forall>part\<in>set parts.
             isdigit part \<longrightarrow> list_all is_decimal_char part \<and> length part \<le> 4300"
  shows "\<exists>r. resolve_path h cur parts = Inr r"
  using assms
proof (induction parts arbitrary: cur)
  case Nil
  then show ?case by simp
next
  case (Cons part parts)
  then obtain r where r: "resolve_part h cur part = Inr r"
    using resolve_part_returns [of part h cur] by auto
  show ?case
  proof (cases r)
    case None
    with r show ?thesis by simp
  next
    case (Some nxt)
    from Cons.prems
    have "\<forall>part\<in>set parts.
            isdigit part \<longrightarrow> list_all is_decimal_char part \<and> length part \<le> 4300"
      by simp
    from Cons.IH [OF this, of nxt] r Some show ?thesis by simp
  qed
qed

text \<open>The merge keeps the graph, and the resolver sees only the graph.\<close>

lemma same_structure_refl: "same_structure h h"
  by (simp add: same_structure_def)

lemma same_structure_trans:
  "same_structure h h' \<Longrightarrow> same_structure h' h'' \<Longrightarrow> same_structure h h''"
  by (simp add: same_structure_def)

lemma resolve_part_structure:
  assumes "same_structure h h'"
  shows "resolve_part h' cur part = resolve_part h cur part"
proof -
  from assms have "attrs (h' cur) = attrs (h cur)" "dict_items (h' cur) = dict_items (h cur)"
    "list_items (h' cur) = list_items (h cur)"
    by (simp_all add: same_structure_def)
  then show ?thesis
    by (simp add: resolve_part_def Let_def cong: option.case_cong sum.case_cong if_cong)
qed

lemma resolve_path_structure:
  assumes "same_structure h h'"
  shows "resolve_path h' cur parts = resolve_path h cur parts"
proof (induction parts arbitrary: cur)
  case Nil
  then show ?case by simp
next
  case (Cons part parts)
  then show ?case
    by (simp only: resolve_path.simps resolve_part_structure [OF assms])
qed

lemma same_structure_weight_upd:
  "linear_weight (h a) \<noteq> None \<Longrightarrow>
     same_structure h (h(a := (h a)\<lparr>linear_weight := Some x\<rparr>))"
  by (simp add: same_structure_def)

lemma merge_group_cases:
  "merge_group h model s (name, g) = (h, Skipped) \<or>
   (\<exists>e. merge_group h model s (name, g) = (h, Raised e)) \<or>
   (\<exists>dn u cur w w'. down g = Some dn \<and> up g = Some u \<and>
      resolve_path h model (split_dots name) = Inr (Some cur) \<and>
      linear_weight (h cur) = Some w \<and>
      merged_weight w dn u (alpha g) s = Inr w' \<and>
      merge_group h model s (name, g)
        = (h(cur := (h cur)\<lparr>linear_weight := Some w'\<rparr>), Applied))"
  by (simp split: option.splits sum.splits)

lemma merge_group_structure: "same_structure h (fst (merge_group h model s entry))"
proof (cases entry)
  case (Pair name g)
  from merge_group_cases [of h model s name g] show ?thesis
  proof (elim disjE exE conjE)
    assume "merge_group h model s (name, g) = (h, Skipped)"
    with Pair show ?thesis by (simp add: same_structure_refl)
  next
    fix e
    assume "merge_group h model s (name, g) = (h, Raised e)"
    with Pair show ?thesis by (simp add: same_structure_refl)
  next
    fix dn u cur w w'
    assume "linear_weight (h cur) = Some w"
      and "merge_group h model s (name, g)
             = (h(cur := (h cur)\<lparr>linear_weight := Some w'\<rparr>), Applied)"
    with Pair show ?thesis by (simp add: same_structure_weight_upd)
  qed
qed

text \<open>An entry that does not resolve to a layer leaves the weight of that layer alone.\<close>

lemma merge_group_elsewhere:
  assumes "resolve_path h model (split_dots (fst entry)) \<noteq> Inr (Some cur)"
  shows "linear_weight (fst (merge_group h model s entry) cur) = linear_weight (h cur)"
proof (cases entry)
  case (Pair name g)
  from merge_group_cases [of h model s name g] show ?thesis
  proof (elim disjE exE conjE)
    assume "merge_group h model s (name, g) = (h, Skipped)"
    with Pair show ?thesis by simp
  next
    fix e
    assume "merge_group h model s (name, g) = (h, Raised e)"
    with Pair show ?thesis by simp
  next
    fix dn u cur' w w'
    assume r: "resolve_path h model (split_dots name) = Inr (Some cur')"
      and m: "merge_group h model s (name, g)
             = (h(cur' := (h cur')\<lparr>linear_weight := Some w'\<rparr>), Applied)"
    from r assms Pair have "cur' \<noteq> cur" by auto
    with m Pair show ?thesis by simp
  qed
qed

lemma merge_loop_elsewhere:
  assumes "\<forall>e\<in>set entries. resolve_path h model (split_dots (fst e)) \<noteq> Inr (Some cur)"
  shows "linear_weight (fst (merge_loop h model s entries n) cur) = linear_weight (h cur) \<and>
         same_structure h (fst (merge_loop h model s entries n))"
  using assms
proof (induction entries arbitrary: h n)
  case Nil
  then show ?case by (simp add: same_structure_refl)
next
  case (Cons entry entries)
  obtain h' out where mg: "merge_group h model s entry = (h', out)"
    by (cases "merge_group h model s entry")
  from merge_group_structure [of h model s entry] mg
  have st: "same_structure h h'" by simp
  from Cons.prems have "resolve_path h model (split_dots (fst entry)) \<noteq> Inr (Some cur)"
    by simp
  from merge_group_elsewhere [OF this, of s] mg
  have lw: "linear_weight (h' cur) = linear_weight (h cur)" by simp
  from Cons.prems
  have "\<forall>e\<in>set entries. resolve_path h' model (split_dots (fst e)) \<noteq> Inr (Some cur)"
    by (simp add: resolve_path_structure [OF st])
  note ih = Cons.IH [OF this]
  show ?case
  proof (cases out)
    case Skipped
    with mg ih [of n] lw st show ?thesis by (auto intro: same_structure_trans)
  next
    case Applied
    with mg ih [of "n + 1"] lw st show ?thesis by (auto intro: same_structure_trans)
  next
    case (Raised e)
    with mg lw st show ?thesis by simp
  qed
qed

lemma merge_loop_append:
  "merge_loop h model s (xs @ ys) n =
     (case merge_loop h model s xs n of
        (h', Inl e) \<Rightarrow> (h', Inl e)
      | (h', Inr k) \<Rightarrow> merge_loop h' model s ys k)"
proof (induction xs arbitrary: h n)
  case Nil
  then show ?case by simp
next
  case (Cons x xs)
  obtain h' out where mg: "merge_group h model s x = (h', out)"
    by (cases "merge_group h model s x")
  then show ?case by (cases out) (simp_all add: Cons.IH)
qed

text \<open>A merge that does not raise had conforming shapes and a scale.\<close>

lemma merged_weight_returns:
  assumes "merged_weight w dn u a s = Inr w'"
  shows "ncols u = nrows dn \<and> (\<exists>sc. lora_scale a (nrows dn) = Inr sc) \<and>
         (\<exists>r c. broadcast_dim (nrows w) (nrows u) = Some r \<and>
                broadcast_dim (ncols w) (ncols dn) = Some c)"
proof -
  from assms obtain sc where sc: "lora_scale a (nrows dn) = Inr sc"
    by (auto simp: merged_weight_def Let_def split: sum.splits)
  from assms sc obtain p where p: "matmul u dn = Inr p"
    by (auto simp: merged_weight_def Let_def split: sum.splits)
  then have inner: "ncols u = nrows dn" and shape: "nrows p = nrows u" "ncols p = ncols dn"
    by (auto simp: matmul_def split: if_splits)
  let ?raw = "scalar_mul p (fmul binary64 sc s)"
  let ?d = "if dtype ?raw \<noteq> dtype w then astype ?raw (dtype w) else ?raw"
  have ds: "nrows ?d = nrows u" "ncols ?d = ncols dn"
    using shape by (simp_all add: scalar_mul_def astype_def)
  from assms sc p have "tensor_add w ?d = Inr w'"
    by (simp add: merged_weight_def Let_def)
  then have "\<exists>r c. broadcast_dim (nrows w) (nrows ?d) = Some r \<and>
                   broadcast_dim (ncols w) (ncols ?d) = Some c"
    by (auto simp: tensor_add_def split: option.splits)
  with ds have "\<exists>r c. broadcast_dim (nrows w) (nrows u) = Some r \<and>
                   broadcast_dim (ncols w) (ncols dn) = Some c"
    by (simp only:)
  with inner sc show ?thesis by blast
qed

text \<open>
  The weight of a layer after a run of the loop that returns, when one entry
  of the groups resolves to the layer: the weight before, plus the delta of
  that entry.
\<close>

lemma merge_loop_hit:
  assumes dn: "down g = Some dn" and u: "up g = Some u"
    and res: "resolve_path h model (split_dots name) = Inr (Some cur)"
    and w: "linear_weight (h cur) = Some w"
    and others: "\<forall>e\<in>set (pre @ post).
                   resolve_path h model (split_dots (fst e)) \<noteq> Inr (Some cur)"
    and ret: "merge_loop h model s (pre @ (name, g) # post) n = (h', Inr k)"
  shows "\<exists>r c. broadcast_dim (nrows w) (nrows u) = Some r \<and>
               broadcast_dim (ncols w) (ncols dn) = Some c \<and>
               linear_weight (h' cur) =
                 Some \<lparr>dtype = dtype w, nrows = r, ncols = c,
                       cells = tabulate2 r c
                         (\<lambda>i j. fadd (format_of (dtype w)) (bcast_at w i j)
                                   (lora_delta_spec (dtype w) dn u (alpha g) s i j))\<rparr> \<and>
               same_structure h h'"
proof -
  obtain ha ra where a: "merge_loop h model s pre n = (ha, ra)"
    by (cases "merge_loop h model s pre n")
  from others have o1: "\<forall>e\<in>set pre. resolve_path h model (split_dots (fst e)) \<noteq> Inr (Some cur)"
    and o2: "\<forall>e\<in>set post. resolve_path h model (split_dots (fst e)) \<noteq> Inr (Some cur)"
    by simp_all
  from merge_loop_elsewhere [OF o1, of s n] a
  have wa: "linear_weight (ha cur) = Some w" and sa: "same_structure h ha"
    using w by simp_all
  from ret a obtain ka where ra: "ra = Inr ka"
    by (cases ra) (simp_all add: merge_loop_append)
  with ret a have rest: "merge_loop ha model s ((name, g) # post) ka = (h', Inr k)"
    by (simp add: merge_loop_append)
  have resa: "resolve_path ha model (split_dots name) = Inr (Some cur)"
    using res by (simp add: resolve_path_structure [OF sa])
  note mg = merge_group_resolved [OF dn u resa wa, of s]
  obtain w1 where m: "merged_weight w dn u (alpha g) s = Inr w1"
  proof (cases "merged_weight w dn u (alpha g) s")
    case (Inl e)
    with mg rest show ?thesis by simp
  next
    case (Inr w1)
    then show ?thesis by (rule that)
  qed
  from merged_weight_returns [OF m] obtain sc r c where
    inner: "ncols u = nrows dn" and sc: "lora_scale (alpha g) (nrows dn) = Inr sc"
    and br: "broadcast_dim (nrows w) (nrows u) = Some r"
    and bc: "broadcast_dim (ncols w) (ncols dn) = Some c"
    by blast
  let ?w1 = "\<lparr>dtype = dtype w, nrows = r, ncols = c,
              cells = tabulate2 r c
                (\<lambda>i j. fadd (format_of (dtype w)) (bcast_at w i j)
                          (lora_delta_spec (dtype w) dn u (alpha g) s i j))\<rparr>"
  have w1: "w1 = ?w1"
    using merged_weight_broadcast [OF inner sc br bc, of s] m by simp
  let ?hb = "ha(cur := (ha cur)\<lparr>linear_weight := Some ?w1\<rparr>)"
  from mg m w1 have g1: "merge_group ha model s (name, g) = (?hb, Applied)" by simp
  with rest have post: "merge_loop ?hb model s post (ka + 1) = (h', Inr k)" by simp
  have sb: "same_structure ha ?hb"
    using wa by (intro same_structure_weight_upd) simp
  have shb: "same_structure h ?hb" using sa sb by (rule same_structure_trans)
  from o2 have "\<forall>e\<in>set post. resolve_path ?hb model (split_dots (fst e)) \<noteq> Inr (Some cur)"
    by (simp add: resolve_path_structure [OF shb])
  from merge_loop_elsewhere [OF this, of s "ka + 1"] post
  have "linear_weight (h' cur) = Some ?w1" and "same_structure ?hb h'" by simp_all
  with shb br bc show ?thesis by (blast intro: same_structure_trans)
qed

text \<open>Adding the same number twice, when the first sum is not rounded.\<close>

lemma fadd_twice:
  assumes "exact_add fmt x y"
  shows "fadd fmt (fadd fmt x y) y = fadd fmt x (twice y)"
proof -
  have fin: "z = Fin q" if "is_finite z" "val z = q" "q \<noteq> 0" for z q
    using that by (cases z) simp_all
  from assms have fx: "is_finite x" and fy: "is_finite y"
    and fz: "is_finite (fadd fmt x y)" and v: "val (fadd fmt x y) = val x + val y"
    by (simp_all add: exact_add_def)
  show ?thesis
  proof (cases x)
    case (Fin a)
    show ?thesis
    proof (cases y)
      case (Fin b)
      have z: "fround fmt (a + b) = Fin (a + b)"
      proof (cases "a + b = 0")
        case True
        then show ?thesis by (simp add: fround_def)
      next
        case False
        from fz v \<open>x = Fin a\<close> Fin have "is_finite (fround fmt (a + b))"
          "val (fround fmt (a + b)) = a + b" by simp_all
        then show ?thesis using False by (rule fin)
      qed
      with \<open>x = Fin a\<close> Fin show ?thesis by (simp add: algebra_simps)
    next
      case NegZero
      have z: "fround fmt a = Fin a"
      proof (cases "a = 0")
        case True
        then show ?thesis by (simp add: fround_def)
      next
        case False
        from fz v \<open>x = Fin a\<close> NegZero have "is_finite (fround fmt a)"
          "val (fround fmt a) = a" by simp_all
        then show ?thesis using False by (rule fin)
      qed
      with \<open>x = Fin a\<close> NegZero show ?thesis by simp
    qed (use fy in simp_all)
  next
    case NegZero
    show ?thesis
    proof (cases y)
      case (Fin b)
      have z: "fround fmt b = Fin b"
      proof (cases "b = 0")
        case True
        then show ?thesis by (simp add: fround_def)
      next
        case False
        from fz v \<open>x = NegZero\<close> Fin have "is_finite (fround fmt b)"
          "val (fround fmt b) = b" by simp_all
        then show ?thesis using False by (rule fin)
      qed
      with \<open>x = NegZero\<close> Fin show ?thesis by simp
    next
      case NegZero
      with \<open>x = NegZero\<close> show ?thesis by simp
    qed (use fy in simp_all)
  qed (use fx in simp_all)
qed

text \<open>The delta at the doubled strength is the doubled delta.\<close>

lemma lora_delta_spec_twice:
  assumes "delta_doubles wd dn u a s i j"
  shows "lora_delta_spec wd dn u a (twice s) i j = twice (lora_delta_spec wd dn u a s i j)"
proof -
  define pd where "pd = result_type (dtype u) (dtype dn)"
  define scale where
    "scale = (case a of None \<Rightarrow> 1
              | Some t \<Rightarrow> fdiv_int (cast binary64 (cell_at t 0 0)) (nrows dn))"
  define product where
    "product = cast (format_of pd)
       (dot (map (\<lambda>k. cell_at u (if nrows u = 1 then 0 else i) k) [0..<nrows dn])
            (map (\<lambda>k. cell_at dn k (if ncols dn = 1 then 0 else j)) [0..<nrows dn]))"
  define f64 where "f64 = fmul binary64 scale s"
  define f32 where "f32 = cast binary32 f64"
  define factor where "factor = cast (format_of pd) f32"
  define d where "d = fmul (format_of pd) product factor"
  from assms have c1: "doubles binary64 (Fin (val scale * val s))"
    and c2: "doubles binary32 f64" and c3: "doubles (format_of pd) f32"
    and c4: "doubles (format_of pd) (Fin (val product * val factor))"
    and c5: "pd = wd \<or> doubles (format_of wd) d"
    unfolding delta_doubles_def Let_def pd_def scale_def product_def f64_def f32_def
      factor_def d_def
    by simp_all
  have s1: "fmul binary64 scale (twice s) = twice f64"
    unfolding f64_def using c1 by (rule fmul_twice)
  have s2: "cast binary32 (twice f64) = twice f32"
    unfolding f32_def using c2 by (rule cast_twice)
  have s3: "cast (format_of pd) (twice f32) = twice factor"
    unfolding factor_def using c3 by (rule cast_twice)
  have s4: "fmul (format_of pd) product (twice factor) = twice d"
    unfolding d_def using c4 by (rule fmul_twice)
  have s5: "cast (format_of wd) (twice d) = twice (cast (format_of wd) d)" if "pd \<noteq> wd"
    using that c5 by (intro cast_twice) simp
  have l: "lora_delta_spec wd dn u a t i j =
             (let e = fmul (format_of pd) product
                        (cast (format_of pd) (cast binary32 (fmul binary64 scale t)))
              in if pd \<noteq> wd then cast (format_of wd) e else e)" for t
    unfolding lora_delta_spec_def Let_def scalar_of_def pd_def scale_def product_def
    by (rule refl)
  show ?thesis
    unfolding l Let_def s1 s2 s3 s4
    unfolding f64_def [symmetric] f32_def [symmetric] factor_def [symmetric] d_def [symmetric]
    using s5 by simp
qed

text \<open>With strength zero, the delta of an entry that is safe at strength 0 is a zero.\<close>

lemma scalar_of_zero: "is_zero z \<Longrightarrow> is_zero (scalar_of d z)"
  by (simp add: scalar_of_def cast_zero)

lemma lora_delta_spec_zero:
  assumes inner: "ncols u = nrows dn"
    and sc: "lora_scale a (nrows dn) = Inr sc" and scf: "is_finite sc"
    and p: "matmul u dn = Inr p" and pf: "list_all (list_all is_finite) (cells p)"
    and z: "is_zero s"
    and i: "(if nrows u = 1 then 0 else i) < nrows u"
    and j: "(if ncols dn = 1 then 0 else j) < ncols dn"
  shows "is_zero (lora_delta_spec wd dn u a s i j)"
proof -
  let ?i = "if nrows u = 1 then 0 else i" and ?j = "if ncols dn = 1 then 0 else j"
  let ?P = "format_of (result_type (dtype u) (dtype dn))"
  from matmul_conform [OF inner] p
  have shape: "nrows p = nrows u" "ncols p = ncols dn" and ws: "well_shaped p"
    and entry: "\<And>i j. i < nrows u \<Longrightarrow> j < ncols dn \<Longrightarrow>
                cell_at p i j =
                  cast ?P (dot (map (\<lambda>k. cell_at u i k) [0..<nrows dn])
                               (map (\<lambda>k. cell_at dn k j) [0..<nrows dn]))"
    by auto
  have ip: "?i < nrows p" "?j < ncols p" using i j shape by simp_all
  have "is_finite (cell_at p ?i ?j)"
    using ws pf ip by (rule cell_at_list_all)
  then have fin: "is_finite (cast ?P (dot (map (\<lambda>k. cell_at u ?i k) [0..<nrows dn])
                               (map (\<lambda>k. cell_at dn k ?j) [0..<nrows dn])))"
    by (simp only: entry [OF i j])
  have scv: "sc = (case a of None \<Rightarrow> 1
                   | Some t \<Rightarrow> fdiv_int (cast binary64 (cell_at t 0 0)) (nrows dn))"
    using sc by (rule lora_scale_value)
  have "is_zero (fmul binary64 sc s)" using scf z by (rule fmul_zero)
  then have fz: "is_zero (scalar_of (result_type (dtype u) (dtype dn)) (fmul binary64 sc s))"
    by (rule scalar_of_zero)
  have d: "is_zero (fmul ?P
             (cast ?P (dot (map (\<lambda>k. cell_at u ?i k) [0..<nrows dn])
                           (map (\<lambda>k. cell_at dn k ?j) [0..<nrows dn])))
             (scalar_of (result_type (dtype u) (dtype dn)) (fmul binary64 sc s)))"
    using fin fz by (rule fmul_zero)
  have either: "is_zero (if c then cast f x else x)" if "is_zero x" for c f x
    using that by (simp add: cast_zero)
  show ?thesis
    unfolding lora_delta_spec_def Let_def scv [symmetric]
    using d by (rule either)
qed

lemma merged_weight_zero:
  assumes wf: "well_formed w"
    and nz: "list_all (list_all (\<lambda>x. x \<noteq> NegZero)) (cells w)"
    and rows: "nrows u = nrows w \<or> nrows u = 1"
    and cols: "ncols dn = ncols w \<or> ncols dn = 1"
    and scf: "\<And>sc. lora_scale a (nrows dn) = Inr sc \<Longrightarrow> is_finite sc"
    and pf: "\<And>p. matmul u dn = Inr p \<Longrightarrow> list_all (list_all is_finite) (cells p)"
    and z: "is_zero s"
    and m: "merged_weight w dn u a s = Inr w'"
  shows "w' = w"
proof -
  from wf have ws: "well_shaped w"
    and fl: "list_all (list_all (is_float (format_of (dtype w)))) (cells w)"
    by (simp_all add: well_formed_def)
  from merged_weight_returns [OF m] obtain sc where
    inner: "ncols u = nrows dn" and sc: "lora_scale a (nrows dn) = Inr sc"
    by blast
  from matmul_conform [OF inner] obtain p where p: "matmul u dn = Inr p" by blast
  have br: "broadcast_dim (nrows w) (nrows u) = Some (nrows w)"
    using rows by (auto simp: broadcast_dim_def)
  have bc: "broadcast_dim (ncols w) (ncols dn) = Some (ncols w)"
    using cols by (auto simp: broadcast_dim_def)
  have "merged_weight w dn u a s =
          Inr \<lparr>dtype = dtype w, nrows = nrows w, ncols = ncols w,
               cells = tabulate2 (nrows w) (ncols w)
                 (\<lambda>i j. fadd (format_of (dtype w)) (bcast_at w i j)
                           (lora_delta_spec (dtype w) dn u a s i j))\<rparr>"
    using inner sc br bc by (rule merged_weight_broadcast)
  also have "tabulate2 (nrows w) (ncols w)
                 (\<lambda>i j. fadd (format_of (dtype w)) (bcast_at w i j)
                           (lora_delta_spec (dtype w) dn u a s i j))
               = tabulate2 (nrows w) (ncols w) (cell_at w)"
  proof (rule tabulate2_cong)
    fix i j
    assume i: "i < nrows w" and j: "j < ncols w"
    have bw: "bcast_at w i j = cell_at w i j" using i j by (rule bcast_at_in_range)
    have isf: "is_float (format_of (dtype w)) (cell_at w i j)"
      using ws fl i j by (rule cell_at_list_all)
    have nn: "cell_at w i j \<noteq> NegZero"
      using cell_at_list_all [OF ws nz i j] .
    have "is_zero (lora_delta_spec (dtype w) dn u a s i j)"
      using inner sc scf [OF sc] p pf [OF p] z
        broadcast_index [OF br i] broadcast_index [OF bc j]
      by (rule lora_delta_spec_zero)
    with isf nn show "fadd (format_of (dtype w)) (bcast_at w i j)
                        (lora_delta_spec (dtype w) dn u a s i j) = cell_at w i j"
      unfolding bw by (intro fadd_zero)
  qed
  also have "\<dots> = cells w" using ws by (rule tabulate2_cells)
  finally have "merged_weight w dn u a s = Inr w" by simp
  with m show ?thesis by simp
qed

lemma merge_group_zero:
  assumes "zero_safe h model entry" and z: "is_zero s"
  shows "fst (merge_group h model s entry) = h"
proof (cases entry)
  case (Pair name g)
  from merge_group_cases [of h model s name g] show ?thesis
  proof (elim disjE exE conjE)
    assume "merge_group h model s (name, g) = (h, Skipped)"
    with Pair show ?thesis by simp
  next
    fix e
    assume "merge_group h model s (name, g) = (h, Raised e)"
    with Pair show ?thesis by simp
  next
    fix dn u cur w w'
    assume dn: "down g = Some dn" and u: "up g = Some u"
      and r: "resolve_path h model (split_dots name) = Inr (Some cur)"
      and w: "linear_weight (h cur) = Some w"
      and m: "merged_weight w dn u (alpha g) s = Inr w'"
      and mg: "merge_group h model s (name, g)
                 = (h(cur := (h cur)\<lparr>linear_weight := Some w'\<rparr>), Applied)"
    from assms(1) Pair dn u r w
    have safe: "well_formed w" "list_all (list_all (\<lambda>x. x \<noteq> NegZero)) (cells w)"
      "nrows u = nrows w \<or> nrows u = 1" "ncols dn = ncols w \<or> ncols dn = 1"
      and scf: "\<And>sc. lora_scale (alpha g) (nrows dn) = Inr sc \<Longrightarrow> is_finite sc"
      and pf: "\<And>p. matmul u dn = Inr p \<Longrightarrow> list_all (list_all is_finite) (cells p)"
      by (simp_all add: zero_safe_def)
    from safe scf pf z m have "w' = w" by (rule merged_weight_zero)
    moreover have "(h cur)\<lparr>linear_weight := Some w\<rparr> = h cur" using w by simp
    ultimately show ?thesis using mg Pair by simp
  qed
qed

lemma merge_loop_zero:
  assumes "list_all (zero_safe h model) entries" and z: "is_zero s"
  shows "fst (merge_loop h model s entries n) = h"
  using assms(1)
proof (induction entries arbitrary: n)
  case Nil
  then show ?case by simp
next
  case (Cons entry entries)
  then have fit: "zero_safe h model entry" and rest: "list_all (zero_safe h model) entries"
    by simp_all
  obtain h' out where mg: "merge_group h model s entry = (h', out)"
    by (cases "merge_group h model s entry")
  with merge_group_zero [OF fit z] have h': "h' = h" by simp
  show ?case
  proof (cases out)
    case Skipped
    with mg h' Cons.IH [OF rest] show ?thesis by simp
  next
    case Applied
    with mg h' Cons.IH [OF rest] show ?thesis by simp
  next
    case (Raised e)
    with mg h' show ?thesis by simp
  qed
qed

section \<open>The example inputs evaluated\<close>

text \<open>Small integers and the other numbers of the examples, as values of the formats.\<close>

lemma fround_numeral:
  "(numeral n :: int) < 2 ^ 24 \<Longrightarrow> fround binary32 (numeral n) = Fin (numeral n)"
  "(numeral n :: int) < 2 ^ 53 \<Longrightarrow> fround binary64 (numeral n) = Fin (numeral n)"
  using fround_int [of "numeral n" 24 127] fround_int [of "numeral n" 53 1023]
  by (simp_all add: binary32_def binary64_def)

lemma fround_zero_one:
  "fround fmt 0 = Fin 0" "fround binary32 1 = Fin 1" "fround binary64 1 = Fin 1"
  using fround_int [of 1 24 127] fround_int [of 1 53 1023]
  by (simp_all add: fround_def binary32_def binary64_def)

lemma fround_examples:
  "fround binary32 (3 / 67108864) = Fin (3 / 67108864)"
  "fround binary32 (3 / 33554432) = Fin (3 / 33554432)"
  "fround binary32 (67108867 / 67108864) = Fin 1"
  "fround binary32 (33554435 / 33554432) = Fin (8388609 / 8388608)"
  "fround binary32 1606938044258990275541962092341162602522202993782792835301376 = PosInf"
proof -
  show "fround binary32 (3 / 67108864) = Fin (3 / 67108864)"
    using fround_dyadic [of 3 24 127 "- 26"] by (simp add: binary32_def)
  show "fround binary32 (3 / 33554432) = Fin (3 / 33554432)"
    using fround_dyadic [of 3 24 127 "- 25"] by (simp add: binary32_def)
  have "fround binary32 (67108867 / 67108864) = round_at binary32 0 (67108867 / 67108864)"
    by (rule fround_eval) simp_all
  then show "fround binary32 (67108867 / 67108864) = Fin 1"
    by (simp add: round_at_def round_half_even_def Let_def binary32_def)
  have "fround binary32 (33554435 / 33554432) = round_at binary32 0 (33554435 / 33554432)"
    by (rule fround_eval) simp_all
  then show "fround binary32 (33554435 / 33554432) = Fin (8388609 / 8388608)"
    by (simp add: round_at_def round_half_even_def Let_def binary32_def)
  have "fround binary32 1606938044258990275541962092341162602522202993782792835301376
          = round_at binary32 200
              1606938044258990275541962092341162602522202993782792835301376"
    by (rule fround_eval) simp_all
  then show "fround binary32 1606938044258990275541962092341162602522202993782792835301376
               = PosInf"
    by (simp add: round_at_def round_half_even_def Let_def binary32_def)
qed

lemma doubles_numeral:
  "(numeral n :: int) < 2 ^ 23 \<Longrightarrow> doubles binary32 (Fin (numeral n))"
  "(numeral n :: int) < 2 ^ 52 \<Longrightarrow> doubles binary64 (Fin (numeral n))"
  "doubles binary32 (Fin 1)" "doubles binary64 (Fin 1)"
  using doubles_int [of "numeral n" 24 127] doubles_int [of "numeral n" 53 1023]
    doubles_int [of 1 24 127] doubles_int [of 1 53 1023]
  by (simp_all add: binary32_def binary64_def del: doubles.simps)

lemmas tensor_eval =
  merged_weight_def lora_scale_def matmul_def dot_def scalar_mul_def scalar_of_def
  astype_def tensor_add_def broadcast_dim_def result_type_def f32_def tabulate2_def
  cell_at_def bcast_at_def fmul_def Let_def upt_rec zero_fval_def one_fval_def
  fround_numeral fround_zero_one fround_examples

text \<open>The merges of the examples.\<close>

lemma example_merged_weight:
  "merged_weight (f32 [[1, 0], [0, 1]]) (f32 [[1, 2]]) (f32 [[1], [3]]) None 1
     = Inr (f32 [[2, 2], [3, 7]])"
  by (simp add: tensor_eval)

lemma example_merged_again:
  "merged_weight (f32 [[2, 2], [3, 7]]) (f32 [[1, 2]]) (f32 [[1], [3]]) None 1
     = Inr (f32 [[3, 4], [6, 13]])"
  by (simp add: tensor_eval)

lemma example_merged_double:
  "merged_weight (f32 [[1, 0], [0, 1]]) (f32 [[1, 2]]) (f32 [[1], [3]]) None (Fin 2)
     = Inr (f32 [[3, 4], [6, 13]])"
  by (simp add: tensor_eval)

lemma tall_merged_weight:
  "merged_weight (f32 [[5]]) (f32 [[1]]) (f32 [[1], [1]]) None 0 = Inr (f32 [[5], [5]])"
  by (simp add: tensor_eval)

lemma wide_merged_weight:
  "merged_weight (f32 [[1, 0], [0, 1]]) (f32 [[1, 2]]) (f32 [[1], [3], [4]]) None 1
     = Inl ValueError"
  by (simp add: tensor_eval)

lemma tiny_merged_weight:
  "merged_weight (f32 [[1]]) (f32 [[3 / 2 ^ 26]]) (f32 [[1]]) None 1 = Inr (f32 [[1]])"
  "merged_weight (f32 [[1]]) (f32 [[3 / 2 ^ 26]]) (f32 [[1]]) None (Fin 2)
     = Inr (f32 [[1 + 1 / 2 ^ 23]])"
  by (simp_all add: tensor_eval)

lemma huge_merged_weight:
  "merged_weight (f32 [[5]]) (f32 [[2 ^ 100]]) (f32 [[2 ^ 100]]) None 0
     = Inr \<lparr>dtype = Float32, nrows = 1, ncols = 1, cells = [[NaN]]\<rparr>"
  by (simp add: tensor_eval)

lemma negative_zero_merged_weight:
  "merged_weight \<lparr>dtype = Float32, nrows = 1, ncols = 1, cells = [[NegZero]]\<rparr>
     (f32 [[1]]) (f32 [[1]]) None 0 = Inr (f32 [[0]])"
  by (simp add: tensor_eval)

text \<open>Grouping and resolution in the examples.\<close>

lemma example_archive_groups:
  "group_weights example_archive =
     [(''transformer_blocks.0.to_q'',
       \<lparr>down = Some (f32 [[1, 2]]), up = Some (f32 [[1], [3]]), alpha = None\<rparr>)]"
  by (simp add: group_weights_def example_archive_def classify_key_def sanitize_key_def
        str_replace_def startswith_def find_alpha_def empty_group_def)

lemma superscript_archive_groups:
  "group_weights superscript_archive =
     [(''transformer_blocks.'' @ [CHR 0xB2] @ ''.to_q'',
       \<lparr>down = Some (f32 [[1, 2]]), up = Some (f32 [[1], [3]]), alpha = None\<rparr>),
      (''transformer_blocks.0.to_q'',
       \<lparr>down = Some (f32 [[1, 2]]), up = Some (f32 [[1], [3]]), alpha = None\<rparr>)]"
  by (simp add: group_weights_def superscript_archive_def example_archive_def
        classify_key_def sanitize_key_def
        str_replace_def startswith_def find_alpha_def empty_group_def)

lemma proj_archive_groups:
  "group_weights (pair_archive ''proj'' dn u) =
     [(''proj'', \<lparr>down = Some dn, up = Some u, alpha = None\<rparr>)]"
  by (simp add: group_weights_def pair_archive_def classify_key_def sanitize_key_def
        str_replace_def startswith_def find_alpha_def empty_group_def)


lemma example_path_resolves:
  "resolve_path example_model 0 (split_dots ''transformer_blocks.0.to_q'') = Inr (Some 3)"
  by (simp add: example_model_def resolve_part_def Let_def isdigit_def py_int_def
        is_digit_char_def is_decimal_char_def plain_object_def)

lemma superscript_path_raises:
  "resolve_path example_model 0
     (split_dots (''transformer_blocks.'' @ [CHR 0xB2] @ ''.to_q'')) = Inl ValueError"
  by (simp add: example_model_def resolve_part_def Let_def isdigit_def py_int_def
        is_digit_char_def is_decimal_char_def plain_object_def)

lemma layer_path_resolves:
  "resolve_path (layer_model ''proj'' w) 0 (split_dots ''proj'') = Inr (Some 1)"
  "resolve_path (layer_model ''alpha_proj'' w) 0 (split_dots ''alpha_proj'') = Inr (Some 1)"
  by (simp_all add: layer_model_def resolve_part_def Let_def)

text \<open>A call on a model with one layer and an archive with one pair for it.\<close>

lemma layer_model_upd:
  "(layer_model name w)(Suc 0 := (layer_model name w (Suc 0))\<lparr>linear_weight := Some w'\<rparr>)
     = layer_model name w'"
  by (rule ext) (simp add: layer_model_def)

lemma apply_to_layer:
  "apply_lora_weights (file_of (pair_archive ''proj'' dn u)) (layer_model ''proj'' w) 0
       ''lora.safetensors'' s
     = (case merged_weight w dn u None s of
          Inl e \<Rightarrow> (layer_model ''proj'' w, Inl e)
        | Inr w' \<Rightarrow> (layer_model ''proj'' w', Inr (Some 1)))"
proof -
  let ?g = "\<lparr>down = Some dn, up = Some u, alpha = None\<rparr>"
  have lw: "linear_weight (layer_model ''proj'' w 1) = Some w" by (simp add: layer_model_def)
  have "merge_group (layer_model ''proj'' w) 0 s (''proj'', ?g) =
          (case merged_weight w dn u (alpha ?g) s of
             Inl e \<Rightarrow> (layer_model ''proj'' w, Raised e)
           | Inr w' \<Rightarrow>
               ((layer_model ''proj'' w)
                  (1 := (layer_model ''proj'' w 1)\<lparr>linear_weight := Some w'\<rparr>), Applied))"
    by (rule merge_group_resolved [OF _ _ layer_path_resolves(1) lw]) simp_all
  then have "merge_loop (layer_model ''proj'' w) 0 s [(''proj'', ?g)] 0 =
          (case merged_weight w dn u None s of
             Inl e \<Rightarrow> (layer_model ''proj'' w, Inl e)
           | Inr w' \<Rightarrow> (layer_model ''proj'' w', Inr 1))"
    by (simp only: merge_loop.simps) (simp add: layer_model_upd split: sum.splits)
  then show ?thesis
    by (simp add: apply_lora_weights_def file_of_def proj_archive_groups split: sum.splits)
qed


lemma example_apply:
  "apply_lora_weights example_files example_model 0 ''lora.safetensors'' s =
     (case merged_weight (f32 [[1, 0], [0, 1]]) (f32 [[1, 2]]) (f32 [[1], [3]]) None s of
        Inl e \<Rightarrow> (example_model, Inl e)
      | Inr w' \<Rightarrow>
          (example_model(3 := (example_model 3)\<lparr>linear_weight := Some w'\<rparr>), Inr (Some 1)))"
proof -
  have w: "linear_weight (example_model 3) = Some (f32 [[1, 0], [0, 1]])"
    by (simp add: example_model_def)
  show ?thesis
    using example_path_resolves w
    by (simp add: apply_lora_weights_def example_files_def example_archive_groups
        split: sum.splits)
qed

section \<open>Properties of the request loop\<close>

lemma print_stdout_fd [simp]: "fd1_to_stderr (print_stdout l st) = fd1_to_stderr st"
  by (simp add: print_stdout_def)

text \<open>While descriptor 1 points at standard error, what is printed goes there.\<close>

lemma library_output_redirected:
  "fd1_to_stderr st \<Longrightarrow>
     stdout_lines (foldl (\<lambda>s l. print_stdout (TextLine l) s) st ls) = stdout_lines st \<and>
     stderr_lines (foldl (\<lambda>s l. print_stdout (TextLine l) s) st ls)
       = stderr_lines st @ map TextLine ls \<and>
     fd1_to_stderr (foldl (\<lambda>s l. print_stdout (TextLine l) s) st ls)"
proof (induction ls arbitrary: st)
  case Nil
  then show ?case by simp
next
  case (Cons l ls)
  have "fd1_to_stderr (print_stdout (TextLine l) st)" using Cons.prems by simp
  from Cons.IH [OF this] Cons.prems show ?case by (simp add: print_stdout_def)
qed

lemma build_kwargs_obj: "\<exists>kwargs. build_kwargs (JObj kv) = Inr kwargs"
  unfolding build_kwargs_def by (simp only: json.case) blast

lemma build_kwargs_raises:
  assumes "build_kwargs params = Inl e"
  shows "\<exists>msg. e = Exception msg"
proof (cases params)
  case (JObj kv)
  with assms build_kwargs_obj [of kv] show ?thesis by auto
qed (use assms in \<open>auto simp: build_kwargs_def\<close>)

text \<open>The state in which the \<^verbatim>\<open>try\<close> block of a generate request ends.\<close>

lemma handle_generate_unfold:
  assumes "attempt_of gen params = (printed, r)"
  shows "handle_generate gen st params =
           (let st1 = foldl (\<lambda>s l. print_stdout (TextLine l) s)
                        (st\<lparr>fd1_to_stderr := True\<rparr>) printed
            in case r of
                 Inr result \<Rightarrow>
                   (print_stdout (JsonLine result) (st1\<lparr>fd1_to_stderr := fd1_to_stderr st\<rparr>),
                    Continue)
               | Inl (Exception msg) \<Rightarrow>
                   (print_stdout (JsonLine (failure_result msg))
                      (st1\<lparr>stderr_lines := stderr_lines st1 @ [Traceback (Exception msg)],
                           fd1_to_stderr := fd1_to_stderr st\<rparr>), Continue)
               | Inl KeyboardInterrupt \<Rightarrow> (st1\<lparr>fd1_to_stderr := fd1_to_stderr st\<rparr>, Break)
               | Inl SystemExit \<Rightarrow> (st1\<lparr>fd1_to_stderr := fd1_to_stderr st\<rparr>, Exit))"
  using assms by (simp add: handle_generate_def Let_def split: sum.splits exc.splits)

lemma handle_generate_result:
  assumes fd: "\<not> fd1_to_stderr st" and a: "attempt_of gen params = (printed, Inr result)"
  shows "\<exists>st'. handle_generate gen st params = (st', Continue) \<and>
              stdout_lines st' = stdout_lines st @ [JsonLine result] \<and>
              stderr_lines st' = stderr_lines st @ map TextLine printed \<and>
              \<not> fd1_to_stderr st'"
proof -
  let ?st1 = "foldl (\<lambda>s l. print_stdout (TextLine l) s) (st\<lparr>fd1_to_stderr := True\<rparr>) printed"
  have r: "stdout_lines ?st1 = stdout_lines st"
    "stderr_lines ?st1 = stderr_lines st @ map TextLine printed"
    using library_output_redirected [of "st\<lparr>fd1_to_stderr := True\<rparr>" printed] by simp_all
  have "handle_generate gen st params =
          (print_stdout (JsonLine result) (?st1\<lparr>fd1_to_stderr := fd1_to_stderr st\<rparr>), Continue)"
    using handle_generate_unfold [OF a, of st] by (simp add: Let_def)
  with fd r show ?thesis by (simp add: print_stdout_def)
qed

lemma handle_generate_exception:
  assumes fd: "\<not> fd1_to_stderr st"
    and a: "attempt_of gen params = (printed, Inl (Exception msg))"
  shows "\<exists>st'. handle_generate gen st params = (st', Continue) \<and>
              stdout_lines st' = stdout_lines st @ [JsonLine (failure_result msg)] \<and>
              stderr_lines st'
                = stderr_lines st @ map TextLine printed @ [Traceback (Exception msg)] \<and>
              \<not> fd1_to_stderr st'"
proof -
  let ?st1 = "foldl (\<lambda>s l. print_stdout (TextLine l) s) (st\<lparr>fd1_to_stderr := True\<rparr>) printed"
  have r: "stdout_lines ?st1 = stdout_lines st"
    "stderr_lines ?st1 = stderr_lines st @ map TextLine printed"
    using library_output_redirected [of "st\<lparr>fd1_to_stderr := True\<rparr>" printed] by simp_all
  have "handle_generate gen st params =
          (print_stdout (JsonLine (failure_result msg))
             (?st1\<lparr>stderr_lines := stderr_lines ?st1 @ [Traceback (Exception msg)],
                   fd1_to_stderr := fd1_to_stderr st\<rparr>), Continue)"
    using handle_generate_unfold [OF a, of st] by (simp add: Let_def)
  with fd r show ?thesis by (simp add: print_stdout_def)
qed

lemma handle_generate_leaves:
  assumes fd: "\<not> fd1_to_stderr st"
    and a: "attempt_of gen params = (printed, Inl e)"
    and e: "e = KeyboardInterrupt \<or> e = SystemExit"
  shows "\<exists>st'. handle_generate gen st params
                 = (st', if e = KeyboardInterrupt then Break else Exit) \<and>
              stdout_lines st' = stdout_lines st \<and>
              stderr_lines st' = stderr_lines st @ map TextLine printed \<and>
              \<not> fd1_to_stderr st'"
proof -
  let ?st1 = "foldl (\<lambda>s l. print_stdout (TextLine l) s) (st\<lparr>fd1_to_stderr := True\<rparr>) printed"
  have r: "stdout_lines ?st1 = stdout_lines st"
    "stderr_lines ?st1 = stderr_lines st @ map TextLine printed"
    using library_output_redirected [of "st\<lparr>fd1_to_stderr := True\<rparr>" printed] by simp_all
  have "handle_generate gen st params =
          (?st1\<lparr>fd1_to_stderr := fd1_to_stderr st\<rparr>,
           if e = KeyboardInterrupt then Break else Exit)"
    using handle_generate_unfold [OF a, of st] e by (auto simp: Let_def)
  with fd r show ?thesis by simp
qed

lemma handle_generate_restores:
  "fd1_to_stderr (fst (handle_generate gen st params)) = fd1_to_stderr st"
  by (simp add: handle_generate_def Let_def split: sum.splits exc.splits)

lemma handle_line_restores:
  "fd1_to_stderr (fst (handle_line gen st line)) = fd1_to_stderr st"
  by (simp add: handle_line_def Let_def handle_generate_restores log_err_def
        split: input_line.splits json.splits)

section \<open>The claims\<close>

subsection \<open>C1: the merge is additive\<close>

text \<open>
  C1 as stated covers every resolved linear layer with a complete group and
  speaks of the sums \<open>weight + delta\<close> and \<open>weight + 2 * delta\<close>.  Two things
  stand against it.  A complete group on a resolved layer can make the call
  raise, so that nothing is added: the adapter below has an \<^verbatim>\<open>up\<close> of three rows
  for a \<open>2 \<times> 2\<close> weight.  And the sums are floating-point sums: for the float32
  weight \<open>1\<close> and the delta \<open>3 / 2 ^ 26\<close>, one application leaves the weight at
  \<open>1\<close> and so does the second, while one application at strength 2 gives
  \<open>1 + 1 / 2 ^ 23\<close>; after two applications the effect is neither doubled nor
  that of the doubled strength.
\<close>

theorem merge_raises_or_rounds:
  "apply_lora_weights
      (file_of (pair_archive ''proj'' (f32 [[1, 2]]) (f32 [[1], [3], [4]])))
      (layer_model ''proj'' (f32 [[1, 0], [0, 1]])) 0 ''lora.safetensors'' 1
     = (layer_model ''proj'' (f32 [[1, 0], [0, 1]]), Inl ValueError) \<and>
   apply_lora_weights (file_of (pair_archive ''proj'' (f32 [[3 / 2 ^ 26]]) (f32 [[1]])))
      (layer_model ''proj'' (f32 [[1]])) 0 ''lora.safetensors'' 1
     = (layer_model ''proj'' (f32 [[1]]), Inr (Some 1)) \<and>
   lora_delta_spec Float32 (f32 [[3 / 2 ^ 26]]) (f32 [[1]]) None 1 0 0 = Fin (3 / 2 ^ 26) \<and>
   apply_lora_weights (file_of (pair_archive ''proj'' (f32 [[3 / 2 ^ 26]]) (f32 [[1]])))
      (layer_model ''proj'' (f32 [[1]])) 0 ''lora.safetensors'' (Fin 2)
     = (layer_model ''proj'' (f32 [[1 + 1 / 2 ^ 23]]), Inr (Some 1)) \<and>
   f32 [[1 + 1 / 2 ^ 23]] \<noteq> f32 [[1]]"
proof -
  have d: "lora_delta_spec Float32 (f32 [[3 / 2 ^ 26]]) (f32 [[1]]) None 1 0 0
             = Fin (3 / 2 ^ 26)"
    by (simp add: lora_delta_spec_def tensor_eval)
  have n: "f32 [[1 + 1 / 2 ^ 23]] \<noteq> f32 [[1]]" by (simp add: f32_def)
  have a: "apply_lora_weights
              (file_of (pair_archive ''proj'' (f32 [[1, 2]]) (f32 [[1], [3], [4]])))
              (layer_model ''proj'' (f32 [[1, 0], [0, 1]])) 0 ''lora.safetensors'' 1
             = (layer_model ''proj'' (f32 [[1, 0], [0, 1]]), Inl ValueError)"
    unfolding apply_to_layer wide_merged_weight by simp
  have b: "apply_lora_weights
              (file_of (pair_archive ''proj'' (f32 [[3 / 2 ^ 26]]) (f32 [[1]])))
              (layer_model ''proj'' (f32 [[1]])) 0 ''lora.safetensors'' 1
             = (layer_model ''proj'' (f32 [[1]]), Inr (Some 1))"
    unfolding apply_to_layer tiny_merged_weight by simp
  have c: "apply_lora_weights
              (file_of (pair_archive ''proj'' (f32 [[3 / 2 ^ 26]]) (f32 [[1]])))
              (layer_model ''proj'' (f32 [[1]])) 0 ''lora.safetensors'' (Fin 2)
             = (layer_model ''proj'' (f32 [[1 + 1 / 2 ^ 23]]), Inr (Some 1))"
    unfolding apply_to_layer tiny_merged_weight by simp
  from a b d c n show ?thesis by (intro conjI)
qed

text \<open>
  C1 (amended): take a call of \<^verbatim>\<open>apply_lora_weights\<close> at strength \<open>s\<close> that returns
  normally, a group of the file that has \<^verbatim>\<open>down\<close> and \<^verbatim>\<open>up\<close> and whose path
  resolves to a linear layer, and let no other group of the file resolve to
  that layer.  Then the shapes of the weight and of \<^verbatim>\<open>up @ down\<close> broadcast
  together, and the call replaces the weight \<open>w\<close> of the layer by the
  floating-point sum \<open>w + delta\<close> in the dtype of \<open>w\<close>, where \<open>delta\<close> is
  \<^verbatim>\<open>(up @ down) * ((alpha / rank if alpha present else 1.0) * s)\<close>, computed in
  floating point and converted to the dtype of the weight (\<open>lora_delta_spec\<close>).
  A second call at strength \<open>s\<close> that returns normally adds the same delta
  again: the weight is \<open>(w + delta) + delta\<close>, so the merge is not idempotent.
  Where the first sum is not rounded this is \<open>w + 2 * delta\<close>, rounded once;
  and then it is also the weight that one call at strength \<open>2 * s\<close> leaves,
  with or without alpha, provided that no number rounded while the delta is
  computed from \<^verbatim>\<open>up @ down\<close> is below the smallest normal number of its format
  at strength \<open>s\<close> or overflows at strength \<open>2 * s\<close> (\<open>delta_doubles\<close>).
\<close>

theorem lora_merge_adds_delta:
  assumes archive: "fs lora_path = Some (Archive lw)"
    and groups: "group_weights lw = pre @ (name, g) # post"
    and dn: "down g = Some dn" and u: "up g = Some u"
    and res: "resolve_path h model (split_dots name) = Inr (Some cur)"
    and w: "linear_weight (h cur) = Some w"
    and others: "\<forall>e\<in>set (pre @ post).
                   resolve_path h model (split_dots (fst e)) \<noteq> Inr (Some cur)"
    and ret1: "apply_lora_weights fs h model lora_path s = (h1, Inr n1)"
    and ret2: "apply_lora_weights fs h1 model lora_path s = (h2, Inr n2)"
  shows "\<exists>r c w1 w2.
           broadcast_dim (nrows w) (nrows u) = Some r \<and>
           broadcast_dim (ncols w) (ncols dn) = Some c \<and>
           linear_weight (h1 cur) = Some w1 \<and>
           dtype w1 = dtype w \<and> nrows w1 = r \<and> ncols w1 = c \<and>
           (\<forall>i<r. \<forall>j<c.
              cell_at w1 i j =
                fadd (format_of (dtype w)) (bcast_at w i j)
                  (lora_delta_spec (dtype w) dn u (alpha g) s i j)) \<and>
           linear_weight (h2 cur) = Some w2 \<and>
           dtype w2 = dtype w \<and> nrows w2 = r \<and> ncols w2 = c \<and>
           (\<forall>i<r. \<forall>j<c.
              cell_at w2 i j =
                fadd (format_of (dtype w))
                  (fadd (format_of (dtype w)) (bcast_at w i j)
                     (lora_delta_spec (dtype w) dn u (alpha g) s i j))
                  (lora_delta_spec (dtype w) dn u (alpha g) s i j)) \<and>
           ((\<forall>i<r. \<forall>j<c.
               exact_add (format_of (dtype w)) (bcast_at w i j)
                 (lora_delta_spec (dtype w) dn u (alpha g) s i j)) \<longrightarrow>
            (\<forall>i<r. \<forall>j<c.
               cell_at w2 i j =
                 fadd (format_of (dtype w)) (bcast_at w i j)
                   (twice (lora_delta_spec (dtype w) dn u (alpha g) s i j))) \<and>
            (\<forall>h3 n3.
               apply_lora_weights fs h model lora_path (twice s) = (h3, Inr n3) \<and>
               (\<forall>i<r. \<forall>j<c. delta_doubles (dtype w) dn u (alpha g) s i j) \<longrightarrow>
               linear_weight (h3 cur) = Some w2))"
proof -
  let ?F = "format_of (dtype w)"
  let ?d = "\<lambda>t i j. lora_delta_spec (dtype w) dn u (alpha g) t i j"
  have loop: "\<exists>k. merge_loop x model t (pre @ (name, g) # post) 0 = (y, Inr k)"
    if "apply_lora_weights fs x model lora_path t = (y, Inr n)" for x y t n
    using that archive groups
    by (auto simp: apply_lora_weights_def split: prod.splits sum.splits)
  from loop [OF ret1] obtain k1 where
    l1: "merge_loop h model s (pre @ (name, g) # post) 0 = (h1, Inr k1)" by blast
  from merge_loop_hit [OF dn u res w others l1] obtain r c where
    br: "broadcast_dim (nrows w) (nrows u) = Some r"
    and bc: "broadcast_dim (ncols w) (ncols dn) = Some c"
    and lw1: "linear_weight (h1 cur) =
                Some \<lparr>dtype = dtype w, nrows = r, ncols = c,
                      cells = tabulate2 r c
                        (\<lambda>i j. fadd ?F (bcast_at w i j) (?d s i j))\<rparr>"
    and st1: "same_structure h h1"
    by blast
  let ?w1 = "\<lparr>dtype = dtype w, nrows = r, ncols = c,
              cells = tabulate2 r c (\<lambda>i j. fadd ?F (bcast_at w i j) (?d s i j))\<rparr>"
  have c1: "cell_at ?w1 i j = fadd ?F (bcast_at w i j) (?d s i j)"
    if "i < r" "j < c" for i j
    using that by (simp add: cell_at_def tabulate2_nth)
  have b1: "bcast_at ?w1 i j = fadd ?F (bcast_at w i j) (?d s i j)"
    if "i < r" "j < c" for i j
  proof -
    have "bcast_at ?w1 i j = cell_at ?w1 i j"
      using that by (intro bcast_at_in_range) simp_all
    with c1 [OF that] show ?thesis by simp
  qed
  from loop [OF ret2] obtain k2 where
    l2: "merge_loop h1 model s (pre @ (name, g) # post) 0 = (h2, Inr k2)" by blast
  have res1: "resolve_path h1 model (split_dots name) = Inr (Some cur)"
    using res by (simp add: resolve_path_structure [OF st1])
  have others1: "\<forall>e\<in>set (pre @ post).
                   resolve_path h1 model (split_dots (fst e)) \<noteq> Inr (Some cur)"
    using others by (simp add: resolve_path_structure [OF st1])
  from merge_loop_hit [OF dn u res1 lw1 others1 l2] obtain r' c' where
    br': "broadcast_dim (nrows ?w1) (nrows u) = Some r'"
    and bc': "broadcast_dim (ncols ?w1) (ncols dn) = Some c'"
    and lw2: "linear_weight (h2 cur) =
                Some \<lparr>dtype = dtype ?w1, nrows = r', ncols = c',
                      cells = tabulate2 r' c'
                        (\<lambda>i j. fadd (format_of (dtype ?w1)) (bcast_at ?w1 i j)
                                  (lora_delta_spec (dtype ?w1) dn u (alpha g) s i j))\<rparr>"
    by blast
  from br' broadcast_dim_again [OF br] have r': "r' = r" by simp
  from bc' broadcast_dim_again [OF bc] have c': "c' = c" by simp
  let ?w2 = "\<lparr>dtype = dtype w, nrows = r, ncols = c,
              cells = tabulate2 r c
                (\<lambda>i j. fadd ?F (fadd ?F (bcast_at w i j) (?d s i j)) (?d s i j))\<rparr>"
  have "tabulate2 r c (\<lambda>i j. fadd ?F (bcast_at ?w1 i j) (?d s i j))
          = tabulate2 r c (\<lambda>i j. fadd ?F (fadd ?F (bcast_at w i j) (?d s i j)) (?d s i j))"
    by (rule tabulate2_cong) (simp only: b1)
  with lw2 r' c' have lw2': "linear_weight (h2 cur) = Some ?w2" by simp
  have c2: "cell_at ?w2 i j = fadd ?F (fadd ?F (bcast_at w i j) (?d s i j)) (?d s i j)"
    if "i < r" "j < c" for i j
    using that by (simp add: cell_at_def tabulate2_nth)
  have exact:
    "(\<forall>i<r. \<forall>j<c. cell_at ?w2 i j = fadd ?F (bcast_at w i j) (twice (?d s i j))) \<and>
     (\<forall>h3 n3.
        apply_lora_weights fs h model lora_path (twice s) = (h3, Inr n3) \<and>
        (\<forall>i<r. \<forall>j<c. delta_doubles (dtype w) dn u (alpha g) s i j) \<longrightarrow>
        linear_weight (h3 cur) = Some ?w2)"
    if ex: "\<forall>i<r. \<forall>j<c. exact_add ?F (bcast_at w i j) (?d s i j)"
  proof (intro conjI allI impI)
    fix i j
    assume ij: "i < r" "j < c"
    with ex have "exact_add ?F (bcast_at w i j) (?d s i j)" by simp
    then have "fadd ?F (fadd ?F (bcast_at w i j) (?d s i j)) (?d s i j)
                 = fadd ?F (bcast_at w i j) (twice (?d s i j))"
      by (rule fadd_twice)
    with c2 [OF ij] show "cell_at ?w2 i j = fadd ?F (bcast_at w i j) (twice (?d s i j))"
      by simp
  next
    fix h3 n3
    assume a: "apply_lora_weights fs h model lora_path (twice s) = (h3, Inr n3) \<and>
               (\<forall>i<r. \<forall>j<c. delta_doubles (dtype w) dn u (alpha g) s i j)"
    then have ret3: "apply_lora_weights fs h model lora_path (twice s) = (h3, Inr n3)"
      and dd: "\<forall>i<r. \<forall>j<c. delta_doubles (dtype w) dn u (alpha g) s i j"
      by simp_all
    have dbl: "\<forall>i<r. \<forall>j<c. ?d (twice s) i j = twice (?d s i j)"
      using dd by (simp add: lora_delta_spec_twice)
    from loop [OF ret3] obtain k3 where
      l3: "merge_loop h model (twice s) (pre @ (name, g) # post) 0 = (h3, Inr k3)" by blast
    from merge_loop_hit [OF dn u res w others l3] br bc
    have lw3: "linear_weight (h3 cur) =
                Some \<lparr>dtype = dtype w, nrows = r, ncols = c,
                      cells = tabulate2 r c
                        (\<lambda>i j. fadd ?F (bcast_at w i j) (?d (twice s) i j))\<rparr>"
      by auto
    have "tabulate2 r c (\<lambda>i j. fadd ?F (bcast_at w i j) (?d (twice s) i j))
            = tabulate2 r c
                (\<lambda>i j. fadd ?F (fadd ?F (bcast_at w i j) (?d s i j)) (?d s i j))"
    proof (rule tabulate2_cong)
      fix i j
      assume ij: "i < r" "j < c"
      with ex have "exact_add ?F (bcast_at w i j) (?d s i j)" by simp
      then have "fadd ?F (fadd ?F (bcast_at w i j) (?d s i j)) (?d s i j)
                   = fadd ?F (bcast_at w i j) (twice (?d s i j))"
        by (rule fadd_twice)
      with dbl ij show "fadd ?F (bcast_at w i j) (?d (twice s) i j)
                          = fadd ?F (fadd ?F (bcast_at w i j) (?d s i j)) (?d s i j)"
        by simp
    qed
    with lw3 show "linear_weight (h3 cur) = Some ?w2" by simp
  qed
  show ?thesis
  proof (intro exI conjI)
    show "broadcast_dim (nrows w) (nrows u) = Some r" by (rule br)
    show "broadcast_dim (ncols w) (ncols dn) = Some c" by (rule bc)
    show "linear_weight (h1 cur) = Some ?w1" by (rule lw1)
    show "dtype ?w1 = dtype w" "nrows ?w1 = r" "ncols ?w1 = c" by simp_all
    show "\<forall>i<r. \<forall>j<c. cell_at ?w1 i j = fadd ?F (bcast_at w i j) (?d s i j)"
      using c1 by blast
    show "linear_weight (h2 cur) = Some ?w2" by (rule lw2')
    show "dtype ?w2 = dtype w" "nrows ?w2 = r" "ncols ?w2 = c" by simp_all
    show "\<forall>i<r. \<forall>j<c.
            cell_at ?w2 i j = fadd ?F (fadd ?F (bcast_at w i j) (?d s i j)) (?d s i j)"
      using c2 by blast
    show "(\<forall>i<r. \<forall>j<c. exact_add ?F (bcast_at w i j) (?d s i j)) \<longrightarrow>
          (\<forall>i<r. \<forall>j<c. cell_at ?w2 i j = fadd ?F (bcast_at w i j) (twice (?d s i j))) \<and>
          (\<forall>h3 n3.
             apply_lora_weights fs h model lora_path (twice s) = (h3, Inr n3) \<and>
             (\<forall>i<r. \<forall>j<c. delta_doubles (dtype w) dn u (alpha g) s i j) \<longrightarrow>
             linear_weight (h3 cur) = Some ?w2)"
      using exact by blast
  qed
qed

text \<open>
  The theorem at a model with one layer \<^verbatim>\<open>proj\<close> holding the \<open>2 \<times> 2\<close> identity
  and a rank-1 adapter for it: the deltas are \<open>[[1, 2], [3, 6]]\<close>, no sum is
  rounded, every number rounded on the way is a small integer, and two calls
  at strength 1 leave the weight that one call at strength 2 leaves,
  \<open>[[3, 4], [6, 13]]\<close>.
\<close>

theorem lora_merge_adds_delta_witness:
  "file_of (pair_archive ''proj'' (f32 [[1, 2]]) (f32 [[1], [3]])) ''lora.safetensors''
     = Some (Archive (pair_archive ''proj'' (f32 [[1, 2]]) (f32 [[1], [3]]))) \<and>
   group_weights (pair_archive ''proj'' (f32 [[1, 2]]) (f32 [[1], [3]]))
     = [] @ (''proj'', \<lparr>down = Some (f32 [[1, 2]]), up = Some (f32 [[1], [3]]),
                          alpha = None\<rparr>) # [] \<and>
   resolve_path (layer_model ''proj'' (f32 [[1, 0], [0, 1]])) 0 (split_dots ''proj'')
     = Inr (Some 1) \<and>
   linear_weight (layer_model ''proj'' (f32 [[1, 0], [0, 1]]) 1)
     = Some (f32 [[1, 0], [0, 1]]) \<and>
   apply_lora_weights (file_of (pair_archive ''proj'' (f32 [[1, 2]]) (f32 [[1], [3]])))
       (layer_model ''proj'' (f32 [[1, 0], [0, 1]])) 0 ''lora.safetensors'' 1
     = (layer_model ''proj'' (f32 [[2, 2], [3, 7]]), Inr (Some 1)) \<and>
   apply_lora_weights (file_of (pair_archive ''proj'' (f32 [[1, 2]]) (f32 [[1], [3]])))
       (layer_model ''proj'' (f32 [[2, 2], [3, 7]])) 0 ''lora.safetensors'' 1
     = (layer_model ''proj'' (f32 [[3, 4], [6, 13]]), Inr (Some 1)) \<and>
   apply_lora_weights (file_of (pair_archive ''proj'' (f32 [[1, 2]]) (f32 [[1], [3]])))
       (layer_model ''proj'' (f32 [[1, 0], [0, 1]])) 0 ''lora.safetensors'' (twice 1)
     = (layer_model ''proj'' (f32 [[3, 4], [6, 13]]), Inr (Some 1)) \<and>
   map (\<lambda>(i, j). lora_delta_spec Float32 (f32 [[1, 2]]) (f32 [[1], [3]]) None 1 i j)
       [(0, 0), (0, 1), (1, 0), (1, 1)] = [Fin 1, Fin 2, Fin 3, Fin 6] \<and>
   list_all (\<lambda>(i, j).
        exact_add binary32 (bcast_at (f32 [[1, 0], [0, 1]]) i j)
          (lora_delta_spec Float32 (f32 [[1, 2]]) (f32 [[1], [3]]) None 1 i j) \<and>
        delta_doubles Float32 (f32 [[1, 2]]) (f32 [[1], [3]]) None 1 i j)
     [(0, 0), (0, 1), (1, 0), (1, 1)] \<and>
   (\<exists>w1 w2.
      linear_weight (layer_model ''proj'' (f32 [[2, 2], [3, 7]]) 1) = Some w1 \<and>
      linear_weight (layer_model ''proj'' (f32 [[3, 4], [6, 13]]) 1) = Some w2 \<and>
      list_all (\<lambda>(i, j).
          cell_at w1 i j =
            fadd binary32 (bcast_at (f32 [[1, 0], [0, 1]]) i j)
              (lora_delta_spec Float32 (f32 [[1, 2]]) (f32 [[1], [3]]) None 1 i j) \<and>
          cell_at w2 i j =
            fadd binary32 (bcast_at (f32 [[1, 0], [0, 1]]) i j)
              (twice (lora_delta_spec Float32 (f32 [[1, 2]]) (f32 [[1], [3]]) None 1 i j)))
        [(0, 0), (0, 1), (1, 0), (1, 1)])"
proof -
  let ?dn = "f32 [[1, 2]]"
  let ?u = "f32 [[1], [3]]"
  let ?A = "pair_archive ''proj'' ?dn ?u"
  let ?G = "\<lparr>down = Some ?dn, up = Some ?u, alpha = None\<rparr>"
  let ?W0 = "f32 [[1, 0], [0, 1]]"
  let ?W1 = "f32 [[2, 2], [3, 7]]"
  let ?W2 = "f32 [[3, 4], [6, 13]]"
  let ?d = "lora_delta_spec Float32 ?dn ?u None"
  have f: "file_of ?A ''lora.safetensors'' = Some (Archive ?A)" by (simp add: file_of_def)
  have g: "group_weights ?A = [] @ (''proj'', ?G) # []" by (simp add: proj_archive_groups)
  have dn: "down ?G = Some ?dn" and u: "up ?G = Some ?u" by simp_all
  have res: "resolve_path (layer_model ''proj'' ?W0) 0 (split_dots ''proj'') = Inr (Some 1)"
    by (rule layer_path_resolves)
  have w: "linear_weight (layer_model ''proj'' ?W0 1) = Some ?W0"
    by (simp add: layer_model_def)
  have o: "\<forall>e\<in>set ([] @ []).
             resolve_path (layer_model ''proj'' ?W0) 0 (split_dots (fst e)) \<noteq> Inr (Some 1)"
    by simp
  have r1: "apply_lora_weights (file_of ?A) (layer_model ''proj'' ?W0) 0 ''lora.safetensors'' 1
              = (layer_model ''proj'' ?W1, Inr (Some 1))"
    unfolding apply_to_layer example_merged_weight by simp
  have r2: "apply_lora_weights (file_of ?A) (layer_model ''proj'' ?W1) 0 ''lora.safetensors'' 1
              = (layer_model ''proj'' ?W2, Inr (Some 1))"
    unfolding apply_to_layer example_merged_again by simp
  have t1: "twice 1 = Fin 2" by (simp add: one_fval_def)
  have r3: "apply_lora_weights (file_of ?A) (layer_model ''proj'' ?W0) 0 ''lora.safetensors''
                (twice 1)
              = (layer_model ''proj'' ?W2, Inr (Some 1))"
    unfolding t1 apply_to_layer example_merged_double by simp
  have d1: "?d 1 0 0 = Fin 1" "?d 1 0 1 = Fin 2" "?d 1 1 0 = Fin 3" "?d 1 1 1 = Fin 6"
    by (simp_all add: lora_delta_spec_def tensor_eval)
  have d2: "delta_doubles Float32 ?dn ?u None 1 0 0" "delta_doubles Float32 ?dn ?u None 1 0 1"
    "delta_doubles Float32 ?dn ?u None 1 1 0" "delta_doubles Float32 ?dn ?u None 1 1 1"
    by (simp_all add: delta_doubles_def tensor_eval doubles_numeral del: doubles.simps)
  have b: "bcast_at ?W0 0 0 = Fin 1" "bcast_at ?W0 0 1 = Fin 0" "bcast_at ?W0 1 0 = Fin 0"
    "bcast_at ?W0 1 1 = Fin 1"
    by (simp_all add: bcast_at_def cell_at_def f32_def)
  have e: "exact_add binary32 (Fin 1) (Fin 1)" "exact_add binary32 (Fin 0) (Fin 2)"
    "exact_add binary32 (Fin 0) (Fin 3)" "exact_add binary32 (Fin 1) (Fin 6)"
    by (simp_all add: exact_add_def fround_numeral)
  have cases: "P 0 0 \<Longrightarrow> P 0 1 \<Longrightarrow> P 1 0 \<Longrightarrow> P 1 1 \<Longrightarrow> \<forall>i<2. \<forall>j<2. P i j"
    for P :: "nat \<Rightarrow> nat \<Rightarrow> bool"
    by (auto dest!: less_2_cases)
  have pick: "\<forall>i<2. \<forall>j<2. P i j \<Longrightarrow>
                list_all (\<lambda>(i, j). P i j) [(0, 0), (0, 1), (1, 0), (1, 1)]"
    for P :: "nat \<Rightarrow> nat \<Rightarrow> bool"
    by auto
  have ex: "\<forall>i<2. \<forall>j<2. exact_add binary32 (bcast_at ?W0 i j) (?d 1 i j)"
    by (rule cases) (simp_all only: d1 b e)
  have dbl: "\<forall>i<2. \<forall>j<2. delta_doubles Float32 ?dn ?u None 1 i j"
    by (rule cases) (rule d2)+
  from lora_merge_adds_delta [OF f g dn u res w o r1 r2]
  obtain r c w1 w2 where
    br: "broadcast_dim (nrows ?W0) (nrows ?u) = Some r"
    and bc: "broadcast_dim (ncols ?W0) (ncols ?dn) = Some c"
    and l1: "linear_weight (layer_model ''proj'' ?W1 1) = Some w1"
    and c1: "\<forall>i<r. \<forall>j<c. cell_at w1 i j =
               fadd (format_of (dtype ?W0)) (bcast_at ?W0 i j)
                 (lora_delta_spec (dtype ?W0) ?dn ?u (alpha ?G) 1 i j)"
    and l2: "linear_weight (layer_model ''proj'' ?W2 1) = Some w2"
    and tw: "(\<forall>i<r. \<forall>j<c. exact_add (format_of (dtype ?W0)) (bcast_at ?W0 i j)
                 (lora_delta_spec (dtype ?W0) ?dn ?u (alpha ?G) 1 i j)) \<longrightarrow>
             (\<forall>i<r. \<forall>j<c. cell_at w2 i j =
                 fadd (format_of (dtype ?W0)) (bcast_at ?W0 i j)
                   (twice (lora_delta_spec (dtype ?W0) ?dn ?u (alpha ?G) 1 i j))) \<and>
             (\<forall>h3 n3.
                apply_lora_weights (file_of ?A) (layer_model ''proj'' ?W0) 0
                    ''lora.safetensors'' (twice 1) = (h3, Inr n3) \<and>
                (\<forall>i<r. \<forall>j<c. delta_doubles (dtype ?W0) ?dn ?u (alpha ?G) 1 i j) \<longrightarrow>
                linear_weight (h3 1) = Some w2)"
    by blast
  have r: "r = 2" and c: "c = 2"
    using br bc by (simp_all add: broadcast_dim_def f32_def)
  have ty: "dtype ?W0 = Float32" "alpha ?G = None" "format_of Float32 = binary32"
    by (simp_all add: f32_def)
  from c1 have c1': "\<forall>i<2. \<forall>j<2. cell_at w1 i j = fadd binary32 (bcast_at ?W0 i j) (?d 1 i j)"
    unfolding r c ty .
  from tw ex have c2': "\<forall>i<2. \<forall>j<2. cell_at w2 i j
                          = fadd binary32 (bcast_at ?W0 i j) (twice (?d 1 i j))"
    unfolding r c ty by blast
  from tw ex dbl r3 have l3: "linear_weight (layer_model ''proj'' ?W2 1) = Some w2"
    unfolding r c ty by blast
  have last: "list_all (\<lambda>(i, j).
          cell_at w1 i j = fadd binary32 (bcast_at ?W0 i j) (?d 1 i j) \<and>
          cell_at w2 i j = fadd binary32 (bcast_at ?W0 i j) (twice (?d 1 i j)))
        [(0, 0), (0, 1), (1, 0), (1, 1)]"
    using c1' c2' by (intro pick) blast
  have deltas: "map (\<lambda>(i, j). ?d 1 i j) [(0, 0), (0, 1), (1, 0), (1, 1)]
                  = [Fin 1, Fin 2, Fin 3, Fin 6]"
    by (simp only: list.map prod.case d1)
  have exact: "list_all (\<lambda>(i, j).
        exact_add binary32 (bcast_at ?W0 i j) (?d 1 i j) \<and>
        delta_doubles Float32 ?dn ?u None 1 i j) [(0, 0), (0, 1), (1, 0), (1, 1)]"
    using ex dbl by (intro pick) blast
  from l1 l3 last have fin: "\<exists>w1 w2.
      linear_weight (layer_model ''proj'' ?W1 1) = Some w1 \<and>
      linear_weight (layer_model ''proj'' ?W2 1) = Some w2 \<and>
      list_all (\<lambda>(i, j).
          cell_at w1 i j = fadd binary32 (bcast_at ?W0 i j) (?d 1 i j) \<and>
          cell_at w2 i j = fadd binary32 (bcast_at ?W0 i j) (twice (?d 1 i j)))
        [(0, 0), (0, 1), (1, 0), (1, 1)]"
    by blast
  from f g res w r1 r2 r3 deltas exact fin show ?thesis by (intro conjI)
qed

subsection \<open>C2: strength 0\<close>

text \<open>
  C2 as stated covers every model and every adapter file.  Three calls at
  strength 0 change a weight.  The sum \<^verbatim>\<open>curr.weight + delta\<close> broadcasts: for a
  \<open>1 \<times> 1\<close> weight and an \<^verbatim>\<open>up\<close> of two rows the weight becomes the \<open>2 \<times> 1\<close>
  tensor that repeats the old entry.  The product \<^verbatim>\<open>up @ down\<close> can overflow:
  \<open>2 ^ 100 * 2 ^ 100\<close> is infinite in float32, infinity times 0 is NaN, and the
  weight 5 becomes NaN.  And a weight \<open>-0.0\<close> becomes \<open>+0.0\<close>, which is another
  bit pattern.
\<close>

theorem strength_zero_changes_weight:
  "apply_lora_weights (file_of (pair_archive ''proj'' (f32 [[1]]) (f32 [[1], [1]])))
       (layer_model ''proj'' (f32 [[5]])) 0 ''lora.safetensors'' 0
     = (layer_model ''proj'' (f32 [[5], [5]]), Inr (Some 1)) \<and>
   f32 [[5], [5]] \<noteq> f32 [[5]] \<and>
   apply_lora_weights (file_of (pair_archive ''proj'' (f32 [[2 ^ 100]]) (f32 [[2 ^ 100]])))
       (layer_model ''proj'' (f32 [[5]])) 0 ''lora.safetensors'' 0
     = (layer_model ''proj'' \<lparr>dtype = Float32, nrows = 1, ncols = 1, cells = [[NaN]]\<rparr>,
        Inr (Some 1)) \<and>
   \<lparr>dtype = Float32, nrows = 1, ncols = 1, cells = [[NaN]]\<rparr> \<noteq> f32 [[5]] \<and>
   apply_lora_weights (file_of (pair_archive ''proj'' (f32 [[1]]) (f32 [[1]])))
       (layer_model ''proj'' \<lparr>dtype = Float32, nrows = 1, ncols = 1, cells = [[NegZero]]\<rparr>)
       0 ''lora.safetensors'' 0
     = (layer_model ''proj'' (f32 [[0]]), Inr (Some 1)) \<and>
   f32 [[0]] \<noteq> \<lparr>dtype = Float32, nrows = 1, ncols = 1, cells = [[NegZero]]\<rparr>"
proof -
  have a: "apply_lora_weights (file_of (pair_archive ''proj'' (f32 [[1]]) (f32 [[1], [1]])))
             (layer_model ''proj'' (f32 [[5]])) 0 ''lora.safetensors'' 0
           = (layer_model ''proj'' (f32 [[5], [5]]), Inr (Some 1))"
    unfolding apply_to_layer tall_merged_weight by simp
  have b: "apply_lora_weights
             (file_of (pair_archive ''proj'' (f32 [[2 ^ 100]]) (f32 [[2 ^ 100]])))
             (layer_model ''proj'' (f32 [[5]])) 0 ''lora.safetensors'' 0
           = (layer_model ''proj'' \<lparr>dtype = Float32, nrows = 1, ncols = 1, cells = [[NaN]]\<rparr>,
              Inr (Some 1))"
    unfolding apply_to_layer huge_merged_weight by simp
  have c: "apply_lora_weights (file_of (pair_archive ''proj'' (f32 [[1]]) (f32 [[1]])))
             (layer_model ''proj''
                \<lparr>dtype = Float32, nrows = 1, ncols = 1, cells = [[NegZero]]\<rparr>)
             0 ''lora.safetensors'' 0
           = (layer_model ''proj'' (f32 [[0]]), Inr (Some 1))"
    unfolding apply_to_layer negative_zero_merged_weight by simp
  have n: "f32 [[5], [5]] \<noteq> f32 [[5]]"
    "\<lparr>dtype = Float32, nrows = 1, ncols = 1, cells = [[NaN]]\<rparr> \<noteq> f32 [[5]]"
    "f32 [[0]] \<noteq> \<lparr>dtype = Float32, nrows = 1, ncols = 1, cells = [[NegZero]]\<rparr>"
    by (simp_all add: f32_def)
  from a b c n show ?thesis by (intro conjI)
qed

text \<open>
  C2 (amended): let the strength be a zero (\<open>0.0\<close> or \<open>-0.0\<close>) and let every
  entry of the adapter file that reaches a linear layer be safe (\<open>zero_safe\<close>):
  the weight of the layer is an array of its shape whose entries are values of
  its dtype, none of them \<open>-0.0\<close>; \<^verbatim>\<open>up\<close> has the weight's number of rows or one
  row and \<^verbatim>\<open>down\<close> its number of columns or one column; and \<^verbatim>\<open>alpha / rank\<close> and
  the entries of \<^verbatim>\<open>up @ down\<close>, where they are computed, are finite.  Then
  \<^verbatim>\<open>apply_lora_weights\<close> leaves the whole heap, hence every layer's weight with
  its dtype, its shape and each of its entries, as it was: the same value of
  the format, hence the same bits, a NaN remaining a NaN.  This includes the
  runs that end by raising.
\<close>

theorem strength_zero_keeps_weights:
  assumes "is_zero s"
    and "\<forall>lw. fs lora_path = Some (Archive lw) \<longrightarrow>
                list_all (zero_safe h model) (group_weights lw)"
  shows "fst (apply_lora_weights fs h model lora_path s) = h"
proof (cases "fs lora_path")
  case None
  then show ?thesis by (simp add: apply_lora_weights_def)
next
  case (Some f)
  show ?thesis
  proof (cases f)
    case Unreadable
    with Some show ?thesis by (simp add: apply_lora_weights_def)
  next
    case (Archive lw)
    with Some assms(2) have "list_all (zero_safe h model) (group_weights lw)" by simp
    then have "fst (merge_loop h model s (group_weights lw) 0) = h"
      using assms(1) by (rule merge_loop_zero)
    with Some Archive show ?thesis
      by (auto simp: apply_lora_weights_def split: prod.splits sum.splits)
  qed
qed

text \<open>
  The theorem at the example model and the example archive, for both zeros:
  the entry is safe, the call returns 1 and the heap is as it was.
\<close>

theorem strength_zero_keeps_weights_witness:
  "is_zero 0 \<and> is_zero NegZero \<and>
   example_files ''lora.safetensors'' = Some (Archive example_archive) \<and>
   list_all (zero_safe example_model 0) (group_weights example_archive) \<and>
   apply_lora_weights example_files example_model 0 ''lora.safetensors'' 0
     = (example_model, Inr (Some 1)) \<and>
   fst (apply_lora_weights example_files example_model 0 ''lora.safetensors'' NegZero)
     = example_model"
proof -
  have z: "is_zero 0" "is_zero NegZero" by (simp_all add: zero_fval_def)
  have f: "example_files ''lora.safetensors'' = Some (Archive example_archive)"
    by (simp add: example_files_def)
  have w: "linear_weight (example_model 3) = Some (f32 [[1, 0], [0, 1]])"
    by (simp add: example_model_def)
  have wf: "well_formed (f32 [[1, 0], [0, 1]])"
    by (simp add: well_formed_def well_shaped_def f32_def fround_zero_one)
  have nz: "list_all (list_all (\<lambda>x. x \<noteq> NegZero)) (cells (f32 [[1, 0], [0, 1]]))"
    by (simp add: f32_def)
  have sh: "nrows (f32 [[1], [3]]) = nrows (f32 [[1, 0], [0, 1]])"
    "ncols (f32 [[1, 2]]) = ncols (f32 [[1, 0], [0, 1]])"
    by (simp_all add: f32_def)
  have sc: "lora_scale None (nrows (f32 [[1, 2]])) = Inr 1" by (simp add: lora_scale_def)
  have fin1: "is_finite 1" by (simp add: one_fval_def)
  have mm: "matmul (f32 [[1], [3]]) (f32 [[1, 2]]) = Inr (f32 [[1, 2], [3, 6]])"
    by (simp add: tensor_eval)
  have fin: "list_all (list_all is_finite) (cells (f32 [[1, 2], [3, 6]]))"
    by (simp add: f32_def)
  have safe: "list_all (zero_safe example_model 0) (group_weights example_archive)"
    unfolding example_archive_groups zero_safe_def
    using example_path_resolves w wf nz sh sc fin1 mm fin by simp
  then have h: "\<forall>lw. example_files ''lora.safetensors'' = Some (Archive lw) \<longrightarrow>
                      list_all (zero_safe example_model 0) (group_weights lw)"
    using f by simp
  have k: "fst (apply_lora_weights example_files example_model 0 ''lora.safetensors'' s)
             = example_model" if "is_zero s" for s
    using that h by (rule strength_zero_keeps_weights)
  have m0: "merged_weight (f32 [[1, 0], [0, 1]]) (f32 [[1, 2]]) (f32 [[1], [3]]) None 0
              = Inr (f32 [[1, 0], [0, 1]])"
    by (simp add: tensor_eval)
  have "snd (apply_lora_weights example_files example_model 0 ''lora.safetensors'' 0)
          = Inr (Some 1)"
    unfolding example_apply m0 by simp
  with k [OF z(1)]
  have r: "apply_lora_weights example_files example_model 0 ''lora.safetensors'' 0
             = (example_model, Inr (Some 1))"
    by (simp add: prod_eq_iff)
  from z f safe r k [OF z(2)] show ?thesis by (intro conjI)
qed

subsection \<open>C3: the resolver fails soft\<close>

text \<open>
  C3: an adapter entry whose path does not resolve is skipped without raising
  and the merge of the remaining entries continues.  The resolver guards
  \<^verbatim>\<open>int(part)\<close> by \<^verbatim>\<open>part.isdigit()\<close>, which also holds for the superscript digits,
  on which \<^verbatim>\<open>int\<close> raises ValueError; nothing catches it.  For the example model
  and an archive that holds an adapter pair for \<^verbatim>\<open>transformer_blocks.\<close>\<open>\<^sup>2\<close>\<^verbatim>\<open>.to_q\<close>
  (U+00B2) before the pair for \<^verbatim>\<open>transformer_blocks.0.to_q\<close>, the call raises
  and leaves the model unpatched, while the second pair alone is merged.
  (Lemmas \<open>resolve_part_attr\<close> to \<open>resolve_part_none\<close> give the order of the
  strategies, \<open>merge_loop_unresolved\<close> the skipping of an entry that does not
  resolve, and \<open>resolve_path_returns\<close> that the resolver returns whenever the
  digits of every segment are decimal and at most 4300.)
\<close>

theorem superscript_segment_aborts_merge:
  "isdigit [CHR 0xB2] \<and> py_int [CHR 0xB2] = Inl ValueError \<and>
   resolve_path example_model 0
     (split_dots (''transformer_blocks.'' @ [CHR 0xB2] @ ''.to_q'')) = Inl ValueError \<and>
   apply_lora_weights superscript_files example_model 0
       ''lora.safetensors'' 1
     = (example_model, Inl ValueError) \<and>
   snd (apply_lora_weights example_files example_model 0
          ''lora.safetensors'' 1)
     = Inr (Some 1)"
proof -
  have d: "isdigit [CHR 0xB2] \<and> py_int [CHR 0xB2] = Inl ValueError"
    by (simp add: isdigit_def py_int_def is_digit_char_def is_decimal_char_def)
  have a: "apply_lora_weights superscript_files example_model 0
       ''lora.safetensors'' 1
     = (example_model, Inl ValueError)"
    using superscript_path_raises
    by (simp add: apply_lora_weights_def superscript_files_def superscript_archive_groups)
  have w: "linear_weight (example_model 3) = Some (f32 [[1, 0], [0, 1]])"
    by (simp add: example_model_def)
  have b: "snd (apply_lora_weights example_files example_model 0
          ''lora.safetensors'' 1)
     = Inr (Some 1)"
    using example_path_resolves w example_merged_weight
    by (simp add: apply_lora_weights_def example_files_def example_archive_groups)
  from d superscript_path_raises a b show ?thesis by blast
qed

subsection \<open>C4: rounding of the frame count\<close>

text \<open>
  C4 as stated quantifies over every integer frame count.  The quotient is
  computed in binary64, and from \<open>2 ^ 53 + 6\<close> frames on the float no longer
  holds \<open>num_frames - 1\<close> exactly: \<open>9007199254740998\<close> is adjusted to
  \<open>9007199254740993\<close> although \<open>9007199254741001\<close> conforms and is nearer.
\<close>

theorem frame_count_huge_not_nearest:
  "adjust_num_frames 9007199254740998 = Inr 9007199254740993 \<and>
   (9007199254740998 :: int) mod 8 \<noteq> 1 \<and>
   (9007199254741001 :: int) mod 8 = 1 \<and>
   \<bar>9007199254741001 - 9007199254740998 :: int\<bar>
     < \<bar>9007199254740993 - 9007199254740998\<bar>"
proof -
  have "bit_length 9007199254740997 = Suc 53"
    by (rule bit_length_eq) simp_all
  then have "float53 9007199254740997 = 9007199254740996"
    by (simp add: float53_def round_half_even_div_def)
  then have "truediv8 9007199254740997 = Inr (9007199254740996 / 8)"
    by (simp add: truediv8_def)
  moreover have "py_round (9007199254740996 / 8) = 1125899906842624"
    using py_round_eighths [of 9007199254740996]
    by (simp add: round_half_even_div_def)
  ultimately have "adjust_num_frames 9007199254740998 = Inr 9007199254740993"
    by (simp add: adjust_num_frames_def)
  then show ?thesis by simp
qed

text \<open>
  C4 (amended): for every integer frame count \<open>n\<close> with \<open>\<bar>n - 1\<bar> < 2 ^ 53\<close> the
  adjustment returns a count \<open>r\<close> with \<open>r mod 8 = 1\<close> such that no conforming
  count is nearer to \<open>n\<close> than \<open>r\<close>; a conforming count is left unchanged; and
  64 becomes 65, 66 becomes 65, 73 stays 73.
\<close>

theorem frame_count_rounded_to_nearest:
  assumes b: "\<bar>n - 1\<bar> < 2 ^ 53"
  shows "(\<exists>r. adjust_num_frames n = Inr r \<and> r mod 8 = 1 \<and>
              (\<forall>c. c mod 8 = 1 \<longrightarrow> \<bar>r - n\<bar> \<le> \<bar>c - n\<bar>) \<and>
              (n mod 8 = 1 \<longrightarrow> r = n)) \<and>
         adjust_num_frames 64 = Inr 65 \<and>
         adjust_num_frames 66 = Inr 65 \<and>
         adjust_num_frames 73 = Inr 73"
proof (intro conjI)
  let ?r = "if n mod 8 \<noteq> 1 then round_half_even_div (n - 1) 8 * 8 + 1 else n"
  have a: "adjust_num_frames n = Inr ?r"
    using b by (rule adjust_num_frames_exact)
  have m: "?r mod 8 = 1" by simp
  have near: "\<bar>?r - n\<bar> \<le> \<bar>c - n\<bar>" if c: "c mod 8 = 1" for c
  proof (cases "n mod 8 = 1")
    case True
    then show ?thesis by simp
  next
    case False
    have "c = 8 * (c div 8) + 1" using c by (metis mult_div_mod_eq)
    then obtain j where j: "c = 8 * j + 1" ..
    have "\<bar>8 * round_half_even_div (n - 1) 8 - (n - 1)\<bar> \<le> \<bar>8 * j - (n - 1)\<bar>"
      by (rule nearest8)
    then show ?thesis unfolding j using False by (simp add: algebra_simps)
  qed
  have keep: "n mod 8 = 1 \<longrightarrow> ?r = n" by simp
  from a m near keep
  show "\<exists>r. adjust_num_frames n = Inr r \<and> r mod 8 = 1 \<and>
              (\<forall>c. c mod 8 = 1 \<longrightarrow> \<bar>r - n\<bar> \<le> \<bar>c - n\<bar>) \<and>
              (n mod 8 = 1 \<longrightarrow> r = n)"
    by blast
  show "adjust_num_frames 64 = Inr 65"
    by (subst adjust_num_frames_exact) (simp_all add: round_half_even_div_def)
  show "adjust_num_frames 66 = Inr 65"
    by (subst adjust_num_frames_exact) (simp_all add: round_half_even_div_def)
  show "adjust_num_frames 73 = Inr 73"
    by (subst adjust_num_frames_exact) (simp_all add: round_half_even_div_def)
qed

theorem frame_count_rounded_to_nearest_witness:
  "\<bar>(66::int) - 1\<bar> < 2 ^ 53 \<and>
   (\<exists>r. adjust_num_frames 66 = Inr r \<and> r mod 8 = 1 \<and>
        (\<forall>c. c mod 8 = 1 \<longrightarrow> \<bar>r - 66\<bar> \<le> \<bar>c - 66\<bar>) \<and>
        ((66::int) mod 8 = 1 \<longrightarrow> r = 66)) \<and>
   adjust_num_frames 64 = Inr 65 \<and>
   adjust_num_frames 66 = Inr 65 \<and>
   adjust_num_frames 73 = Inr 73"
proof -
  have h: "\<bar>(66::int) - 1\<bar> < 2 ^ 53" by simp
  show ?thesis using h frame_count_rounded_to_nearest [OF h] by blast
qed

subsection \<open>C5: the stage transition\<close>

text \<open>
  C5 describes what the generation does between stage 1 and stage 2 (lines
  530--584).  No call of \<^verbatim>\<open>generate_video_with_audio_lora\<close> gets there: the
  module uses \<^verbatim>\<open>AUDIO_LATENT_CHANNELS\<close> in line 380 and neither imports nor
  defines it, so a call whose assertions pass, whose frame count can be
  adjusted and whose library calls of lines 253--366 return raises NameError
  while it builds the transformer configuration; every other call has raised
  before.  Whatever the rest of the body is, the call never enters it: no
  stage-1 latent is upsampled and no audio latent is re-noised.  With the
  default arguments (\<open>512 \<times> 512\<close>, 33 frames) the call raises NameError.
\<close>

theorem generation_raises_before_stage_transition:
  "generate_video_with_audio_lora before_config after_config height width num_frames
     = (if height mod 64 = 0
        then if width mod 64 = 0
          then (case adjust_num_frames num_frames of
                  Inl e \<Rightarrow> Inl e
                | Inr n \<Rightarrow>
                    (case before_config n of
                       Inl e \<Rightarrow> Inl e
                     | Inr env \<Rightarrow> Inl NameError))
          else Inl AssertionError
        else Inl AssertionError) \<and>
   (\<exists>e. generate_video_with_audio_lora before_config after_config height width num_frames
           = Inl e) \<and>
   load_global ''AUDIO_LATENT_CHANNELS'' = Inl NameError \<and>
   load_global ''AUDIO_MEL_BINS'' = Inr () \<and>
   generate_video_with_audio_lora (\<lambda>n. Inr env) after_config 512 512 33 = Inl NameError"
proof -
  have g: "load_global ''AUDIO_LATENT_CHANNELS'' = Inl NameError"
    by (simp add: load_global_def module_globals_def builtin_names_def)
  have m: "load_global ''AUDIO_MEL_BINS'' = Inr ()"
    by (simp add: load_global_def module_globals_def)
  have 1: "generate_video_with_audio_lora before_config after_config height width num_frames
     = (if height mod 64 = 0
        then if width mod 64 = 0
          then (case adjust_num_frames num_frames of
                  Inl e \<Rightarrow> Inl e
                | Inr n \<Rightarrow>
                    (case before_config n of
                       Inl e \<Rightarrow> Inl e
                     | Inr env \<Rightarrow> Inl NameError))
          else Inl AssertionError
        else Inl AssertionError)"
    by (simp add: generate_video_with_audio_lora_def g split: sum.splits)
  have 2: "\<exists>e. generate_video_with_audio_lora before_config after_config height width num_frames
           = Inl e"
    unfolding 1 by (simp split: sum.splits)
  have "adjust_num_frames 33 = Inr 33" by (simp add: adjust_num_frames_def)
  then have 3: "generate_video_with_audio_lora (\<lambda>n. Inr env) after_config 512 512 33
                  = Inl NameError"
    by (simp add: generate_video_with_audio_lora_def g)
  from 1 2 g m 3 show ?thesis by (intro conjI)
qed

subsection \<open>C6: the two naming conventions\<close>

text \<open>
  C6 as stated covers any key that names a module's down or up tensor.  The
  chain tests \<^verbatim>\<open>"lora_down"\<close> and \<^verbatim>\<open>"lora_up"\<close> anywhere in the key before
  \<^verbatim>\<open>"lora_A"\<close> and \<^verbatim>\<open>"lora_B"\<close>, so for a module whose own path contains one of
  these markers the two spellings of its down tensor part ways: the
  \<^verbatim>\<open>.lora_down\<close> key is a down tensor of \<^verbatim>\<open>blocks.lora_up_gate\<close>, the
  \<^verbatim>\<open>.lora_A\<close> key an up tensor of \<^verbatim>\<open>blocks\<close>.  And a key that contains
  \<^verbatim>\<open>alpha\<close> is skipped before the chain: for the module \<^verbatim>\<open>blocks.0.alpha_proj\<close>,
  whose path contains none of the markers, neither spelling is classified and
  nothing is accumulated.
\<close>

theorem conventions_not_classified_as_stated:
  "classify_key ''blocks.lora_up_gate.lora_down.weight''
     = Some (''blocks.lora_up_gate'', Down) \<and>
   classify_key ''blocks.lora_up_gate.lora_A.weight'' = Some (''blocks'', Up) \<and>
   marker_free ''blocks.0.alpha_proj'' \<and>
   classify_key ''blocks.0.alpha_proj.lora_down.weight'' = None \<and>
   classify_key ''blocks.0.alpha_proj.lora_A.weight'' = None \<and>
   group_entry [] [] (''blocks.0.alpha_proj.lora_down.weight'', 7 :: nat) = [] \<and>
   group_entry [] [] (''blocks.0.alpha_proj.lora_A.weight'', 7 :: nat) = []"
  by (simp add: classify_key_def marker_free_def)

text \<open>
  C6 (amended): let the module path \<open>m\<close> and the rest of the key \<open>rest\<close> contain
  none of the substrings \<^verbatim>\<open>lora_down\<close>, \<^verbatim>\<open>lora_up\<close>, \<^verbatim>\<open>lora_A\<close>, \<^verbatim>\<open>lora_B\<close>.  Then
  the keys \<open>m.lora_down rest\<close> and \<open>m.lora_A rest\<close> are classified identically
  and the grouping step has the same result for either, likewise \<open>m.lora_up rest\<close>
  and \<open>m.lora_B rest\<close>.  If moreover neither \<open>m\<close> nor \<open>rest\<close> contains \<^verbatim>\<open>alpha\<close>,
  the first two are classified to the role down and the last two to the role
  up, all four with the base name \<open>m\<close>, and the grouping step stores the tensor
  as \<^verbatim>\<open>down\<close> (respectively \<^verbatim>\<open>up\<close>) of the group under the normalised path
  \<open>sanitize_key m\<close>.  If \<open>m\<close> or \<open>rest\<close> contains \<^verbatim>\<open>alpha\<close>, all four keys are
  skipped.
\<close>

theorem conventions_classified_alike:
  assumes "marker_free m" and "marker_free rest"
  shows "classify_key (m @ ''.lora_A'' @ rest) = classify_key (m @ ''.lora_down'' @ rest) \<and>
         classify_key (m @ ''.lora_B'' @ rest) = classify_key (m @ ''.lora_up'' @ rest) \<and>
         group_entry lw groups (m @ ''.lora_A'' @ rest, v)
           = group_entry lw groups (m @ ''.lora_down'' @ rest, v) \<and>
         group_entry lw groups (m @ ''.lora_B'' @ rest, v)
           = group_entry lw groups (m @ ''.lora_up'' @ rest, v) \<and>
         (\<not> str_contains ''alpha'' m \<and> \<not> str_contains ''alpha'' rest \<longrightarrow>
            classify_key (m @ ''.lora_down'' @ rest) = Some (m, Down) \<and>
            classify_key (m @ ''.lora_A'' @ rest) = Some (m, Down) \<and>
            classify_key (m @ ''.lora_up'' @ rest) = Some (m, Up) \<and>
            classify_key (m @ ''.lora_B'' @ rest) = Some (m, Up) \<and>
            (\<exists>g. map_of (group_entry lw groups (m @ ''.lora_down'' @ rest, v)) (sanitize_key m)
                    = Some g \<and> down g = Some v) \<and>
            (\<exists>g. map_of (group_entry lw groups (m @ ''.lora_A'' @ rest, v)) (sanitize_key m)
                    = Some g \<and> down g = Some v) \<and>
            (\<exists>g. map_of (group_entry lw groups (m @ ''.lora_up'' @ rest, v)) (sanitize_key m)
                    = Some g \<and> up g = Some v) \<and>
            (\<exists>g. map_of (group_entry lw groups (m @ ''.lora_B'' @ rest, v)) (sanitize_key m)
                    = Some g \<and> up g = Some v)) \<and>
         (str_contains ''alpha'' m \<or> str_contains ''alpha'' rest \<longrightarrow>
            classify_key (m @ ''.lora_down'' @ rest) = None \<and>
            classify_key (m @ ''.lora_A'' @ rest) = None \<and>
            classify_key (m @ ''.lora_up'' @ rest) = None \<and>
            classify_key (m @ ''.lora_B'' @ rest) = None \<and>
            group_entry lw groups (m @ ''.lora_down'' @ rest, v) = groups \<and>
            group_entry lw groups (m @ ''.lora_A'' @ rest, v) = groups \<and>
            group_entry lw groups (m @ ''.lora_up'' @ rest, v) = groups \<and>
            group_entry lw groups (m @ ''.lora_B'' @ rest, v) = groups)"
proof -
  note cd = classify_down_key [OF assms] and ca = classify_A_key [OF assms]
    and cu = classify_up_key [OF assms] and cb = classify_B_key [OF assms]
  have d: "classify_key (m @ ''.lora_A'' @ rest) = classify_key (m @ ''.lora_down'' @ rest)"
    by (simp only: ca cd)
  have u: "classify_key (m @ ''.lora_B'' @ rest) = classify_key (m @ ''.lora_up'' @ rest)"
    by (simp only: cb cu)
  have gd: "group_entry lw groups (m @ ''.lora_A'' @ rest, v)
              = group_entry lw groups (m @ ''.lora_down'' @ rest, v)"
    using d by (rule group_entry_cong)
  have gu: "group_entry lw groups (m @ ''.lora_B'' @ rest, v)
              = group_entry lw groups (m @ ''.lora_up'' @ rest, v)"
    using u by (rule group_entry_cong)
  have r: "\<not> str_contains ''alpha'' m \<and> \<not> str_contains ''alpha'' rest \<longrightarrow>
            classify_key (m @ ''.lora_down'' @ rest) = Some (m, Down) \<and>
            classify_key (m @ ''.lora_A'' @ rest) = Some (m, Down) \<and>
            classify_key (m @ ''.lora_up'' @ rest) = Some (m, Up) \<and>
            classify_key (m @ ''.lora_B'' @ rest) = Some (m, Up) \<and>
            (\<exists>g. map_of (group_entry lw groups (m @ ''.lora_down'' @ rest, v)) (sanitize_key m)
                    = Some g \<and> down g = Some v) \<and>
            (\<exists>g. map_of (group_entry lw groups (m @ ''.lora_A'' @ rest, v)) (sanitize_key m)
                    = Some g \<and> down g = Some v) \<and>
            (\<exists>g. map_of (group_entry lw groups (m @ ''.lora_up'' @ rest, v)) (sanitize_key m)
                    = Some g \<and> up g = Some v) \<and>
            (\<exists>g. map_of (group_entry lw groups (m @ ''.lora_B'' @ rest, v)) (sanitize_key m)
                    = Some g \<and> up g = Some v)"
  proof
    assume a: "\<not> str_contains ''alpha'' m \<and> \<not> str_contains ''alpha'' rest"
    from a cd have 1: "classify_key (m @ ''.lora_down'' @ rest) = Some (m, Down)" by simp
    from a ca have 2: "classify_key (m @ ''.lora_A'' @ rest) = Some (m, Down)" by simp
    from a cu have 3: "classify_key (m @ ''.lora_up'' @ rest) = Some (m, Up)" by simp
    from a cb have 4: "classify_key (m @ ''.lora_B'' @ rest) = Some (m, Up)" by simp
    from 1 2 3 4 group_entry_down [OF 1, of lw groups v] group_entry_down [OF 2, of lw groups v]
      group_entry_up [OF 3, of lw groups v] group_entry_up [OF 4, of lw groups v]
    show "classify_key (m @ ''.lora_down'' @ rest) = Some (m, Down) \<and>
            classify_key (m @ ''.lora_A'' @ rest) = Some (m, Down) \<and>
            classify_key (m @ ''.lora_up'' @ rest) = Some (m, Up) \<and>
            classify_key (m @ ''.lora_B'' @ rest) = Some (m, Up) \<and>
            (\<exists>g. map_of (group_entry lw groups (m @ ''.lora_down'' @ rest, v)) (sanitize_key m)
                    = Some g \<and> down g = Some v) \<and>
            (\<exists>g. map_of (group_entry lw groups (m @ ''.lora_A'' @ rest, v)) (sanitize_key m)
                    = Some g \<and> down g = Some v) \<and>
            (\<exists>g. map_of (group_entry lw groups (m @ ''.lora_up'' @ rest, v)) (sanitize_key m)
                    = Some g \<and> up g = Some v) \<and>
            (\<exists>g. map_of (group_entry lw groups (m @ ''.lora_B'' @ rest, v)) (sanitize_key m)
                    = Some g \<and> up g = Some v)"
      by (intro conjI)
  qed
  have n: "str_contains ''alpha'' m \<or> str_contains ''alpha'' rest \<longrightarrow>
            classify_key (m @ ''.lora_down'' @ rest) = None \<and>
            classify_key (m @ ''.lora_A'' @ rest) = None \<and>
            classify_key (m @ ''.lora_up'' @ rest) = None \<and>
            classify_key (m @ ''.lora_B'' @ rest) = None \<and>
            group_entry lw groups (m @ ''.lora_down'' @ rest, v) = groups \<and>
            group_entry lw groups (m @ ''.lora_A'' @ rest, v) = groups \<and>
            group_entry lw groups (m @ ''.lora_up'' @ rest, v) = groups \<and>
            group_entry lw groups (m @ ''.lora_B'' @ rest, v) = groups"
  proof
    assume a: "str_contains ''alpha'' m \<or> str_contains ''alpha'' rest"
    from a cd have 1: "classify_key (m @ ''.lora_down'' @ rest) = None" by simp
    from a ca have 2: "classify_key (m @ ''.lora_A'' @ rest) = None" by simp
    from a cu have 3: "classify_key (m @ ''.lora_up'' @ rest) = None" by simp
    from a cb have 4: "classify_key (m @ ''.lora_B'' @ rest) = None" by simp
    from 1 2 3 4 group_entry_skip [OF 1, of lw groups v] group_entry_skip [OF 2, of lw groups v]
      group_entry_skip [OF 3, of lw groups v] group_entry_skip [OF 4, of lw groups v]
    show "classify_key (m @ ''.lora_down'' @ rest) = None \<and>
            classify_key (m @ ''.lora_A'' @ rest) = None \<and>
            classify_key (m @ ''.lora_up'' @ rest) = None \<and>
            classify_key (m @ ''.lora_B'' @ rest) = None \<and>
            group_entry lw groups (m @ ''.lora_down'' @ rest, v) = groups \<and>
            group_entry lw groups (m @ ''.lora_A'' @ rest, v) = groups \<and>
            group_entry lw groups (m @ ''.lora_up'' @ rest, v) = groups \<and>
            group_entry lw groups (m @ ''.lora_B'' @ rest, v) = groups"
      by (intro conjI)
  qed
  show ?thesis
    by (intro conjI) (rule d, rule u, rule gd, rule gu, rule r, rule n)
qed

theorem conventions_classified_alike_witness:
  "marker_free ''transformer_blocks.0.attn1.to_q'' \<and> marker_free ''.weight'' \<and>
   classify_key ''transformer_blocks.0.attn1.to_q.lora_A.weight''
     = Some (''transformer_blocks.0.attn1.to_q'', Down) \<and>
   classify_key ''transformer_blocks.0.attn1.to_q.lora_down.weight''
     = Some (''transformer_blocks.0.attn1.to_q'', Down) \<and>
   classify_key ''transformer_blocks.0.attn1.to_q.lora_B.weight''
     = Some (''transformer_blocks.0.attn1.to_q'', Up) \<and>
   classify_key ''transformer_blocks.0.attn1.to_q.lora_up.weight''
     = Some (''transformer_blocks.0.attn1.to_q'', Up) \<and>
   group_entry [] [] (''transformer_blocks.0.attn1.to_q.lora_A.weight'', 7 :: nat)
     = group_entry [] [] (''transformer_blocks.0.attn1.to_q.lora_down.weight'', 7) \<and>
   group_entry [] [] (''transformer_blocks.0.attn1.to_q.lora_A.weight'', 7 :: nat)
     = [(''transformer_blocks.0.attn1.to_q'',
         \<lparr>down = Some 7, up = None, alpha = None\<rparr>)] \<and>
   group_entry [] [] (''transformer_blocks.0.attn1.to_q.lora_B.weight'', 7 :: nat)
     = group_entry [] [] (''transformer_blocks.0.attn1.to_q.lora_up.weight'', 7) \<and>
   group_entry [] [] (''transformer_blocks.0.attn1.to_q.lora_B.weight'', 7 :: nat)
     = [(''transformer_blocks.0.attn1.to_q'',
         \<lparr>down = None, up = Some 7, alpha = None\<rparr>)]"
proof -
  have m: "marker_free ''transformer_blocks.0.attn1.to_q''" by (simp add: marker_free_def)
  have r: "marker_free ''.weight''" by (simp add: marker_free_def)
  have a: "\<not> str_contains ''alpha'' ''transformer_blocks.0.attn1.to_q''"
    "\<not> str_contains ''alpha'' ''.weight''" by simp_all
  note inst = conventions_classified_alike [OF m r, of "[]" "[]" "7 :: nat"]
  from inst a have c:
    "classify_key ''transformer_blocks.0.attn1.to_q.lora_A.weight''
       = Some (''transformer_blocks.0.attn1.to_q'', Down)"
    "classify_key ''transformer_blocks.0.attn1.to_q.lora_down.weight''
       = Some (''transformer_blocks.0.attn1.to_q'', Down)"
    "classify_key ''transformer_blocks.0.attn1.to_q.lora_B.weight''
       = Some (''transformer_blocks.0.attn1.to_q'', Up)"
    "classify_key ''transformer_blocks.0.attn1.to_q.lora_up.weight''
       = Some (''transformer_blocks.0.attn1.to_q'', Up)"
    by simp_all
  have s: "sanitize_key ''transformer_blocks.0.attn1.to_q'' = ''transformer_blocks.0.attn1.to_q''"
    by (simp add: sanitize_key_def str_replace_def startswith_def)
  have g: "group_entry [] [] (''transformer_blocks.0.attn1.to_q.lora_A.weight'', 7 :: nat)
     = [(''transformer_blocks.0.attn1.to_q'',
         \<lparr>down = Some 7, up = None, alpha = None\<rparr>)]"
    "group_entry [] [] (''transformer_blocks.0.attn1.to_q.lora_B.weight'', 7 :: nat)
     = [(''transformer_blocks.0.attn1.to_q'',
         \<lparr>down = None, up = Some 7, alpha = None\<rparr>)]"
    using c s by (simp_all add: find_alpha_def empty_group_def)
  from inst have e:
    "group_entry [] [] (''transformer_blocks.0.attn1.to_q.lora_A.weight'', 7 :: nat)
       = group_entry [] [] (''transformer_blocks.0.attn1.to_q.lora_down.weight'', 7)"
    "group_entry [] [] (''transformer_blocks.0.attn1.to_q.lora_B.weight'', 7 :: nat)
       = group_entry [] [] (''transformer_blocks.0.attn1.to_q.lora_up.weight'', 7)"
    by simp_all
  from m r c g e show ?thesis by simp
qed

subsection \<open>C7: the key normaliser\<close>

text \<open>
  C7: the normaliser removes the outer \<^verbatim>\<open>model.diffusion_model.\<close> prefix, strips a
  \<^verbatim>\<open>transformer.\<close> prefix if present, applies the replacement list and touches
  nothing else in the key.  The source calls \<^verbatim>\<open>str.replace\<close> for both prefixes,
  which deletes every occurrence and not only the leading one, although its
  comment reads \<^verbatim>\<open># Remove prefixes\<close> and the second call is guarded by
  \<^verbatim>\<open>startswith\<close>.  The theorem evaluates the source's function and the
  prefix-only reading on two keys with an inner occurrence: the code deletes
  the inner \<^verbatim>\<open>transformer.\<close> and the inner \<^verbatim>\<open>model.diffusion_model.\<close> as well.
  (On keys without such an inner occurrence the two agree, lemma
  \<open>sanitize_key_prefix_only\<close>.)
\<close>

theorem sanitize_key_deletes_inner_occurrences:
  "sanitize_key ''transformer.a.transformer.b'' = ''a.b'' \<and>
   sanitize_key_spec ''transformer.a.transformer.b'' = ''a.transformer.b'' \<and>
   sanitize_key ''x.model.diffusion_model.y'' = ''x.y'' \<and>
   sanitize_key_spec ''x.model.diffusion_model.y'' = ''x.model.diffusion_model.y''"
  by (simp add: sanitize_key_def sanitize_key_spec_def str_replace_def startswith_def
        remove_prefix_def)

subsection \<open>C8: missing or unreadable adapter file\<close>



subsection \<open>C9: keys that contain \<open>alpha\<close>\<close>




subsection \<open>C10: one response per generate request\<close>

text \<open>
  C10 as stated covers every generate request and every exception of the
  generation.  The \<^verbatim>\<open>try\<close> block catches \<^verbatim>\<open>Exception\<close> only, and the loop body is
  wrapped in \<^verbatim>\<open>except KeyboardInterrupt: break\<close>: when the generation is
  interrupted, or calls \<^verbatim>\<open>sys.exit\<close>, the descriptor is restored, but no line is
  written to standard output and the loop ends with the next request unread.
\<close>

theorem interrupted_generation_ends_loop:
  "handle_line interrupted_generator initial_state (generate_request ''a cat'')
     = (\<lparr>stdout_lines = [], stderr_lines = [TextLine ''loading''],
         fd1_to_stderr = False\<rparr>, Break) \<and>
   server_loop interrupted_generator initial_state
       [generate_request ''a cat'', generate_request ''a dog'']
     = (\<lparr>stdout_lines = [], stderr_lines = [TextLine ''loading''],
         fd1_to_stderr = False\<rparr>, Break) \<and>
   server_loop exiting_generator initial_state
       [generate_request ''a cat'', generate_request ''a dog'']
     = (\<lparr>stdout_lines = [], stderr_lines = [], fd1_to_stderr = False\<rparr>, Exit)"
proof -
  obtain kwargs where
    k: "build_kwargs (JObj [(''prompt'', JStr ''a cat''), (''seed'', JInt 7)]) = Inr kwargs"
    using build_kwargs_obj by blast
  then have "attempt_of interrupted_generator
               (JObj [(''prompt'', JStr ''a cat''), (''seed'', JInt 7)])
             = ([''loading''], Inl KeyboardInterrupt)"
    by (simp add: attempt_of_def interrupted_generator_def)
  then have h: "handle_line interrupted_generator initial_state (generate_request ''a cat'')
     = (\<lparr>stdout_lines = [], stderr_lines = [TextLine ''loading''],
         fd1_to_stderr = False\<rparr>, Break)"
    by (simp add: handle_line_def handle_generate_def generate_request_def
        initial_state_def get_or_def print_stdout_def Let_def)
  from k have "attempt_of exiting_generator
               (JObj [(''prompt'', JStr ''a cat''), (''seed'', JInt 7)])
             = ([], Inl SystemExit)"
    by (simp add: attempt_of_def exiting_generator_def)
  then have e: "handle_line exiting_generator initial_state (generate_request ''a cat'')
     = (\<lparr>stdout_lines = [], stderr_lines = [], fd1_to_stderr = False\<rparr>, Exit)"
    by (simp add: handle_line_def handle_generate_def generate_request_def
        initial_state_def get_or_def print_stdout_def Let_def)
  from h e show ?thesis by simp
qed

text \<open>
  C10 (amended): take a generate request line, read while descriptor 1 is the
  original standard output, with \<open>params\<close> its parameters and \<open>kwargs\<close> the keyword
  arguments built from them.
  \<^item> If the generation returns, the server appends exactly one line to the
    original standard output, the JSON object with \<^verbatim>\<open>"success": true\<close>, the
    \<^verbatim>\<open>video_path\<close>, the \<^verbatim>\<open>seed\<close>, the \<^verbatim>\<open>mode\<close> and \<^verbatim>\<open>has_audio\<close>, and the loop goes
    on with the next line.
  \<^item> If the generation raises an exception derived from \<^verbatim>\<open>Exception\<close> with text
    \<open>msg\<close>, or building the keyword arguments does (the parameters are not an
    object), the one line appended is the JSON object with \<^verbatim>\<open>"success": false\<close>
    and \<^verbatim>\<open>"error": msg\<close>, and the loop goes on with the next line.
  \<^item> If the generation raises \<^verbatim>\<open>KeyboardInterrupt\<close> or \<^verbatim>\<open>SystemExit\<close>, nothing is
    appended to the original standard output and the loop ends there (by
    \<^verbatim>\<open>break\<close>, respectively by the exit of the process).
  In each case what the library printed went to standard error and descriptor 1
  is the original standard output again.
\<close>

theorem generate_request_answered:
  assumes cmd: "get_or kv ''command'' JNull = JStr ''generate''"
    and fd: "\<not> fd1_to_stderr st"
  shows
    "(\<forall>kwargs printed.
        build_kwargs (get_or kv ''params'' (JObj [])) = Inr kwargs \<and>
        gen kwargs = (printed, Completes) \<longrightarrow>
        (\<exists>st'. handle_line gen st (Parsed (JObj kv)) = (st', Continue) \<and>
           stdout_lines st' = stdout_lines st @
             [JsonLine (JObj
                [(''success'', JBool True),
                 (''video_path'', get_or kwargs ''output_path'' JNull),
                 (''seed'', get_or kwargs ''seed'' JNull),
                 (''mode'', JStr (if truthy (get_or kwargs ''image'' JNull)
                                   then ''i2v'' else ''t2v'')),
                 (''has_audio'',
                    JBool (\<not> truthy (get_or kwargs ''no_audio'' (JBool False))))])] \<and>
           stderr_lines st' = stderr_lines st @ map TextLine printed \<and>
           \<not> fd1_to_stderr st' \<and>
           server_loop gen st (Parsed (JObj kv) # rest) = server_loop gen st' rest)) \<and>
     (\<forall>kwargs printed msg.
        build_kwargs (get_or kv ''params'' (JObj [])) = Inr kwargs \<and>
        gen kwargs = (printed, Raises (Exception msg)) \<longrightarrow>
        (\<exists>st'. handle_line gen st (Parsed (JObj kv)) = (st', Continue) \<and>
           stdout_lines st' = stdout_lines st @
             [JsonLine (JObj [(''success'', JBool False), (''error'', JStr msg)])] \<and>
           stderr_lines st'
             = stderr_lines st @ map TextLine printed @ [Traceback (Exception msg)] \<and>
           \<not> fd1_to_stderr st' \<and>
           server_loop gen st (Parsed (JObj kv) # rest) = server_loop gen st' rest)) \<and>
     (\<forall>e. build_kwargs (get_or kv ''params'' (JObj [])) = Inl e \<longrightarrow>
        (\<exists>st' msg. e = Exception msg \<and>
           handle_line gen st (Parsed (JObj kv)) = (st', Continue) \<and>
           stdout_lines st' = stdout_lines st @
             [JsonLine (JObj [(''success'', JBool False), (''error'', JStr msg)])] \<and>
           \<not> fd1_to_stderr st' \<and>
           server_loop gen st (Parsed (JObj kv) # rest) = server_loop gen st' rest)) \<and>
     (\<forall>kwargs printed.
        build_kwargs (get_or kv ''params'' (JObj [])) = Inr kwargs \<and>
        gen kwargs = (printed, Raises KeyboardInterrupt) \<longrightarrow>
        (\<exists>st'. handle_line gen st (Parsed (JObj kv)) = (st', Break) \<and>
           stdout_lines st' = stdout_lines st \<and>
           stderr_lines st' = stderr_lines st @ map TextLine printed \<and>
           \<not> fd1_to_stderr st' \<and>
           server_loop gen st (Parsed (JObj kv) # rest) = (st', Break))) \<and>
     (\<forall>kwargs printed.
        build_kwargs (get_or kv ''params'' (JObj [])) = Inr kwargs \<and>
        gen kwargs = (printed, Raises SystemExit) \<longrightarrow>
        (\<exists>st'. handle_line gen st (Parsed (JObj kv)) = (st', Exit) \<and>
           stdout_lines st' = stdout_lines st \<and>
           stderr_lines st' = stderr_lines st @ map TextLine printed \<and>
           \<not> fd1_to_stderr st' \<and>
           server_loop gen st (Parsed (JObj kv) # rest) = (st', Exit)))"
proof -
  let ?params = "get_or kv ''params'' (JObj [])"
  have hl: "handle_line gen st (Parsed (JObj kv)) = handle_generate gen st ?params"
    using cmd by (simp add: handle_line_def Let_def)
  have loop: "server_loop gen st (Parsed (JObj kv) # rest) =
                (case handle_generate gen st ?params of
                   (st', Continue) \<Rightarrow> server_loop gen st' rest
                 | (st', Break) \<Rightarrow> (st', Break)
                 | (st', Exit) \<Rightarrow> (st', Exit))"
    by (simp only: server_loop.simps hl)
  have ok: "\<exists>st'. handle_line gen st (Parsed (JObj kv)) = (st', Continue) \<and>
           stdout_lines st' = stdout_lines st @
             [JsonLine (JObj
                [(''success'', JBool True),
                 (''video_path'', get_or kwargs ''output_path'' JNull),
                 (''seed'', get_or kwargs ''seed'' JNull),
                 (''mode'', JStr (if truthy (get_or kwargs ''image'' JNull)
                                   then ''i2v'' else ''t2v'')),
                 (''has_audio'',
                    JBool (\<not> truthy (get_or kwargs ''no_audio'' (JBool False))))])] \<and>
           stderr_lines st' = stderr_lines st @ map TextLine printed \<and>
           \<not> fd1_to_stderr st' \<and>
           server_loop gen st (Parsed (JObj kv) # rest) = server_loop gen st' rest"
    if "build_kwargs ?params = Inr kwargs \<and> gen kwargs = (printed, Completes)"
    for kwargs printed
  proof -
    from that have "attempt_of gen ?params = (printed, Inr (success_result kwargs))"
      by (simp add: attempt_of_def)
    from handle_generate_result [OF fd this] obtain st' where
      s: "handle_generate gen st ?params = (st', Continue)"
         "stdout_lines st' = stdout_lines st @ [JsonLine (success_result kwargs)]"
         "stderr_lines st' = stderr_lines st @ map TextLine printed"
         "\<not> fd1_to_stderr st'"
      by blast
    from s(1) loop have "server_loop gen st (Parsed (JObj kv) # rest) = server_loop gen st' rest"
      by simp
    with s hl show ?thesis by (simp add: success_result_def)
  qed
  have failed: "\<exists>st'. handle_line gen st (Parsed (JObj kv)) = (st', Continue) \<and>
           stdout_lines st' = stdout_lines st @
             [JsonLine (JObj [(''success'', JBool False), (''error'', JStr msg)])] \<and>
           stderr_lines st'
             = stderr_lines st @ map TextLine printed @ [Traceback (Exception msg)] \<and>
           \<not> fd1_to_stderr st' \<and>
           server_loop gen st (Parsed (JObj kv) # rest) = server_loop gen st' rest"
    if "attempt_of gen ?params = (printed, Inl (Exception msg))" for printed msg
  proof -
    from handle_generate_exception [OF fd that] obtain st' where
      s: "handle_generate gen st ?params = (st', Continue)"
         "stdout_lines st' = stdout_lines st @ [JsonLine (failure_result msg)]"
         "stderr_lines st'
            = stderr_lines st @ map TextLine printed @ [Traceback (Exception msg)]"
         "\<not> fd1_to_stderr st'"
      by blast
    from s(1) loop have "server_loop gen st (Parsed (JObj kv) # rest) = server_loop gen st' rest"
      by simp
    with s hl show ?thesis by (simp add: failure_result_def)
  qed
  have raised: "\<exists>st'. handle_line gen st (Parsed (JObj kv)) = (st', Continue) \<and>
           stdout_lines st' = stdout_lines st @
             [JsonLine (JObj [(''success'', JBool False), (''error'', JStr msg)])] \<and>
           stderr_lines st'
             = stderr_lines st @ map TextLine printed @ [Traceback (Exception msg)] \<and>
           \<not> fd1_to_stderr st' \<and>
           server_loop gen st (Parsed (JObj kv) # rest) = server_loop gen st' rest"
    if "build_kwargs ?params = Inr kwargs \<and> gen kwargs = (printed, Raises (Exception msg))"
    for kwargs printed msg
  proof -
    from that have "attempt_of gen ?params = (printed, Inl (Exception msg))"
      by (simp add: attempt_of_def)
    then show ?thesis by (rule failed)
  qed
  have unbuilt: "\<exists>st' msg. e = Exception msg \<and>
           handle_line gen st (Parsed (JObj kv)) = (st', Continue) \<and>
           stdout_lines st' = stdout_lines st @
             [JsonLine (JObj [(''success'', JBool False), (''error'', JStr msg)])] \<and>
           \<not> fd1_to_stderr st' \<and>
           server_loop gen st (Parsed (JObj kv) # rest) = server_loop gen st' rest"
    if "build_kwargs ?params = Inl e" for e
  proof -
    from that obtain msg where m: "e = Exception msg" using build_kwargs_raises by blast
    with that have "attempt_of gen ?params = ([], Inl (Exception msg))"
      by (simp add: attempt_of_def)
    from failed [OF this] m show ?thesis by blast
  qed
  have left: "\<exists>st'. handle_line gen st (Parsed (JObj kv))
                       = (st', if e = KeyboardInterrupt then Break else Exit) \<and>
           stdout_lines st' = stdout_lines st \<and>
           stderr_lines st' = stderr_lines st @ map TextLine printed \<and>
           \<not> fd1_to_stderr st' \<and>
           server_loop gen st (Parsed (JObj kv) # rest)
             = (st', if e = KeyboardInterrupt then Break else Exit)"
    if "build_kwargs ?params = Inr kwargs \<and> gen kwargs = (printed, Raises e)"
      and e: "e = KeyboardInterrupt \<or> e = SystemExit"
    for kwargs printed e
  proof -
    from that(1) have "attempt_of gen ?params = (printed, Inl e)"
      by (simp add: attempt_of_def)
    from handle_generate_leaves [OF fd this e] obtain st' where
      s: "handle_generate gen st ?params = (st', if e = KeyboardInterrupt then Break else Exit)"
         "stdout_lines st' = stdout_lines st"
         "stderr_lines st' = stderr_lines st @ map TextLine printed"
         "\<not> fd1_to_stderr st'"
      by blast
    from s(1) loop e
    have "server_loop gen st (Parsed (JObj kv) # rest)
            = (st', if e = KeyboardInterrupt then Break else Exit)"
      by auto
    with s hl show ?thesis by simp
  qed
  have interrupted: "\<exists>st'. handle_line gen st (Parsed (JObj kv)) = (st', Break) \<and>
           stdout_lines st' = stdout_lines st \<and>
           stderr_lines st' = stderr_lines st @ map TextLine printed \<and>
           \<not> fd1_to_stderr st' \<and>
           server_loop gen st (Parsed (JObj kv) # rest) = (st', Break)"
    if "build_kwargs ?params = Inr kwargs \<and> gen kwargs = (printed, Raises KeyboardInterrupt)"
    for kwargs printed
    using left [OF that] by simp
  have exited: "\<exists>st'. handle_line gen st (Parsed (JObj kv)) = (st', Exit) \<and>
           stdout_lines st' = stdout_lines st \<and>
           stderr_lines st' = stderr_lines st @ map TextLine printed \<and>
           \<not> fd1_to_stderr st' \<and>
           server_loop gen st (Parsed (JObj kv) # rest) = (st', Exit)"
    if "build_kwargs ?params = Inr kwargs \<and> gen kwargs = (printed, Raises SystemExit)"
    for kwargs printed
    using left [OF that] by simp
  show ?thesis
  proof (intro conjI allI impI)
    fix kwargs printed
    assume "build_kwargs ?params = Inr kwargs \<and> gen kwargs = (printed, Completes)"
    then show "\<exists>st'. handle_line gen st (Parsed (JObj kv)) = (st', Continue) \<and>
           stdout_lines st' = stdout_lines st @
             [JsonLine (JObj
                [(''success'', JBool True),
                 (''video_path'', get_or kwargs ''output_path'' JNull),
                 (''seed'', get_or kwargs ''seed'' JNull),
                 (''mode'', JStr (if truthy (get_or kwargs ''image'' JNull)
                                   then ''i2v'' else ''t2v'')),
                 (''has_audio'',
                    JBool (\<not> truthy (get_or kwargs ''no_audio'' (JBool False))))])] \<and>
           stderr_lines st' = stderr_lines st @ map TextLine printed \<and>
           \<not> fd1_to_stderr st' \<and>
           server_loop gen st (Parsed (JObj kv) # rest) = server_loop gen st' rest"
      by (rule ok)
  next
    fix kwargs printed msg
    assume "build_kwargs ?params = Inr kwargs \<and> gen kwargs = (printed, Raises (Exception msg))"
    then show "\<exists>st'. handle_line gen st (Parsed (JObj kv)) = (st', Continue) \<and>
           stdout_lines st' = stdout_lines st @
             [JsonLine (JObj [(''success'', JBool False), (''error'', JStr msg)])] \<and>
           stderr_lines st'
             = stderr_lines st @ map TextLine printed @ [Traceback (Exception msg)] \<and>
           \<not> fd1_to_stderr st' \<and>
           server_loop gen st (Parsed (JObj kv) # rest) = server_loop gen st' rest"
      by (rule raised)
  next
    fix e
    assume "build_kwargs ?params = Inl e"
    then show "\<exists>st' msg. e = Exception msg \<and>
           handle_line gen st (Parsed (JObj kv)) = (st', Continue) \<and>
           stdout_lines st' = stdout_lines st @
             [JsonLine (JObj [(''success'', JBool False), (''error'', JStr msg)])] \<and>
           \<not> fd1_to_stderr st' \<and>
           server_loop gen st (Parsed (JObj kv) # rest) = server_loop gen st' rest"
      by (rule unbuilt)
  next
    fix kwargs printed
    assume "build_kwargs ?params = Inr kwargs \<and> gen kwargs = (printed, Raises KeyboardInterrupt)"
    then show "\<exists>st'. handle_line gen st (Parsed (JObj kv)) = (st', Break) \<and>
           stdout_lines st' = stdout_lines st \<and>
           stderr_lines st' = stderr_lines st @ map TextLine printed \<and>
           \<not> fd1_to_stderr st' \<and>
           server_loop gen st (Parsed (JObj kv) # rest) = (st', Break)"
      by (rule interrupted)
  next
    fix kwargs printed
    assume "build_kwargs ?params = Inr kwargs \<and> gen kwargs = (printed, Raises SystemExit)"
    then show "\<exists>st'. handle_line gen st (Parsed (JObj kv)) = (st', Exit) \<and>
           stdout_lines st' = stdout_lines st \<and>
           stderr_lines st' = stderr_lines st @ map TextLine printed \<and>
           \<not> fd1_to_stderr st' \<and>
           server_loop gen st (Parsed (JObj kv) # rest) = (st', Exit)"
      by (rule exited)
  qed
qed

theorem generate_request_answered_witness:
  "get_or [(''command'', JStr ''generate''),
           (''params'', JObj [(''prompt'', JStr ''a cat''), (''seed'', JInt 7)])]
     ''command'' JNull = JStr ''generate'' \<and>
   \<not> fd1_to_stderr initial_state \<and>
   handle_line chatty_generator initial_state (generate_request ''a cat'')
     = (\<lparr>stdout_lines =
           [JsonLine (JObj [(''success'', JBool True), (''video_path'', JStr ''output.mp4''),
                            (''seed'', JInt 7), (''mode'', JStr ''t2v''),
                            (''has_audio'', JBool True)])],
         stderr_lines = [TextLine ''loading'', TextLine ''done''],
         fd1_to_stderr = False\<rparr>, Continue) \<and>
   handle_line chatty_generator initial_state (generate_request ''fail'')
     = (\<lparr>stdout_lines =
           [JsonLine (JObj [(''success'', JBool False), (''error'', JStr ''shape mismatch'')])],
         stderr_lines = [TextLine ''loading'', Traceback (Exception ''shape mismatch'')],
         fd1_to_stderr = False\<rparr>, Continue) \<and>
   handle_line chatty_generator initial_state
       (Parsed (JObj [(''command'', JStr ''generate''), (''params'', JArr [])]))
     = (\<lparr>stdout_lines =
           [JsonLine (JObj [(''success'', JBool False),
              (''error'', JStr ([CHR 0x27] @ ''list'' @ [CHR 0x27] @ '' object has no attribute ''
                                 @ [CHR 0x27] @ ''get'' @ [CHR 0x27]))])],
         stderr_lines =
           [Traceback (Exception ([CHR 0x27] @ ''list'' @ [CHR 0x27]
              @ '' object has no attribute '' @ [CHR 0x27] @ ''get'' @ [CHR 0x27]))],
         fd1_to_stderr = False\<rparr>, Continue) \<and>
   server_loop interrupted_generator initial_state
       [generate_request ''a cat'', generate_request ''a dog'']
     = (\<lparr>stdout_lines = [], stderr_lines = [TextLine ''loading''],
         fd1_to_stderr = False\<rparr>, Break) \<and>
   server_loop exiting_generator initial_state
       [generate_request ''a cat'', generate_request ''a dog'']
     = (\<lparr>stdout_lines = [], stderr_lines = [], fd1_to_stderr = False\<rparr>, Exit)"
proof -
  let ?kv = "\<lambda>p. [(''command'', JStr ''generate''),
                   (''params'', JObj [(''prompt'', JStr p), (''seed'', JInt 7)])]"
  let ?kw = "\<lambda>p. [(''prompt'', JStr p), (''height'', JInt 512), (''width'', JInt 512),
                   (''num_frames'', JInt 65), (''seed'', JInt 7), (''fps'', JInt 24),
                   (''output_path'', JStr ''output.mp4''),
                   (''model_repo'', JStr ''notapalindrome/ltx2-mlx-av'')]"
  have cmd: "get_or (?kv p) ''command'' JNull = JStr ''generate''" for p
    by (simp add: get_or_def)
  have fd: "\<not> fd1_to_stderr initial_state" by (simp add: initial_state_def)
  have bk: "build_kwargs (get_or (?kv p) ''params'' (JObj [])) = Inr (?kw p)" for p
    by (simp add: build_kwargs_def get_or_def)
  have rec: "st = \<lparr>stdout_lines = a, stderr_lines = b, fd1_to_stderr = False\<rparr>"
    if "stdout_lines st = a" "stderr_lines st = b" "\<not> fd1_to_stderr st"
    for st :: server_state and a b
    using that by (cases st) simp
  have good: "chatty_generator (?kw ''a cat'') = ([''loading'', ''done''], Completes)"
    by (simp add: chatty_generator_def get_or_def)
  from generate_request_answered [OF cmd fd, of "''a cat''" chatty_generator "[]"] bk good
  obtain s1 where
    s1: "handle_line chatty_generator initial_state (Parsed (JObj (?kv ''a cat''))) = (s1, Continue)"
      "stdout_lines s1 = stdout_lines initial_state @
         [JsonLine (JObj
            [(''success'', JBool True),
             (''video_path'', get_or (?kw ''a cat'') ''output_path'' JNull),
             (''seed'', get_or (?kw ''a cat'') ''seed'' JNull),
             (''mode'', JStr (if truthy (get_or (?kw ''a cat'') ''image'' JNull)
                               then ''i2v'' else ''t2v'')),
             (''has_audio'',
                JBool (\<not> truthy (get_or (?kw ''a cat'') ''no_audio'' (JBool False))))])]"
      "stderr_lines s1 = stderr_lines initial_state @ map TextLine [''loading'', ''done'']"
      "\<not> fd1_to_stderr s1"
    by blast
  have a1: "handle_line chatty_generator initial_state (generate_request ''a cat'')
     = (\<lparr>stdout_lines =
           [JsonLine (JObj [(''success'', JBool True), (''video_path'', JStr ''output.mp4''),
                            (''seed'', JInt 7), (''mode'', JStr ''t2v''),
                            (''has_audio'', JBool True)])],
         stderr_lines = [TextLine ''loading'', TextLine ''done''],
         fd1_to_stderr = False\<rparr>, Continue)"
    using s1(1) rec [OF s1(2) s1(3) s1(4)]
    by (simp add: generate_request_def initial_state_def get_or_def)
  have bad: "chatty_generator (?kw ''fail'')
               = ([''loading''], Raises (Exception ''shape mismatch''))"
    by (simp add: chatty_generator_def get_or_def)
  from generate_request_answered [OF cmd fd, of "''fail''" chatty_generator "[]"] bk bad
  obtain s2 where
    s2: "handle_line chatty_generator initial_state (Parsed (JObj (?kv ''fail''))) = (s2, Continue)"
      "stdout_lines s2 = stdout_lines initial_state @
         [JsonLine (JObj [(''success'', JBool False), (''error'', JStr ''shape mismatch'')])]"
      "stderr_lines s2 = stderr_lines initial_state @ map TextLine [''loading'']
         @ [Traceback (Exception ''shape mismatch'')]"
      "\<not> fd1_to_stderr s2"
    by blast
  have a2: "handle_line chatty_generator initial_state (generate_request ''fail'')
     = (\<lparr>stdout_lines =
           [JsonLine (JObj [(''success'', JBool False), (''error'', JStr ''shape mismatch'')])],
         stderr_lines = [TextLine ''loading'', Traceback (Exception ''shape mismatch'')],
         fd1_to_stderr = False\<rparr>, Continue)"
    using s2(1) rec [OF s2(2) s2(3) s2(4)]
    by (simp add: generate_request_def initial_state_def)
  let ?akv = "[(''command'', JStr ''generate''), (''params'', JArr [])]"
  let ?msg = "[CHR 0x27] @ ''list'' @ [CHR 0x27] @ '' object has no attribute ''
                @ [CHR 0x27] @ ''get'' @ [CHR 0x27]"
  have acmd: "get_or ?akv ''command'' JNull = JStr ''generate''" by (simp add: get_or_def)
  have abk: "build_kwargs (get_or ?akv ''params'' (JObj [])) = Inl (Exception ?msg)"
    by (simp add: build_kwargs_def get_or_def)
  from generate_request_answered [OF acmd fd, of chatty_generator "[]"] abk
  obtain s3 where
    s3: "handle_line chatty_generator initial_state (Parsed (JObj ?akv)) = (s3, Continue)"
      "stdout_lines s3 = stdout_lines initial_state @
         [JsonLine (JObj [(''success'', JBool False), (''error'', JStr ?msg)])]"
      "\<not> fd1_to_stderr s3"
    by blast
  have "handle_line chatty_generator initial_state (Parsed (JObj ?akv))
          = handle_generate chatty_generator initial_state (JArr [])"
    by (simp add: handle_line_def get_or_def)
  then have "stderr_lines (fst (handle_line chatty_generator initial_state (Parsed (JObj ?akv))))
               = [Traceback (Exception ?msg)]"
    by (simp add: handle_generate_def attempt_of_def build_kwargs_def initial_state_def
        print_stdout_def Let_def)
  with s3(1) have "stderr_lines s3 = [Traceback (Exception ?msg)]" by simp
  from s3(1) rec [OF s3(2) this s3(3)]
  have a3: "handle_line chatty_generator initial_state (Parsed (JObj ?akv))
     = (\<lparr>stdout_lines =
           [JsonLine (JObj [(''success'', JBool False), (''error'', JStr ?msg)])],
         stderr_lines = [Traceback (Exception ?msg)],
         fd1_to_stderr = False\<rparr>, Continue)"
    by (simp add: initial_state_def)
  have int: "interrupted_generator (?kw ''a cat'') = ([''loading''], Raises KeyboardInterrupt)"
    by (simp add: interrupted_generator_def)
  from generate_request_answered [OF cmd fd, of "''a cat''" interrupted_generator
      "[generate_request ''a dog'']"] bk int
  obtain s4 where
    s4: "server_loop interrupted_generator initial_state
           [Parsed (JObj (?kv ''a cat'')), generate_request ''a dog''] = (s4, Break)"
      "stdout_lines s4 = stdout_lines initial_state"
      "stderr_lines s4 = stderr_lines initial_state @ map TextLine [''loading'']"
      "\<not> fd1_to_stderr s4"
    by blast
  have a4: "server_loop interrupted_generator initial_state
       [generate_request ''a cat'', generate_request ''a dog'']
     = (\<lparr>stdout_lines = [], stderr_lines = [TextLine ''loading''],
         fd1_to_stderr = False\<rparr>, Break)"
    using s4(1) rec [OF s4(2) s4(3) s4(4)]
    by (simp add: generate_request_def initial_state_def)
  have ex: "exiting_generator (?kw ''a cat'') = ([], Raises SystemExit)"
    by (simp add: exiting_generator_def)
  from generate_request_answered [OF cmd fd, of "''a cat''" exiting_generator
      "[generate_request ''a dog'']"] bk ex
  obtain s5 where
    s5: "server_loop exiting_generator initial_state
           [Parsed (JObj (?kv ''a cat'')), generate_request ''a dog''] = (s5, Exit)"
      "stdout_lines s5 = stdout_lines initial_state"
      "stderr_lines s5 = stderr_lines initial_state @ map TextLine []"
      "\<not> fd1_to_stderr s5"
    by blast
  have a5: "server_loop exiting_generator initial_state
       [generate_request ''a cat'', generate_request ''a dog'']
     = (\<lparr>stdout_lines = [], stderr_lines = [], fd1_to_stderr = False\<rparr>, Exit)"
    using s5(1) rec [OF s5(2) s5(3) s5(4)]
    by (simp add: generate_request_def initial_state_def)
  from cmd [of "''a cat''"] fd a1 a2 a3 a4 a5 show ?thesis by simp
qed

end
